(* ===== verification/Bold_Prelude.thy ===== *)
theory Bold_Prelude
  imports Main "HOL-Library.Word" "HOL-Library.AList"
begin

text \<open>
  Shared vocabulary of the development: Go's fixed-width integers, the functions of Go's
  \<^verbatim>\<open>math/bits\<close> the program calls, Go errors as values, and the generic facts on binary
  representations, lists and association lists that the component theories use.
\<close>

unbundle bit_operations_syntax

subsection \<open>Types\<close>

type_synonym uint8 = "8 word"
type_synonym uint64 = "64 word"

subsection \<open>Errors and fallible results\<close>

text \<open>
  Go errors as values. A sentinel error of the program is a constructor of its own; an error
  made in place by \<^verbatim>\<open>errors.New\<close> or \<^verbatim>\<open>fmt.Errorf\<close> is \<open>ErrMsg\<close> with its text before formatting.
  Errors are kept up to \<^verbatim>\<open>errors.Is\<close>: wrapping an error with a message gives the error back.
  \<open>GoPanic\<close> is a run-time panic (an index out of range, a nil dereference, a negative shift).
\<close>

datatype go_error =
    ErrUnableToBisect
  | ErrRootForEmpty | ErrExpansionTooLarge | ErrLevelTooHigh | ErrTreeSize
  | ErrCannotAppendEmpty | ErrCannotAppendAboveLeastSignificant | ErrStartNotLessThanEnd
  | ErrCannotBeZero | ErrRootMismatch | ErrIncompleteProof | ErrSizeNotLeqPostSize
  | ErrIndexOutOfRange
  | ErrProofTooLong | ErrInvalidLeaves
  | ErrFsmInvalidTransition | ErrFsmEventNotFound
  | ErrNoExecutionState | ErrChainCatchingUp
  | ErrAlreadyBeingTracked | ErrMismatchedChallengeAssertionHash
  | ErrNoHonestTopLevelEdge | ErrNotFound | ErrNoLevelZero | ErrNoLowerChildYet
  | ErrNotYetConfirmable | ErrBadOneStepProof
  | ErrNotFoundOnChain | ErrAlreadyExists | ErrPrevDoesNotExist | ErrTooLate
  | ErrMsg string
  | GoPanic

type_synonym 'a res = "go_error + 'a"

text \<open>
  \<open>bindR m k\<close> is \<^verbatim>\<open>x, err := m; if err != nil { return err }; k(x)\<close>.
\<close>

definition bindR :: "'e + 'a \<Rightarrow> ('a \<Rightarrow> 'e + 'b) \<Rightarrow> 'e + 'b" where
  "bindR m k = (case m of Inl e \<Rightarrow> Inl e | Inr x \<Rightarrow> k x)"

lemma bindR_simps [simp]: "bindR (Inl e) k = Inl e" "bindR (Inr x) k = k x"
  by (simp_all add: bindR_def)

lemma bindR_eq_Inr: "bindR m k = Inr y \<longleftrightarrow> (\<exists>x. m = Inr x \<and> k x = Inr y)"
  by (cases m) auto

lemma bindR_cong [fundef_cong]:
  "m = m' \<Longrightarrow> (\<And>x. m' = Inr x \<Longrightarrow> k x = k' x) \<Longrightarrow> bindR m k = bindR m' k'"
  by (cases m') auto

text \<open>Evaluates the argument before the continuation; used to compute with recursive operations.\<close>

lemma bindR_weak_cong: "m = m' \<Longrightarrow> bindR m k = bindR m' k"
  by simp

text \<open>A loop over a slice that collects results and stops at the first error.\<close>

fun mapR :: "('a \<Rightarrow> 'b res) \<Rightarrow> 'a list \<Rightarrow> 'b list res" where
  "mapR f [] = Inr []"
| "mapR f (x # xs) = bindR (f x) (\<lambda>y. bindR (mapR f xs) (\<lambda>ys. Inr (y # ys)))"

lemma mapR_Inr: "(\<And>x. x \<in> set xs \<Longrightarrow> f x = Inr (g x)) \<Longrightarrow> mapR f xs = Inr (map g xs)"
  by (induction xs) auto

lemma upt_Suc_Cons: "[0..<Suc n] = 0 # map Suc [0..<n]"
  unfolding map_Suc_upt by (rule upt_conv_Cons) simp

text \<open>Reading a slice at an index: out of range panics.\<close>

definition index_at :: "'a list \<Rightarrow> nat \<Rightarrow> 'a res" where
  "index_at xs i = (if i < length xs then Inr (xs ! i) else Inl GoPanic)"

lemma index_at_Inr [simp]: "i < length xs \<Longrightarrow> index_at xs i = Inr (xs ! i)"
  by (simp add: index_at_def)

text \<open>\<^verbatim>\<open>xs[:upTo]\<close> and \<^verbatim>\<open>xs[lo:]\<close> for a slice whose capacity is its length.\<close>

definition slice_to :: "'a list \<Rightarrow> uint64 \<Rightarrow> 'a list res" where
  "slice_to xs upTo = (if unat upTo \<le> length xs then Inr (take (unat upTo) xs) else Inl GoPanic)"

definition slice_from :: "'a list \<Rightarrow> uint64 \<Rightarrow> 'a list res" where
  "slice_from xs lo = (if unat lo \<le> length xs then Inr (drop (unat lo) xs) else Inl GoPanic)"

text \<open>
  Operations on a mutable state \<open>'s\<close>. An operation that fails keeps the changes it made before.
\<close>

type_synonym ('s, 'a) op = "'s \<Rightarrow> 'a res \<times> 's"

definition returnM :: "'a \<Rightarrow> ('s, 'a) op" where
  "returnM x s = (Inr x, s)"

definition failM :: "go_error \<Rightarrow> ('s, 'a) op" where
  "failM e s = (Inl e, s)"

definition liftM :: "'a res \<Rightarrow> ('s, 'a) op" where
  "liftM r s = (r, s)"

definition bindM :: "('s, 'a) op \<Rightarrow> ('a \<Rightarrow> ('s, 'b) op) \<Rightarrow> ('s, 'b) op" where
  "bindM m k s = (case m s of (Inl e, s') \<Rightarrow> (Inl e, s') | (Inr x, s') \<Rightarrow> k x s')"

definition getM :: "('s \<Rightarrow> 'a) \<Rightarrow> ('s, 'a) op" where
  "getM f s = (Inr (f s), s)"

definition modifyM :: "('s \<Rightarrow> 's) \<Rightarrow> ('s, unit) op" where
  "modifyM f s = (Inr (), f s)"

text \<open>Handling an error in place; a panic is not an error value and goes on unwinding.\<close>

definition tryM :: "('s, 'a) op \<Rightarrow> ('s, 'a res) op" where
  "tryM m s = (case m s of (r, s') \<Rightarrow> (if r = Inl GoPanic then Inl GoPanic else Inr r, s'))"

lemmas op_defs = returnM_def failM_def liftM_def getM_def modifyM_def

lemma bindM_eqI: "m s = (Inr x, s') \<Longrightarrow> bindM m k s = k x s'"
  by (simp add: bindM_def)

lemma bindM_Inr_E:
  assumes "bindM m k s = (Inr y, s')"
  obtains x s1 where "m s = (Inr x, s1)" "k x s1 = (Inr y, s')"
  using assms by (auto simp: bindM_def split: prod.splits sum.splits)

lemma bindM_invariant:
  assumes "\<And>s. P s \<Longrightarrow> P (snd (m s))" "\<And>x s. P s \<Longrightarrow> P (snd (k x s))" "P s"
  shows "P (snd (bindM m k s))"
  using assms(1) [OF assms(3)] assms(2) by (auto simp: bindM_def split: prod.splits sum.splits)

lemma snd_bindM_return: "snd (bindM m (\<lambda>_. returnM a) s) = snd (m s)"
  by (auto simp: bindM_def returnM_def split: prod.splits sum.splits)

lemma bindM_returnM [simp]: "bindM (returnM x) k s = k x s"
  by (simp add: bindM_def op_defs)

lemma bindM_failM [simp]: "bindM (failM e) k s = (Inl e, s)"
  by (simp add: bindM_def op_defs)

lemma bindM_liftM_Inr [simp]: "bindM (liftM (Inr x)) k s = k x s"
  by (simp add: bindM_def op_defs)

lemma bindM_liftM_Inl [simp]: "bindM (liftM (Inl e)) k s = (Inl e, s)"
  by (simp add: bindM_def op_defs)

lemma bindM_getM [simp]: "bindM (getM f) k s = k (f s) s"
  by (simp add: bindM_def op_defs)

lemma bindM_modifyM [simp]: "bindM (modifyM g) k s = k () (g s)"
  by (simp add: bindM_def op_defs)

subsection \<open>The functions of \<^verbatim>\<open>math/bits\<close>\<close>

text \<open>\<open>bit_len n\<close> is the number of binary digits of \<open>n\<close> (Go: \<^verbatim>\<open>bits.Len64\<close>).\<close>

fun bit_len :: "nat \<Rightarrow> nat" where
  "bit_len n = (if n = 0 then 0 else Suc (bit_len (n div 2)))"

declare bit_len.simps [simp del]

text \<open>\<open>low_zeros n\<close> counts the zero digits below the lowest set one; it is 0 at 0.\<close>

fun low_zeros :: "nat \<Rightarrow> nat" where
  "low_zeros n = (if n = 0 \<or> odd n then 0 else Suc (low_zeros (n div 2)))"

declare low_zeros.simps [simp del]

definition LeadingZeros64 :: "uint64 \<Rightarrow> nat" where
  "LeadingZeros64 x = 64 - bit_len (unat x)"

definition TrailingZeros64 :: "uint64 \<Rightarrow> nat" where
  "TrailingZeros64 x = (if x = 0 then 64 else low_zeros (unat x))"

subsection \<open>Facts on binary representations\<close>

lemma bit_len_0 [simp]: "bit_len 0 = 0"
  by (simp add: bit_len.simps)

lemma bit_len_pos: "0 < n \<Longrightarrow> bit_len n = Suc (bit_len (n div 2))"
  by (simp add: bit_len.simps [of n])

lemma bit_len_upper: "n < 2 ^ bit_len n"
proof (induction n rule: bit_len.induct)
  case (1 n)
  then show ?case by (cases "n = 0") (auto simp: bit_len_pos)
qed

lemma bit_len_lower: "0 < n \<Longrightarrow> 2 ^ (bit_len n - 1) \<le> n"
proof (induction n rule: bit_len.induct)
  case (1 n)
  show ?case
  proof (cases "n div 2 = 0")
    case True
    with 1 show ?thesis by (simp add: bit_len_pos)
  next
    case False
    with 1 have "2 ^ (bit_len (n div 2) - 1) \<le> n div 2" by simp
    moreover have "0 < bit_len (n div 2)" using False by (simp add: bit_len_pos)
    ultimately show ?thesis using "1.prems"
      by (cases "bit_len (n div 2)") (auto simp: bit_len_pos)
  qed
qed

lemma bit_len_less_iff: "bit_len n \<le> k \<longleftrightarrow> n < 2 ^ k"
proof
  assume "bit_len n \<le> k"
  then have "(2::nat) ^ bit_len n \<le> 2 ^ k" by simp
  with bit_len_upper [of n] show "n < 2 ^ k" by linarith
next
  assume a: "n < 2 ^ k"
  show "bit_len n \<le> k"
  proof (rule ccontr)
    assume "\<not> bit_len n \<le> k"
    then have k: "k \<le> bit_len n - 1" and "0 < n" by (auto intro: ccontr)
    then have "(2::nat) ^ k \<le> 2 ^ (bit_len n - 1)" by simp
    with bit_len_lower [OF \<open>0 < n\<close>] a show False by linarith
  qed
qed

lemma bit_len_eqI: "2 ^ k \<le> n \<Longrightarrow> n < 2 ^ Suc k \<Longrightarrow> bit_len n = Suc k"
  using bit_len_less_iff [of n k] bit_len_less_iff [of n "Suc k"] by linarith

lemma bit_len_unat_le: "bit_len (unat (x :: uint64)) \<le> 64"
  unfolding bit_len_less_iff using unsigned_less [of x] by simp

lemma low_zeros_dvd: "2 ^ low_zeros n dvd n"
proof (induction n rule: low_zeros.induct)
  case (1 n)
  show ?case
  proof (cases "n = 0 \<or> odd n")
    case True
    then show ?thesis by (simp add: low_zeros.simps [of n])
  next
    case False
    with 1 have "2 * 2 ^ low_zeros (n div 2) dvd 2 * (n div 2)" by (intro mult_dvd_mono) auto
    with False show ?thesis by (simp add: low_zeros.simps [of n])
  qed
qed

lemma low_zeros_max: "0 < n \<Longrightarrow> 2 ^ k dvd n \<Longrightarrow> k \<le> low_zeros n"
proof (induction n arbitrary: k rule: low_zeros.induct)
  case (1 n)
  show ?case
  proof (cases "odd n")
    case True
    with "1.prems" show ?thesis by (cases k) auto
  next
    case False
    show ?thesis
    proof (cases k)
      case 0
      then show ?thesis by simp
    next
      case (Suc j)
      with "1.prems" have "2 ^ j dvd n div 2" by (auto simp: dvd_def)
      moreover have "0 < n div 2" using False "1.prems" by (auto elim!: evenE)
      ultimately have "j \<le> low_zeros (n div 2)" using "1.IH" False "1.prems" by auto
      with False "1.prems" Suc show ?thesis by (simp add: low_zeros.simps [of n])
    qed
  qed
qed

lemma low_zeros_eqI: "2 ^ k dvd n \<Longrightarrow> \<not> 2 ^ Suc k dvd n \<Longrightarrow> low_zeros n = k"
proof (rule antisym)
  assume a: "2 ^ k dvd n" "\<not> 2 ^ Suc k dvd n"
  then have "0 < n" by (auto intro: ccontr)
  with a low_zeros_max show "k \<le> low_zeros n" by blast
  show "low_zeros n \<le> k"
  proof (rule ccontr)
    assume "\<not> low_zeros n \<le> k"
    then have "(2::nat) ^ Suc k dvd 2 ^ low_zeros n" by (intro le_imp_power_dvd) simp
    with a low_zeros_dvd [of n] show False by (meson dvd_trans)
  qed
qed

text \<open>
  Two different numbers share their digits above the highest digit where they differ; there the
  smaller one has a 0 and the larger one a 1.
\<close>

lemma highest_differing_bit:
  fixes a b :: nat
  assumes ab: "a < b" and m: "m = bit_len (a XOR b) - 1"
  obtains c r s where "a = c * 2 ^ Suc m + r" "b = c * 2 ^ Suc m + 2 ^ m + s"
    "r < 2 ^ m" "s < 2 ^ m"
proof -
  let ?x = "a XOR b"
  have nz: "0 < ?x"
  proof (rule ccontr)
    assume "\<not> 0 < ?x"
    then have "a = b" by (simp add: bit_eq_iff bit_simps)
    with ab show False by simp
  qed
  have lo: "2 ^ m \<le> ?x" using bit_len_lower [OF nz] m by simp
  have hi: "?x < 2 ^ Suc m" using bit_len_upper [of ?x] m nz by (simp add: bit_len_pos)
  have "drop_bit (Suc m) ?x = 0" using hi by (simp add: drop_bit_eq_div)
  then have "drop_bit (Suc m) a XOR drop_bit (Suc m) b = 0" by simp
  then have "drop_bit (Suc m) a = drop_bit (Suc m) b"
    by (simp add: bit_eq_iff bit_simps)
  then have up: "a div 2 ^ Suc m = b div 2 ^ Suc m"
    by (simp only: drop_bit_eq_div)
  have "?x div 2 ^ m = 1" using lo hi by (simp add: div_nat_eqI)
  then have "bit ?x m" by (simp add: bit_iff_odd)
  then have diff: "bit a m \<noteq> bit b m" by (simp add: bit_simps)
  define c where "c = b div 2 ^ Suc m"
  have split: "n = (n div 2 ^ Suc m) * 2 ^ Suc m + of_bool (bit n m) * 2 ^ m + n mod 2 ^ m" for n :: nat
  proof -
    have 1: "n div 2 ^ Suc m = n div 2 ^ m div 2" by (simp only: power_Suc2 div_mult2_eq)
    have 2: "of_bool (bit n m) = n div 2 ^ m mod 2" by (simp add: bit_iff_odd mod2_eq_if)
    have "n = n div 2 ^ m * 2 ^ m + n mod 2 ^ m" by (simp only: div_mult_mod_eq)
    also have "n div 2 ^ m = n div 2 ^ m div 2 * 2 + n div 2 ^ m mod 2" by (simp only: div_mult_mod_eq)
    finally show ?thesis unfolding 1 2 by (simp only: power_Suc algebra_simps)
  qed
  have "bit b m" "\<not> bit a m"
  proof -
    have "\<not> (bit a m \<and> \<not> bit b m)"
    proof
      assume "bit a m \<and> \<not> bit b m"
      with split [of a] split [of b] up have "a = c * 2 ^ Suc m + 2 ^ m + a mod 2 ^ m"
        and "b = c * 2 ^ Suc m + b mod 2 ^ m" by (auto simp: c_def)
      moreover have "b mod 2 ^ m < 2 ^ m" by simp
      ultimately show False using ab by linarith
    qed
    with diff show "bit b m" "\<not> bit a m" by auto
  qed
  with split [of a] split [of b] up show ?thesis
    by (intro that [of c "a mod 2 ^ m" "b mod 2 ^ m"]) (auto simp: c_def)
qed

lemma LeadingZeros64_eq_64 [simp]: "LeadingZeros64 x = 64 \<longleftrightarrow> x = 0"
  by (simp add: LeadingZeros64_def) (use bit_len_less_iff [of "unat x" 0] in \<open>auto simp: unat_eq_0\<close>)

lemma LeadingZeros64_nonzero:
  assumes "x \<noteq> 0"
  shows "LeadingZeros64 x \<le> 63" "63 - LeadingZeros64 x = bit_len (unat x) - 1"
proof -
  have "0 < bit_len (unat x)" using assms by (simp add: bit_len_pos unat_eq_0 flip: neq0_conv)
  with bit_len_unat_le [of x] show "LeadingZeros64 x \<le> 63" "63 - LeadingZeros64 x = bit_len (unat x) - 1"
    by (auto simp: LeadingZeros64_def)
qed

subsection \<open>Facts on 64-bit words\<close>

lemma unat_of_nat64: "n < 2 ^ 64 \<Longrightarrow> unat (of_nat n :: uint64) = n"
  by (simp add: unsigned_of_nat take_bit_nat_eq_self)

lemma unat_lt8: "unat (x :: uint8) < 256"
  using unsigned_less [of x] by simp

lemma unat_Suc8: "(x :: uint8) < y \<Longrightarrow> unat (x + 1) = unat x + 1"
  using unat_lt8 [of y] by (simp add: word_less_nat_alt unat_word_ariths)

lemma unat_lt64: "unat (x :: uint64) < 2 ^ 64"
  using unsigned_less [of x] by simp

lemma unat_shift1: "l < 64 \<Longrightarrow> unat (push_bit l 1 :: uint64) = 2 ^ l"
  using unat_of_nat64 [of "2 ^ l"] power_strict_increasing_iff [of "2::nat" l 64] by simp

lemma unat_and_low_mask:
  "unat (x AND (push_bit m 1 - 1) :: uint64) = unat x mod 2 ^ m"
proof -
  have "x AND (push_bit m 1 - 1) = take_bit m x"
    by (simp add: take_bit_eq_mask mask_eq_exp_minus_1)
  then show ?thesis by (simp only: unsigned_take_bit_eq take_bit_nat_def)
qed

lemma bit_unat64: "bit (x :: uint64) j \<longleftrightarrow> odd (unat x div 2 ^ j)"
  using bit_unsigned_iff [where 'a = nat, of x j] by (simp add: bit_iff_odd [of "unat x"])

lemma unat_of_nat64_pred: "0 < n \<Longrightarrow> n < 2 ^ 64 \<Longrightarrow> unat (of_nat n - 1 :: uint64) = n - 1"
  using unat_of_nat64 [of "n - 1"] by (cases n) simp_all

end
