(* ===== verification/Bisection.thy ===== *)
theory Bisection
  imports Bold_Prelude
begin

text \<open>
  \<^verbatim>\<open>math/math.go\<close>: the bisection point of a challenge edge. Heights are \<^verbatim>\<open>uint64\<close>, so the guards
  compare wrapped sums; a negative shift count panics. What a challenge needs of a bisection
  function is the locale \<open>bisector\<close>, and repeated bisection is shown to end at edges of length one.
\<close>

definition Bisect :: "uint64 \<Rightarrow> uint64 \<Rightarrow> uint64 res" where
  "Bisect pre post =
     (if pre + 2 > post then Inl ErrUnableToBisect
      else if pre + 2 = post then Inr (pre + 1)
      else
        let matchingBits = LeadingZeros64 ((post - 1) XOR pre) in
        if 63 < matchingBits then Inl GoPanic
        else
          let mask = push_bit (63 - matchingBits) (- 1) in
          Inr ((post - 1) AND mask))"

lemma unat_and_high_mask:
  fixes x :: "'w::len word"
  shows "unat (x AND push_bit b (- 1)) = unat x div 2 ^ b * 2 ^ b"
proof -
  have eq: "x AND push_bit b (- 1) = push_bit b (drop_bit b x)"
    by (rule bit_word_eqI) (auto simp: bit_simps)
  have "unat x div 2 ^ b * 2 ^ b \<le> unat x" by simp
  also have "unat x < 2 ^ LENGTH('w)" by (rule unsigned_less)
  finally have "unat x div 2 ^ b * 2 ^ b < 2 ^ LENGTH('w)" .
  moreover have "unat (drop_bit b x) = unat x div 2 ^ b"
    unfolding unat_drop_bit_eq by (rule drop_bit_eq_div)
  ultimately show ?thesis
    unfolding eq unsigned_push_bit_eq by (simp add: push_bit_nat_def take_bit_nat_eq_self)
qed

lemma unat_add2: "unat (a :: uint64) + 2 < 2 ^ 64 \<Longrightarrow> unat (a + 2) = unat a + 2"
  by (simp add: unat_word_ariths)

lemma unat_pred: "0 < unat (a :: uint64) \<Longrightarrow> unat (a - 1) = unat a - 1"
  by (metis One_nat_def unat_0 unat_minus_one neq0_conv)

lemma Bisect_error:
  assumes "unat pre + 2 < 2 ^ 64" "unat post < unat pre + 2"
  shows "Bisect pre post = Inl ErrUnableToBisect"
  using assms by (simp add: Bisect_def word_less_nat_alt unat_add2)

lemma Bisect_point:
  assumes gap: "unat pre + 2 \<le> unat post"
  shows "\<exists>m b. Bisect pre post = Inr m \<and> unat pre < unat m \<and> unat m < unat post \<and> 2 ^ b dvd unat m
     \<and> (\<forall>k. unat pre < k \<and> k < unat post \<and> 2 ^ b dvd k \<longrightarrow> k = unat m)"
proof -
  have lt: "unat post < 2 ^ 64" using unsigned_less [of post] by simp
  have pre2: "unat (pre + 2) = unat pre + 2" using gap lt by (intro unat_add2) linarith
  have post1: "unat (post - 1) = unat post - 1" using gap by (intro unat_pred) linarith
  define b where "b = bit_len (unat pre XOR (unat post - 1)) - 1"
  have "unat pre < unat post - 1" using gap by linarith
  then obtain c r s where d: "unat pre = c * 2 ^ Suc b + r" "unat post - 1 = c * 2 ^ Suc b + 2 ^ b + s"
      "r < 2 ^ b" "s < 2 ^ b"
    using highest_differing_bit b_def by metis
  define m where "m = c * 2 ^ Suc b + 2 ^ b"
  have bounds: "unat pre < m" "m < unat post" "2 ^ b dvd m"
    using d gap by (auto simp: m_def)
  have unique: "k = m" if k: "unat pre < k" "k < unat post" "2 ^ b dvd k" for k
  proof -
    from k(3) obtain q where q: "k = q * 2 ^ b" by (auto simp: dvd_def mult.commute)
    have "c * 2 ^ Suc b < q * 2 ^ b" "q * 2 ^ b < c * 2 ^ Suc b + 2 * 2 ^ b"
      using k d q by linarith+
    then have "(c * 2) * 2 ^ b < q * 2 ^ b" "q * 2 ^ b < (c * 2 + 2) * 2 ^ b"
      by (simp_all add: algebra_simps)
    then have "c * 2 < q" "q < c * 2 + 2" by (auto simp only: mult_less_cancel2)
    then have "q = c * 2 + 1" by linarith
    then show ?thesis by (simp add: q m_def algebra_simps)
  qed
  have "\<exists>w. Bisect pre post = Inr w \<and> unat w = m"
  proof (cases "pre + 2 = post")
    case True
    then have "Bisect pre post = Inr (pre + 1)" by (simp add: Bisect_def)
    moreover have "unat (pre + 1) = unat pre + 1" using gap lt by (simp add: unat_word_ariths)
    moreover have "unat pre + 1 = m" using bounds pre2 True by simp
    ultimately show ?thesis by simp
  next
    case False
    let ?x = "(post - 1) XOR pre"
    have x: "unat ?x = unat pre XOR (unat post - 1)"
      by (simp add: unsigned_xor_eq post1 xor.commute)
    have nz: "?x \<noteq> 0"
    proof
      assume "?x = 0"
      then have "post - 1 = pre" by (simp add: bit_eq_iff bit_simps)
      with \<open>unat pre < unat post - 1\<close> post1 show False by simp
    qed
    have "63 - LeadingZeros64 ?x = b" "\<not> 63 < LeadingZeros64 ?x"
      using LeadingZeros64_nonzero [OF nz] by (simp_all add: b_def x)
    with False pre2 gap have "Bisect pre post = Inr ((post - 1) AND push_bit b (- 1))"
      by (simp add: Bisect_def Let_def word_less_nat_alt)
    moreover have "unat ((post - 1) AND push_bit b (- 1)) = m"
    proof -
      have "(c * 2 ^ Suc b + 2 ^ b + s) div 2 ^ b = c * 2 + 1" using d(4)
        by (intro div_nat_eqI) (auto simp: algebra_simps)
      then show ?thesis unfolding unat_and_high_mask post1 d(2) by (simp add: m_def algebra_simps)
    qed
    ultimately show ?thesis by simp
  qed
  with bounds unique show ?thesis by blast
qed

subsection \<open>Repeated bisection\<close>

text \<open>
  A dissection follows the upper (\<open>True\<close>) or lower child at each bisection of the interval
  from \<open>a\<close> to \<open>b\<close>.
\<close>

fun dissect :: "(uint64 \<Rightarrow> uint64 \<Rightarrow> uint64 res) \<Rightarrow> bool list \<Rightarrow> uint64 \<Rightarrow> uint64 \<Rightarrow> (uint64 \<times> uint64) res" where
  "dissect bis [] a b = Inr (a, b)"
| "dissect bis (up # ms) a b = bindR (bis a b) (\<lambda>m. if up then dissect bis ms m b else dissect bis ms a m)"

locale bisector =
  fixes bis :: "uint64 \<Rightarrow> uint64 \<Rightarrow> uint64 res"
  assumes point: "unat a + 2 \<le> unat b \<Longrightarrow> \<exists>m. bis a b = Inr m \<and> unat a < unat m \<and> unat m < unat b"
    and too_short: "unat a + 2 < 2 ^ 64 \<Longrightarrow> unat b < unat a + 2 \<Longrightarrow> bis a b = Inl ErrUnableToBisect"
begin

lemma point_inside:
  assumes "unat a < unat b" "unat b + 1 < 2 ^ 64" "bis a b = Inr m"
  shows "unat a < unat m \<and> unat m < unat b"
  using point [of a b] too_short [of a b] assms by (cases "unat a + 2 \<le> unat b") auto

lemma dissect_shrinks:
  assumes "unat a < unat b" "unat b + 1 < 2 ^ 64" "dissect bis ms a b = Inr (x, y)"
  shows "unat a \<le> unat x \<and> unat x < unat y \<and> unat y \<le> unat b \<and>
    unat y - unat x + length ms \<le> unat b - unat a"
  using assms
proof (induction ms arbitrary: a b)
  case (Cons up ms)
  have gap: "unat a + 2 \<le> unat b"
  proof (rule ccontr)
    assume "\<not> unat a + 2 \<le> unat b"
    then have "bis a b = Inl ErrUnableToBisect" using Cons.prems(1,2) by (intro too_short) linarith+
    with Cons.prems(3) show False by simp
  qed
  then obtain m where m: "bis a b = Inr m" "unat a < unat m" "unat m < unat b" using point by blast
  show ?case
    using Cons.IH [of m b] Cons.IH [of a m] Cons.prems m by (auto split: if_splits)
qed auto

lemma dissect_bounded:
  assumes "unat a < unat b" "unat b + 1 < 2 ^ 64" "unat b - unat a \<le> length ms"
  shows "\<exists>e. dissect bis ms a b = Inl e"
proof (cases "dissect bis ms a b")
  case (Inr xy)
  then have "unat (fst xy) < unat (snd xy) \<and> unat (snd xy) - unat (fst xy) + length ms \<le> unat b - unat a"
    using dissect_shrinks [OF assms(1,2), of ms "fst xy" "snd xy"] by (metis prod.collapse)
  then show ?thesis using assms(3) by linarith
qed simp

end

interpretation bisect: bisector Bisect
proof
  show "\<exists>m. Bisect a b = Inr m \<and> unat a < unat m \<and> unat m < unat b" if "unat a + 2 \<le> unat b" for a b
    using Bisect_point [OF that] by blast
qed (rule Bisect_error)

text \<open>On an aligned interval whose length is a power of two the bisection point is the middle.\<close>

lemma Bisect_aligned:
  assumes a: "unat a = c * 2 ^ Suc k" and b: "unat b = unat a + 2 ^ Suc k"
  shows "\<exists>m. Bisect a b = Inr m \<and> unat m = unat a + 2 ^ k"
proof -
  have "unat a + 2 \<le> unat b" using b one_le_power [of "2::nat" k] by simp
  from Bisect_point [OF this] obtain m j where m: "Bisect a b = Inr m" "unat a < unat m" "unat m < unat b"
    "2 ^ j dvd unat m" and unique: "\<And>x. unat a < x \<Longrightarrow> x < unat b \<Longrightarrow> 2 ^ j dvd x \<Longrightarrow> x = unat m" by blast
  have "j \<le> k"
  proof (rule ccontr)
    assume "\<not> j \<le> k"
    then have "(2::nat) ^ Suc k dvd 2 ^ j" by (intro le_imp_power_dvd) simp
    then obtain q where q: "unat m = q * 2 ^ Suc k" using m(4) by (metis dvdE dvd_trans mult.commute)
    have "c * 2 ^ Suc k < q * 2 ^ Suc k" "q * 2 ^ Suc k < (c + 1) * 2 ^ Suc k"
      using m(2,3) q a b by (simp_all add: algebra_simps)
    then have "c < q" "q < c + 1" by (simp_all only: mult_less_cancel2)
    then show False by simp
  qed
  then have "(2::nat) ^ j dvd 2 ^ k" "(2::nat) ^ j dvd 2 ^ Suc k" by (simp_all add: le_imp_power_dvd dvd_mult)
  then have "2 ^ j dvd unat a + 2 ^ k" unfolding a by (intro dvd_add dvd_mult)
  then have "unat a + 2 ^ k = unat m" using b by (intro unique) simp_all
  with m(1) show ?thesis by auto
qed

lemma dissect_aligned:
  assumes "unat a = c * 2 ^ length ms" "unat b = unat a + 2 ^ length ms"
  shows "\<exists>x y. dissect Bisect ms a b = Inr (x, y) \<and> unat y = unat x + 1 \<and> unat a \<le> unat x \<and> unat y \<le> unat b"
  using assms
proof (induction ms arbitrary: a b c)
  case (Cons up ms)
  from Cons.prems obtain m where m: "Bisect a b = Inr m" "unat m = unat a + 2 ^ length ms"
    using Bisect_aligned [of a c "length ms" b] by auto
  have a: "unat a = (2 * c) * 2 ^ length ms" and m': "unat m = (2 * c + 1) * 2 ^ length ms"
    and b: "unat b = unat m + 2 ^ length ms"
    using Cons.prems m(2) by (simp_all add: algebra_simps)
  show ?case
  proof (cases up)
    case True
    with Cons.IH [OF m' b] m show ?thesis by auto
  next
    case False
    with Cons.IH [OF a m(2)] m b show ?thesis by auto
  qed
qed auto

subsection \<open>Properties\<close>

text \<open>
  C13. Between a start height and an end height at least two apart, \<^verbatim>\<open>Bisect\<close> returns a height strictly
  between them, and it is the most aligned one: some power of two divides it and no other height
  strictly between them.
\<close>

theorem Bisect_most_aligned:
  assumes "unat pre + 2 \<le> unat post"
  shows "\<exists>m b. Bisect pre post = Inr m \<and> pre < m \<and> m < post \<and> 2 ^ b dvd unat m \<and>
    (\<forall>x. pre < x \<and> x < post \<and> 2 ^ b dvd unat x \<longrightarrow> x = m)"
proof -
  from Bisect_point [OF assms] obtain m b where "Bisect pre post = Inr m" "unat pre < unat m"
    "unat m < unat post" "2 ^ b dvd unat m"
    and "\<forall>k. unat pre < k \<and> k < unat post \<and> 2 ^ b dvd k \<longrightarrow> k = unat m" by blast
  then show ?thesis unfolding word_less_nat_alt word_unat_eq_iff by blast
qed

theorem Bisect_most_aligned_witness:
  "\<exists>m b. Bisect 3 13 = Inr m \<and> 3 < m \<and> m < 13 \<and> 2 ^ b dvd unat m \<and>
    (\<forall>x. 3 < x \<and> x < 13 \<and> 2 ^ b dvd unat x \<longrightarrow> x = m)"
  by (rule Bisect_most_aligned) simp

text \<open>
  C14. An interval of length \<open>2 ^ k\<close> that starts at a multiple of its length, as every level of a challenge
  does, is cut down to a single step by exactly \<open>k\<close> bisections, whichever child is followed each time.
\<close>

theorem Bisect_reaches_one_step:
  assumes "2 ^ k dvd unat a" "unat b = unat a + 2 ^ k" "length moves = k"
  shows "\<exists>x y. dissect Bisect moves a b = Inr (x, y) \<and> y = x + 1 \<and> a \<le> x \<and> y \<le> b"
proof -
  from assms(1) obtain c where "unat a = c * 2 ^ length moves" by (metis assms(3) dvdE mult.commute)
  then obtain x y where xy: "dissect Bisect moves a b = Inr (x, y)"
    "unat y = unat x + 1" "unat a \<le> unat x" "unat y \<le> unat b"
    using dissect_aligned [of a c moves b] assms(2,3) by blast
  moreover have "unat (x + 1) = unat x + 1"
    using xy(2) unat_lt64 [of y] by (simp add: unat_word_ariths)
  ultimately have "y = x + 1" "a \<le> x" "y \<le> b" by (simp_all add: word_le_nat_alt word_unat_eq_iff)
  with xy(1) show ?thesis by blast
qed

theorem Bisect_reaches_one_step_witness:
  "\<exists>x y. dissect Bisect [True, False, True] 8 16 = Inr (x, y) \<and> y = x + 1 \<and> 8 \<le> x \<and> y \<le> 16"
  using Bisect_reaches_one_step [of 3 8 16 "[True, False, True]"] by simp

text \<open>
  However the children are chosen, an interval of length \<open>n\<close> admits fewer than \<open>n\<close> successive bisections:
  the \<open>n\<close>-th one returns an error.
\<close>

theorem Bisect_bounded:
  assumes "a < b" "unat b + 1 < 2 ^ 64" "unat b - unat a \<le> length moves"
  shows "\<exists>e. dissect Bisect moves a b = Inl e"
  using assms by (intro bisect.dissect_bounded) (auto simp: word_less_nat_alt)

theorem Bisect_bounded_witness: "\<exists>e. dissect Bisect [True, False, False] 4 7 = Inl e"
  by (rule Bisect_bounded) simp_all

end
