(* ===== verification/Merkle_Spec.thy ===== *)
theory Merkle_Spec
  imports Bold_Prelude
begin

text \<open>
  The abstract specification of the Merkle accumulator: what the expansion, the complete subtrees
  and the root of a list of nodes are, written level by level and independent of the code's
  loops. The hash function is a parameter: \<open>keccak [a, b]\<close> stands for
  \<^verbatim>\<open>crypto.Keccak256Hash(a.Bytes(), b.Bytes())\<close>, a function of a third-party package. The type of
  hashes is a type variable with a zero, the value of \<^verbatim>\<open>common.Hash{}\<close>.
\<close>

subsection \<open>What is assumed of the hash function\<close>

definition never_zero :: "('h::zero list \<Rightarrow> 'h) \<Rightarrow> bool" where
  "never_zero keccak \<longleftrightarrow> (\<forall>xs. keccak xs \<noteq> 0)"

definition collision_free :: "('h list \<Rightarrow> 'h) \<Rightarrow> bool" where
  "collision_free keccak \<longleftrightarrow> inj keccak"

lemma never_zeroD [simp]: "never_zero keccak \<Longrightarrow> keccak xs \<noteq> 0"
  by (simp add: never_zero_def)

lemma collision_freeD: "collision_free keccak \<Longrightarrow> keccak xs = keccak ys \<longleftrightarrow> xs = ys"
  by (auto simp: collision_free_def inj_def)

subsection \<open>Levels of nodes\<close>

text \<open>The parents of the complete pairs of a level; a last node without sibling is left out.\<close>

fun pair_up :: "('h list \<Rightarrow> 'h) \<Rightarrow> 'h list \<Rightarrow> 'h list" where
  "pair_up keccak (x # y # zs) = keccak [x, y] # pair_up keccak zs"
| "pair_up keccak _ = []"

text \<open>The same with a last node without sibling paired with the zero hash.\<close>

fun pad_up :: "('h::zero list \<Rightarrow> 'h) \<Rightarrow> 'h list \<Rightarrow> 'h list" where
  "pad_up keccak (x # y # zs) = keccak [x, y] # pad_up keccak zs"
| "pad_up keccak [x] = [keccak [x, 0]]"
| "pad_up keccak [] = []"

lemma length_pair_up [simp]: "length (pair_up keccak xs) = length xs div 2"
  by (induction keccak xs rule: pair_up.induct) auto

lemma length_pad_up [simp]: "length (pad_up keccak xs) = (length xs + 1) div 2"
  by (induction keccak xs rule: pad_up.induct) auto

subsection \<open>Expansion, complete subtrees and root\<close>

text \<open>
  Entry \<open>i\<close> of the expansion is the root of the complete subtree of \<open>2 ^ i\<close> nodes that the binary
  representation of the number of nodes calls for, and zero where there is none.
\<close>

function expansion :: "('h::zero list \<Rightarrow> 'h) \<Rightarrow> 'h list \<Rightarrow> 'h list" where
  "expansion keccak xs =
     (if xs = [] then []
      else (if odd (length xs) then last xs else 0) # expansion keccak (pair_up keccak xs))"
  by pat_completeness auto
termination
  by (relation "measure (\<lambda>(keccak, xs). length xs)") (auto simp: div_less_dividend)

declare expansion.simps [simp del]

text \<open>The root of a complete subtree over \<open>2 ^ l\<close> nodes.\<close>

definition subtree_root :: "('h list \<Rightarrow> 'h) \<Rightarrow> nat \<Rightarrow> 'h list \<Rightarrow> 'h" where
  "subtree_root keccak l xs = hd ((pair_up keccak ^^ l) xs)"

text \<open>The root of a whole tree: levels are padded with the zero hash until one node is left.\<close>

function merkle_root :: "('h::zero list \<Rightarrow> 'h) \<Rightarrow> 'h list \<Rightarrow> 'h" where
  "merkle_root keccak xs =
     (if length xs \<le> 1 then (case xs of [] \<Rightarrow> 0 | x # _ \<Rightarrow> x)
      else merkle_root keccak (pad_up keccak xs))"
  by pat_completeness auto
termination
  by (relation "measure (\<lambda>(keccak, xs). length xs)") auto

declare merkle_root.simps [simp del]

text \<open>The number of nodes an expansion stands for.\<close>

fun tree_size :: "'h::zero list \<Rightarrow> nat" where
  "tree_size [] = 0"
| "tree_size (m # ms) = of_bool (m \<noteq> 0) + 2 * tree_size ms"

text \<open>Adding a complete subtree at the level of the first entry, with carries.\<close>

fun carry :: "('h::zero list \<Rightarrow> 'h) \<Rightarrow> 'h \<Rightarrow> 'h list \<Rightarrow> 'h list" where
  "carry keccak a [] = [a]"
| "carry keccak a (m # ms) = (if m = 0 then a # ms else 0 # carry keccak (keccak [m, a]) ms)"

subsection \<open>Nodes are not zero\<close>

lemma pair_up_nonzero [simp]: "never_zero keccak \<Longrightarrow> 0 \<notin> set (pair_up keccak xs)"
  by (induction keccak xs rule: pair_up.induct) (auto dest: sym)

lemma pad_up_nonzero [simp]: "never_zero keccak \<Longrightarrow> 0 \<notin> set (pad_up keccak xs)"
  by (induction keccak xs rule: pad_up.induct) (auto dest: sym)

lemma pair_up_pow_nonzero:
  "never_zero keccak \<Longrightarrow> 0 \<notin> set xs \<Longrightarrow> 0 \<notin> set ((pair_up keccak ^^ l) xs)"
  by (cases l) auto

lemma pair_up_append: "even (length xs) \<Longrightarrow> pair_up keccak (xs @ zs) = pair_up keccak xs @ pair_up keccak zs"
  by (induction keccak xs rule: pair_up.induct) auto

lemma pair_up_snoc_odd:
  "odd (length xs) \<Longrightarrow> pair_up keccak (xs @ [a]) = pair_up keccak xs @ [keccak [last xs, a]]"
  by (induction keccak xs rule: pair_up.induct) auto

lemma pair_up_snoc_even: "even (length xs) \<Longrightarrow> pair_up keccak (xs @ [a]) = pair_up keccak xs"
  by (simp add: pair_up_append)

lemma length_pair_up_pow [simp]: "length ((pair_up keccak ^^ l) xs) = length xs div 2 ^ l"
  by (induction l) (auto simp: div_mult2_eq mult.commute [of 2])

lemma pair_up_pow_append:
  "2 ^ l dvd length xs \<Longrightarrow>
   (pair_up keccak ^^ l) (xs @ zs) = (pair_up keccak ^^ l) xs @ (pair_up keccak ^^ l) zs"
proof (induction l)
  case (Suc l)
  then have "2 ^ l dvd length xs" by (meson dvd_trans le_imp_power_dvd lessI less_imp_le)
  moreover have "even (length xs div 2 ^ l)"
    using Suc.prems by (auto simp: dvd_def)
  ultimately show ?case using Suc.IH by (simp add: pair_up_append)
qed simp

lemma pair_up_pow_Nil [simp]: "(pair_up keccak ^^ l) [] = []"
  by (induction l) auto

lemma subtree_root_single:
  "length xs = 2 ^ l \<Longrightarrow> (pair_up keccak ^^ l) xs = [subtree_root keccak l xs]"
  using length_pair_up_pow [of l keccak xs]
  by (cases "(pair_up keccak ^^ l) xs") (auto simp: subtree_root_def)

lemma subtree_root_nonzero:
  assumes "never_zero keccak" "0 \<notin> set xs" "length xs = 2 ^ l"
  shows "subtree_root keccak l xs \<noteq> 0"
  using pair_up_pow_nonzero [OF assms(1,2), of l] subtree_root_single [OF assms(3), of keccak]
  by auto

subsection \<open>Expansions\<close>

lemma expansion_Nil [simp]: "expansion keccak [] = []"
  by (simp add: expansion.simps)

lemma expansion_eq_Nil [simp]: "expansion keccak xs = [] \<longleftrightarrow> xs = []"
  by (simp add: expansion.simps)

lemma expansion_nonempty:
  "xs \<noteq> [] \<Longrightarrow> expansion keccak xs =
     (if odd (length xs) then last xs else 0) # expansion keccak (pair_up keccak xs)"
  by (simp add: expansion.simps [of keccak xs])

lemma length_expansion: "length (expansion keccak xs) = bit_len (length xs)"
proof (induction keccak xs rule: expansion.induct)
  case (1 keccak xs)
  then show ?case by (cases "xs = []") (auto simp: expansion_nonempty bit_len_pos)
qed

lemma carry_expansion:
  assumes "never_zero keccak" "0 \<notin> set xs"
  shows "carry keccak a (expansion keccak xs) = expansion keccak (xs @ [a])"
  using assms
proof (induction keccak xs arbitrary: a rule: expansion.induct)
  case (1 keccak xs)
  show ?case
  proof (cases "xs = []")
    case True
    then show ?thesis by (simp add: expansion.simps)
  next
    case False
    then have "last xs \<noteq> 0" using "1.prems" by (metis last_in_set)
    with False 1 show ?thesis
      by (auto simp: expansion_nonempty pair_up_snoc_odd pair_up_snoc_even)
  qed
qed

lemma expansion_at_level:
  assumes "2 ^ l dvd length xs" "xs \<noteq> []"
  shows "expansion keccak xs = replicate l 0 @ expansion keccak ((pair_up keccak ^^ l) xs)"
  using assms
proof (induction l arbitrary: xs)
  case (Suc l)
  then have "2 ^ l dvd length (pair_up keccak xs)" "even (length xs)"
    by (auto simp: dvd_def)
  moreover have "pair_up keccak xs \<noteq> []"
    using Suc.prems by (cases xs rule: remdups_adj.cases) auto
  ultimately show ?case
    using Suc.IH [of "pair_up keccak xs"] Suc.prems(2)
    by (simp add: expansion_nonempty funpow_swap1)
qed simp

lemma expansion_append_subtree:
  assumes k: "never_zero keccak" and xs: "0 \<notin> set xs" "2 ^ l dvd length xs" and zs: "length zs = 2 ^ l"
  shows "expansion keccak (xs @ zs) =
     replicate l 0 @ carry keccak (subtree_root keccak l zs) (expansion keccak ((pair_up keccak ^^ l) xs))"
proof -
  have "expansion keccak (xs @ zs) = replicate l 0 @ expansion keccak ((pair_up keccak ^^ l) (xs @ zs))"
    using xs zs by (intro expansion_at_level) auto
  also have "(pair_up keccak ^^ l) (xs @ zs) = (pair_up keccak ^^ l) xs @ [subtree_root keccak l zs]"
    using xs zs by (simp add: pair_up_pow_append subtree_root_single)
  finally show ?thesis using k xs by (simp add: carry_expansion pair_up_pow_nonzero)
qed

lemma expansion_single [simp]: "expansion keccak [x] = [x]"
  by (simp add: expansion.simps [of keccak "[x]"])

lemma merkle_root_short [simp]: "merkle_root keccak [] = 0" "merkle_root keccak [x] = x"
  by (simp_all add: merkle_root.simps)

lemma merkle_root_step: "2 \<le> length xs \<Longrightarrow> merkle_root keccak xs = merkle_root keccak (pad_up keccak xs)"
  by (simp add: merkle_root.simps [of keccak xs])

lemma tree_size_expansion:
  assumes "never_zero keccak" "0 \<notin> set xs"
  shows "tree_size (expansion keccak xs) = length xs"
  using assms
proof (induction keccak xs rule: expansion.induct)
  case (1 keccak xs)
  show ?case
  proof (cases "xs = []")
    case False
    then have "last xs \<noteq> 0" using "1.prems" by (metis last_in_set)
    with False 1 show ?thesis by (auto simp: expansion_nonempty)
  qed simp
qed

end
