(* ===== verification/Sym_Hash.thy ===== *)
theory Sym_Hash
  imports Merkle_Spec
begin

text \<open>
  A symbolic hash function: a hash is the zero hash, an atom, or the hash of a list of hashes. It
  satisfies what the development assumes of Keccak, so the hypotheses on the hash function can be
  met together; the examples are computed with it.
\<close>

datatype sym = Zero | Atom nat | Kec "sym list"

instantiation sym :: zero
begin

definition zero_sym :: sym where
  "zero_sym = Zero"

instance ..

end

lemma Kec_never_zero [simp]: "never_zero Kec"
  by (simp add: never_zero_def zero_sym_def)

lemma Kec_collision_free [simp]: "collision_free Kec"
  by (simp add: collision_free_def inj_def)

lemma sym_zero_simps [simp]: "Atom n \<noteq> 0" "Kec xs \<noteq> 0" "0 \<noteq> Atom n" "0 \<noteq> Kec xs"
  by (simp_all add: zero_sym_def)

end
