(* ===== verification/Merkle_Expansions.thy ===== *)
theory Merkle_Expansions
  imports Sym_Hash
begin

text \<open>
  The Merkle expansions of \<^verbatim>\<open>state-commitments/prefix-proofs\<close>: the root of an expansion, appending a
  complete subtree or a leaf, compaction, and the expansion of a list of leaves. The operations are
  shown to compute the expansion and the root of the specification in \<open>Merkle_Spec\<close>.

  A Go slice is a list; its length is a natural number (Go bounds it by \<open>2 ^ 63\<close>).
\<close>

subsection \<open>Bits\<close>

definition MAX_LEVEL :: nat where
  "MAX_LEVEL = 64"

definition LeastSignificantBit :: "uint64 \<Rightarrow> uint64 res" where
  "LeastSignificantBit x =
     (if x = 0 then Inl ErrCannotBeZero else Inr (of_nat (TrailingZeros64 x)))"

definition MostSignificantBit :: "uint64 \<Rightarrow> uint64 res" where
  "MostSignificantBit x =
     (if x = 0 then Inl ErrCannotBeZero else Inr (of_nat (63 - LeadingZeros64 x)))"

subsection \<open>Root and size\<close>

text \<open>
  The loop of \<^verbatim>\<open>Root\<close>. The list holds the entries from index \<open>i\<close> on, so \<^verbatim>\<open>i != len(me)-1\<close> is
  \<open>ms \<noteq> []\<close>.
\<close>

fun Root_loop :: "('h::zero list \<Rightarrow> 'h) \<Rightarrow> 'h \<Rightarrow> 'h list \<Rightarrow> 'h" where
  "Root_loop keccak accum [] = accum"
| "Root_loop keccak accum (val # ms) =
     Root_loop keccak
       (if accum = 0 then
          (if val \<noteq> 0 then (if ms \<noteq> [] then keccak [val, 0] else val) else accum)
        else if val \<noteq> 0 then keccak [val, accum]
        else keccak [accum, 0]) ms"

definition Root :: "('h::zero list \<Rightarrow> 'h) \<Rightarrow> 'h list \<Rightarrow> 'h res" where
  "Root keccak me =
     (if length me > MAX_LEVEL then Inl ErrExpansionTooLarge
      else if length me = 0 then Inl ErrRootForEmpty
      else Inr (Root_loop keccak 0 me))"

text \<open>
  \<^verbatim>\<open>uint64(math.Pow(2, float64(i)))\<close> is exact for \<open>i < 64\<close>; the callers have bounded the length by
  64 before.
\<close>

fun TreeSize_loop :: "nat \<Rightarrow> uint64 \<Rightarrow> 'h::zero list \<Rightarrow> uint64" where
  "TreeSize_loop i acc [] = acc"
| "TreeSize_loop i acc (m # ms) = TreeSize_loop (Suc i) (if m \<noteq> 0 then acc + 2 ^ i else acc) ms"

definition TreeSize :: "'h::zero list \<Rightarrow> uint64" where
  "TreeSize me = TreeSize_loop 0 0 me"

subsection \<open>Appending\<close>

text \<open>
  The loop of \<^verbatim>\<open>AppendCompleteSubTree\<close> from level \<open>i\<close> on: the entries of \<^verbatim>\<open>next\<close> it writes (or leaves
  zero) and the hash left to propagate.
\<close>

fun Append_loop :: "('h::zero list \<Rightarrow> 'h) \<Rightarrow> nat \<Rightarrow> nat \<Rightarrow> 'h \<Rightarrow> 'h list \<Rightarrow> ('h list \<times> 'h) res" where
  "Append_loop keccak level i accumHash [] = Inr ([], accumHash)"
| "Append_loop keccak level i accumHash (m # ms) =
     (if i < level then
        (if m \<noteq> 0 then Inl ErrCannotAppendAboveLeastSignificant
         else bindR (Append_loop keccak level (Suc i) accumHash ms) (\<lambda>(next, accum). Inr (0 # next, accum)))
      else if accumHash = 0 then
        bindR (Append_loop keccak level (Suc i) accumHash ms) (\<lambda>(next, accum). Inr (m # next, accum))
      else if m = 0 then
        bindR (Append_loop keccak level (Suc i) 0 ms) (\<lambda>(next, accum). Inr (accumHash # next, accum))
      else
        bindR (Append_loop keccak level (Suc i) (keccak [m, accumHash]) ms)
          (\<lambda>(next, accum). Inr (0 # next, accum)))"

definition AppendCompleteSubTree ::
    "('h::zero list \<Rightarrow> 'h) \<Rightarrow> 'h list \<Rightarrow> uint64 \<Rightarrow> 'h \<Rightarrow> 'h list res" where
  "AppendCompleteSubTree keccak me level subtreeRoot =
     (if unat level \<ge> MAX_LEVEL then Inl ErrLevelTooHigh
      else if subtreeRoot = 0 then Inl ErrCannotAppendEmpty
      else if length me > MAX_LEVEL then Inl ErrExpansionTooLarge
      else if length me = 0 then Inr ((replicate (unat level + 1) 0)[unat level := subtreeRoot])
      else if unat level \<ge> length me then Inl ErrLevelTooHigh
      else bindR (Append_loop keccak (unat level) 0 subtreeRoot me) (\<lambda>(next, accumHash).
        let next' = (if accumHash \<noteq> 0 then next @ [accumHash] else next)
        in if length next' \<ge> MAX_LEVEL + 1 then Inl ErrLevelTooHigh else Inr next'))"

definition AppendLeaf :: "('h::zero list \<Rightarrow> 'h) \<Rightarrow> 'h list \<Rightarrow> 'h \<Rightarrow> 'h list res" where
  "AppendLeaf keccak me leaf = AppendCompleteSubTree keccak me 0 (keccak [leaf])"

subsection \<open>Expansions\<close>

definition NewEmptyMerkleExpansion :: "'h list" where
  "NewEmptyMerkleExpansion = []"

fun Compact_loop :: "nat \<Rightarrow> 'h::zero list \<Rightarrow> uint64 \<Rightarrow> 'h list \<Rightarrow> 'h list \<times> uint64" where
  "Compact_loop level cmp sz [] = (cmp, sz)"
| "Compact_loop level cmp sz (h # hs) =
     (if h \<noteq> 0 then Compact_loop (Suc level) (cmp @ [h]) (sz + push_bit level 1) hs
      else Compact_loop (Suc level) cmp sz hs)"

definition Compact :: "'h::zero list \<Rightarrow> 'h list \<times> uint64" where
  "Compact me = Compact_loop 0 [] 0 me"

text \<open>
  The loop of \<^verbatim>\<open>MerkleExpansionFromCompact\<close>; \<open>None\<close> stands for a run that does not end. Reading
  \<^verbatim>\<open>comp[0]\<close> of an empty slice panics.
\<close>

partial_function (option) FromCompact_loop ::
    "'h::zero list \<Rightarrow> uint64 \<Rightarrow> uint64 \<Rightarrow> uint64 \<Rightarrow> 'h list \<Rightarrow> ('h list \<times> uint64) res option" where
  "FromCompact_loop me numRead i sz cmp =
     (if i \<le> sz then
        (if i AND sz \<noteq> 0 then
           (case cmp of
              [] \<Rightarrow> Some (Inl GoPanic)
            | c # cmp' \<Rightarrow> FromCompact_loop (me @ [c]) (numRead + 1) (push_bit 1 i) sz cmp')
         else FromCompact_loop (me @ [0]) numRead (push_bit 1 i) sz cmp)
      else Some (Inr (me, numRead)))"

definition MerkleExpansionFromCompact ::
    "'h::zero list \<Rightarrow> uint64 \<Rightarrow> ('h list \<times> uint64) res option" where
  "MerkleExpansionFromCompact cmp sz = FromCompact_loop [] 0 1 sz cmp"

fun ExpansionFromLeaves_loop :: "('h::zero list \<Rightarrow> 'h) \<Rightarrow> 'h list \<Rightarrow> 'h list \<Rightarrow> 'h list res" where
  "ExpansionFromLeaves_loop keccak ret [] = Inr ret"
| "ExpansionFromLeaves_loop keccak ret (leaf # leaves) =
     bindR (AppendLeaf keccak ret leaf) (\<lambda>appended. ExpansionFromLeaves_loop keccak appended leaves)"

definition ExpansionFromLeaves :: "('h::zero list \<Rightarrow> 'h) \<Rightarrow> 'h list \<Rightarrow> 'h list res" where
  "ExpansionFromLeaves keccak leaves =
     ExpansionFromLeaves_loop keccak NewEmptyMerkleExpansion leaves"

definition RootFetcherFromExpansion :: "('h::zero list \<Rightarrow> 'h) \<Rightarrow> 'h list \<Rightarrow> uint64 \<Rightarrow> 'h res" where
  "RootFetcherFromExpansion keccak leaves upTo =
     bindR (slice_to leaves upTo) (\<lambda>ls. bindR (ExpansionFromLeaves keccak ls) (Root keccak))"

subsection \<open>Appending computes the expansion of the longer list\<close>

lemma Append_loop_done: "level \<le> i \<Longrightarrow> Append_loop keccak level i 0 ms = Inr (ms, 0)"
  by (induction ms arbitrary: i) auto

lemma Append_loop_carry:
  assumes "never_zero keccak" "level \<le> i" "a \<noteq> 0"
  obtains nx a' where "Append_loop keccak level i a ms = Inr (nx, a')"
    "(if a' \<noteq> 0 then nx @ [a'] else nx) = carry keccak a ms"
  using assms(2,3)
proof (induction ms arbitrary: i a thesis)
  case (Cons m ms)
  show ?case
  proof (cases "m = 0")
    case True
    with Cons.prems show ?thesis by (auto simp: Append_loop_done)
  next
    case False
    from Cons.IH [of "Suc i" "keccak [m, a]"] obtain nx a'
      where "Append_loop keccak level (Suc i) (keccak [m, a]) ms = Inr (nx, a')"
        "(if a' \<noteq> 0 then nx @ [a'] else nx) = carry keccak (keccak [m, a]) ms"
      using Cons.prems assms(1) by auto
    with False Cons.prems show ?thesis by (auto split: if_splits)
  qed
qed auto

lemma Append_loop_level:
  assumes "never_zero keccak" "a \<noteq> 0" "level = i + l"
  obtains nx a' where "Append_loop keccak level i a (replicate l 0 @ ms) = Inr (nx, a')"
    "(if a' \<noteq> 0 then nx @ [a'] else nx) = replicate l 0 @ carry keccak a ms"
  using assms(3)
proof (induction l arbitrary: i thesis)
  case 0
  then show ?case using Append_loop_carry [OF assms(1) _ assms(2), of level i ms] by auto
next
  case (Suc l)
  from Suc.IH [of "Suc i"] obtain nx a'
    where "Append_loop keccak level (Suc i) a (replicate l 0 @ ms) = Inr (nx, a')"
      "(if a' \<noteq> 0 then nx @ [a'] else nx) = replicate l 0 @ carry keccak a ms"
    using Suc.prems by auto
  with Suc.prems show ?case by (auto split: if_splits)
qed

lemma replicate_update_last: "(replicate (l + 1) 0)[l := r] = replicate l 0 @ [r]"
  by (induction l) auto

text \<open>Appending at level \<open>l\<close> to an expansion whose first \<open>l\<close> entries are zero.\<close>

lemma AppendCompleteSubTree_carry:
  assumes "never_zero keccak" "r \<noteq> 0" "l < 64" "ms \<noteq> []"
    "length (replicate l 0 @ carry keccak r ms) \<le> 64"
  shows "AppendCompleteSubTree keccak (replicate l 0 @ ms) (of_nat l) r
       = Inr (replicate l 0 @ carry keccak r ms)"
proof -
  have "length ms \<le> length (carry keccak r ms)" by (induction keccak r ms rule: carry.induct) auto
  moreover have "unat (of_nat l :: uint64) = l"
    using assms(3) by (simp add: unat_of_nat64)
  moreover obtain nx a' where "Append_loop keccak l 0 r (replicate l 0 @ ms) = Inr (nx, a')"
    "(if a' \<noteq> 0 then nx @ [a'] else nx) = replicate l 0 @ carry keccak r ms"
    using Append_loop_level [of keccak r l 0 l ms] assms by auto
  ultimately show ?thesis
    using assms by (simp add: AppendCompleteSubTree_def MAX_LEVEL_def)
qed

lemma AppendCompleteSubTree_expansion:
  assumes k: "never_zero keccak" and xs: "0 \<notin> set xs" "2 ^ l dvd length xs"
    and zs: "0 \<notin> set zs" "length zs = 2 ^ l" and len: "length xs + 2 ^ l < 2 ^ 64"
  shows "AppendCompleteSubTree keccak (expansion keccak xs) (of_nat l) (subtree_root keccak l zs)
       = Inr (expansion keccak (xs @ zs))"
proof -
  let ?r = "subtree_root keccak l zs"
  have r: "?r \<noteq> 0" using subtree_root_nonzero k zs by blast
  have "(2::nat) ^ l < 2 ^ 64" using len by linarith
  then have l: "l < 64" by (simp only: power_strict_increasing_iff)
  then have ul: "unat (of_nat l :: uint64) = l" by (simp add: unat_of_nat64)
  note app = expansion_append_subtree [OF k xs zs(2)]
  show ?thesis
  proof (cases "xs = []")
    case True
    with app r l ul show ?thesis
      by (simp add: AppendCompleteSubTree_def MAX_LEVEL_def replicate_update_last [simplified])
  next
    case False
    then have "0 < length ((pair_up keccak ^^ l) xs)"
      using xs(2) by (simp add: div_greater_zero_iff dvd_imp_le)
    then have "(pair_up keccak ^^ l) xs \<noteq> []" by (simp only: length_greater_0_conv not_False_eq_True)
    moreover have "length (expansion keccak (xs @ zs)) \<le> 64"
      using len zs unfolding length_expansion bit_len_less_iff by simp
    ultimately show ?thesis
      using AppendCompleteSubTree_carry [OF k r l, of "expansion keccak ((pair_up keccak ^^ l) xs)"]
        app expansion_at_level [OF xs(2) False] by simp
  qed
qed

lemma AppendLeaf_expansion:
  assumes "never_zero keccak" "0 \<notin> set xs" "length xs + 1 < 2 ^ 64"
  shows "AppendLeaf keccak (expansion keccak xs) leaf = Inr (expansion keccak (xs @ [keccak [leaf]]))"
  using AppendCompleteSubTree_expansion [of keccak xs 0 "[keccak [leaf]]"] assms
  by (auto simp: AppendLeaf_def subtree_root_def dest: sym)

lemma ExpansionFromLeaves_loop_expansion:
  assumes "never_zero keccak" "0 \<notin> set xs" "length xs + length leaves < 2 ^ 64"
  shows "ExpansionFromLeaves_loop keccak (expansion keccak xs) leaves
       = Inr (expansion keccak (xs @ map (\<lambda>l. keccak [l]) leaves))"
  using assms(2,3)
proof (induction leaves arbitrary: xs)
  case (Cons l leaves)
  have "0 \<notin> set (xs @ [keccak [l]])" using Cons.prems assms(1) by (auto dest: sym)
  from Cons.IH [OF this] Cons.prems assms(1) show ?case
    by (simp add: AppendLeaf_expansion)
qed simp

lemma ExpansionFromLeaves_expansion:
  assumes "never_zero keccak" "length leaves < 2 ^ 64"
  shows "ExpansionFromLeaves keccak leaves = Inr (expansion keccak (map (\<lambda>l. keccak [l]) leaves))"
  using ExpansionFromLeaves_loop_expansion [of keccak "[]" leaves] assms
  by (simp add: ExpansionFromLeaves_def NewEmptyMerkleExpansion_def)

lemma leaf_hashes_nonzero [simp]: "never_zero keccak \<Longrightarrow> 0 \<notin> (\<lambda>l. keccak [l]) ` A"
  by (auto dest: sym)

subsection \<open>The root\<close>

text \<open>Padding a level of nodes whose expansion is known; \<open>accum\<close> is the padded last node.\<close>

lemma pad_up_even: "even (length xs) \<Longrightarrow> pad_up keccak xs = pair_up keccak xs"
  by (induction keccak xs rule: pad_up.induct) auto

lemma pad_up_snoc:
  "pad_up keccak (xs @ [a]) =
     (if even (length xs) then pair_up keccak xs @ [keccak [a, 0]]
      else pair_up keccak xs @ [keccak [last xs, a]])"
  by (induction keccak xs rule: pad_up.induct) auto

lemma Root_loop_accum:
  assumes "never_zero keccak" "0 \<notin> set xs" "a \<noteq> 0"
  shows "Root_loop keccak a (expansion keccak xs) = merkle_root keccak (xs @ [a])"
  using assms
proof (induction keccak xs arbitrary: a rule: expansion.induct)
  case (1 keccak xs)
  show ?case
  proof (cases "xs = []")
    case True
    then show ?thesis by simp
  next
    case False
    then have "last xs \<noteq> 0" using "1.prems" by (metis last_in_set)
    with False 1 show ?thesis
      by (simp add: expansion_nonempty merkle_root_step [of "xs @ [a]"] pad_up_snoc Suc_le_eq)
  qed
qed

lemma Root_loop_expansion:
  assumes "never_zero keccak" "0 \<notin> set xs"
  shows "Root_loop keccak 0 (expansion keccak xs) = merkle_root keccak xs"
  using assms
proof (induction keccak xs rule: expansion.induct)
  case (1 keccak xs)
  show ?case
  proof (cases "xs = [] \<or> even (length xs)")
    case True
    then have "xs = [] \<or> 2 \<le> length xs \<and> even (length xs)" by (cases xs rule: remdups_adj.cases) auto
    with 1 show ?thesis
      by (cases "xs = []") (auto simp: expansion_nonempty merkle_root_step [of xs] pad_up_even)
  next
    case False
    define ys where "ys = butlast xs"
    have xs: "xs = ys @ [last xs]" using False by (simp add: ys_def)
    have "last xs \<noteq> 0" using False "1.prems" by (metis last_in_set)
    have ev: "even (length ys)" using False by (simp add: ys_def)
    then have up: "pair_up keccak xs = pair_up keccak ys"
      by (subst xs) (rule pair_up_snoc_even)
    show ?thesis
    proof (cases "ys = []")
      case True
      with xs obtain x where "xs = [x]" by auto
      then show ?thesis by simp
    next
      case ne: False
      then have "pair_up keccak xs \<noteq> []" using ev unfolding up
        by (cases ys rule: remdups_adj.cases) auto
      moreover have "merkle_root keccak xs = merkle_root keccak (pair_up keccak ys @ [keccak [last xs, 0]])"
        using ne ev by (subst xs, subst merkle_root_step) (simp_all add: pad_up_snoc Suc_le_eq)
      ultimately show ?thesis
        using False \<open>last xs \<noteq> 0\<close> "1.prems"
        by (simp add: expansion_nonempty [of xs] Root_loop_accum up)
    qed
  qed
qed

lemma Root_expansion:
  assumes "never_zero keccak" "0 \<notin> set xs" "xs \<noteq> []" "length xs < 2 ^ 64"
  shows "Root keccak (expansion keccak xs) = Inr (merkle_root keccak xs)"
proof -
  have "length (expansion keccak xs) \<le> 64"
    using assms(4) unfolding length_expansion bit_len_less_iff .
  with assms show ?thesis by (simp add: Root_def MAX_LEVEL_def Root_loop_expansion)
qed

lemma merkle_root_complete:
  "length xs = 2 ^ l \<Longrightarrow> merkle_root keccak xs = subtree_root keccak l xs"
proof (induction l arbitrary: xs)
  case 0
  then show ?case by (cases xs) (auto simp: subtree_root_def)
next
  case (Suc l)
  have "1 \<le> (2::nat) ^ l" by simp
  with Suc.prems have "2 \<le> length xs" by simp
  with Suc show ?case
    by (simp add: merkle_root_step [of xs] pad_up_even subtree_root_def funpow_swap1)
qed

lemma RootFetcherFromExpansion_complete:
  assumes "never_zero keccak" "l < 64" "2 ^ l \<le> length leaves"
  shows "RootFetcherFromExpansion keccak leaves (push_bit l 1)
       = Inr (subtree_root keccak l (map (\<lambda>x. keccak [x]) (take (2 ^ l) leaves)))"
proof -
  let ?zs = "map (\<lambda>x. keccak [x]) (take (2 ^ l) leaves)"
  have l: "(2::nat) ^ l < 2 ^ 64" using assms(2) by (simp only: power_strict_increasing_iff)
  have "?zs \<noteq> []" using assms(3) by (cases leaves) auto
  with assms l have "Root keccak (expansion keccak ?zs) = Inr (subtree_root keccak l ?zs)"
    by (subst Root_expansion) (auto simp: merkle_root_complete)
  with assms l show ?thesis
    unfolding RootFetcherFromExpansion_def slice_to_def unat_shift1 [OF assms(2)]
    by (simp add: ExpansionFromLeaves_expansion)
qed

subsection \<open>Sizes\<close>

lemma TreeSize_loop_tree_size:
  "i + length ms \<le> 64 \<Longrightarrow> TreeSize_loop i s ms = s + of_nat (2 ^ i * tree_size ms)"
  by (induction ms arbitrary: i s) (auto simp: algebra_simps)

lemma tree_size_less: "tree_size ms < 2 ^ length ms"
  by (induction ms) auto

lemma TreeSize_tree_size: "length me \<le> 64 \<Longrightarrow> unat (TreeSize me) = tree_size me"
proof -
  assume len: "length me \<le> 64"
  then have "(2::nat) ^ length me \<le> 2 ^ 64" by (simp only: power_increasing)
  with len show ?thesis
    using tree_size_less [of me] by (simp add: TreeSize_def TreeSize_loop_tree_size unat_of_nat64)
qed

subsection \<open>Compaction\<close>

lemma Compact_loop_filter:
  "Compact_loop i cmp sz ms = (cmp @ filter (\<lambda>h. h \<noteq> 0) ms, sz + of_nat (2 ^ i * tree_size ms))"
  by (induction ms arbitrary: i cmp sz) (auto simp: algebra_simps)

lemma Compact_filter: "Compact me = (filter (\<lambda>h. h \<noteq> 0) me, of_nat (tree_size me))"
  by (simp add: Compact_def Compact_loop_filter)

lemma tree_size_pos: "ms \<noteq> [] \<Longrightarrow> last ms \<noteq> 0 \<Longrightarrow> 0 < tree_size ms"
  by (induction ms) (auto split: if_splits)

lemma shift1_and_eq_0: "push_bit j 1 AND sz = (0 :: uint64) \<longleftrightarrow> \<not> bit sz j"
proof
  assume "push_bit j 1 AND sz = 0"
  then have "\<not> bit (push_bit j 1 AND sz) j" by simp
  then show "\<not> bit sz j" using bit_imp_le_length [of sz j] by (auto simp: bit_simps)
qed (auto intro!: bit_word_eqI simp: bit_simps)

lemma FromCompact_loop_reads:
  assumes "j + length ms \<le> 63" "unat sz div 2 ^ j = tree_size ms" "ms \<noteq> [] \<longrightarrow> last ms \<noteq> 0"
  shows "FromCompact_loop me n (push_bit j 1) sz (filter (\<lambda>h. h \<noteq> 0) ms @ rest)
       = Some (Inr (me @ ms, n + of_nat (length (filter (\<lambda>h. h \<noteq> 0) ms))))"
  using assms
proof (induction ms arbitrary: j me n)
  case Nil
  then have "unat sz < 2 ^ j" by (simp add: div_eq_0_iff)
  then have "\<not> push_bit j 1 \<le> sz"
    using Nil by (simp add: word_le_nat_alt unat_shift1 del: push_bit_of_1)
  then show ?case by (simp add: FromCompact_loop.simps)
next
  case (Cons m ms)
  have "0 < unat sz div 2 ^ j" using Cons.prems tree_size_pos [of "m # ms"] by simp
  then have le: "push_bit j 1 \<le> sz"
    using Cons.prems(1) by (simp add: word_le_nat_alt unat_shift1 div_greater_zero_iff del: push_bit_of_1)
  have b: "bit sz j \<longleftrightarrow> m \<noteq> 0"
    using Cons.prems(2) by (simp add: bit_unat64)
  have nxt: "push_bit 1 (push_bit j 1) = (push_bit (Suc j) 1 :: uint64)" by simp
  have "unat sz div 2 ^ Suc j = tree_size ms"
    using Cons.prems(2) by (simp only: power_Suc2 div_mult2_eq) simp
  moreover have "ms \<noteq> [] \<longrightarrow> last ms \<noteq> 0" using Cons.prems(3) by auto
  ultimately have "FromCompact_loop me n (push_bit 1 (push_bit j 1)) sz (filter (\<lambda>h. h \<noteq> 0) ms @ rest)
      = Some (Inr (me @ ms, n + of_nat (length (filter (\<lambda>h. h \<noteq> 0) ms))))" for me n
    unfolding nxt using Cons.prems(1) by (intro Cons.IH) auto
  moreover have "push_bit j 1 AND sz \<noteq> 0 \<longleftrightarrow> m \<noteq> 0" using b shift1_and_eq_0 by simp
  moreover define i :: uint64 where "i = push_bit j 1"
  ultimately show ?case using le unfolding i_def [symmetric]
    by (subst FromCompact_loop.simps) (auto simp: algebra_simps)
qed

lemma Compact_reads:
  assumes "me \<noteq> []" "last me \<noteq> 0" "length me \<le> 63"
  shows "MerkleExpansionFromCompact (fst (Compact me) @ rest) (snd (Compact me))
    = Some (Inr (me, of_nat (length (fst (Compact me)))))"
proof -
  have "(2::nat) ^ length me \<le> 2 ^ 63" using assms(3) by (simp only: power_increasing)
  then have "unat (of_nat (tree_size me) :: uint64) = tree_size me"
    using tree_size_less [of me] by (intro unat_of_nat64) simp
  then show ?thesis
    using FromCompact_loop_reads [of 0 me "of_nat (tree_size me)" "[]" 0 rest] assms
    by (simp add: MerkleExpansionFromCompact_def Compact_filter)
qed

text \<open>For sizes from \<open>2 ^ 63\<close> on the loop variable is shifted to zero and the loop never ends.\<close>

lemma shift1_le_large: "2 ^ 63 \<le> unat sz \<Longrightarrow> push_bit j 1 \<le> (sz :: uint64)"
proof (cases "j < 64")
  case True
  assume "2 ^ 63 \<le> unat sz"
  moreover have "(2::nat) ^ j \<le> 2 ^ 63" using True by (intro power_increasing) auto
  ultimately show ?thesis using True by (simp add: word_le_nat_alt unat_shift1 del: push_bit_of_1)
next
  case False
  then have "push_bit j 1 = (0 :: uint64)" by (intro bit_word_eqI) (simp add: bit_simps)
  then show ?thesis by (simp del: push_bit_of_1)
qed

lemma FromCompact_loop_diverges:
  assumes "FromCompact_loop me n i sz cmp = Some r"
  shows "2 ^ 63 \<le> unat sz \<longrightarrow> (\<exists>j. i = push_bit j 1) \<longrightarrow> (\<exists>e. r = Inl e)"
  using assms
proof (rule FromCompact_loop.raw_induct
    [where P = "\<lambda>me n i sz cmp r. 2 ^ 63 \<le> unat sz \<longrightarrow> (\<exists>j. i = push_bit j 1) \<longrightarrow> (\<exists>e. r = Inl e)", rotated],
    intro impI)
  fix loop me n and i sz :: uint64 and cmp :: "'a list" and r :: "('a list \<times> uint64) res"
  assume IH: "\<And>me n i sz cmp r. loop me n i sz cmp = Some r \<Longrightarrow>
      2 ^ 63 \<le> unat sz \<longrightarrow> (\<exists>j. i = push_bit j 1) \<longrightarrow> (\<exists>e. r = Inl e)"
    and body: "(if i \<le> sz then
        (if i AND sz \<noteq> 0 then
           (case cmp of [] \<Rightarrow> Some (Inl GoPanic)
            | c # cmp' \<Rightarrow> loop (me @ [c]) (n + 1) (push_bit 1 i) sz cmp')
         else loop (me @ [0]) n (push_bit 1 i) sz cmp)
      else Some (Inr (me, n))) = Some r"
    and big: "2 ^ 63 \<le> unat sz" and "\<exists>j. i = push_bit j 1"
  then obtain j where "i = push_bit j 1" by blast
  then have i: "i \<le> sz" "\<exists>j. push_bit 1 i = push_bit j 1"
    using shift1_le_large [OF big, of j] by (simp, intro exI [of _ "Suc j"], simp)
  with body IH big show "\<exists>e. r = Inl e" by (fastforce split: if_splits list.splits)
qed

subsection \<open>Properties\<close>

text \<open>
  Appending the root of a complete subtree of \<open>2 ^ l\<close> nodes to the expansion of nodes whose number is a
  multiple of \<open>2 ^ l\<close> gives the expansion of all the nodes: \<^verbatim>\<open>AppendCompleteSubTree\<close> is binary addition
  of one subtree, and no guard of it fails.
\<close>

theorem AppendCompleteSubTree_correct:
  assumes "never_zero keccak" "0 \<notin> set xs" "0 \<notin> set zs" "2 ^ l dvd length xs" "length zs = 2 ^ l"
    "length xs + 2 ^ l < 2 ^ 64"
  shows "AppendCompleteSubTree keccak (expansion keccak xs) (of_nat l) (merkle_root keccak zs)
    = Inr (expansion keccak (xs @ zs))"
  using assms by (simp add: AppendCompleteSubTree_expansion merkle_root_complete)

theorem AppendCompleteSubTree_correct_witness:
  "AppendCompleteSubTree Kec (expansion Kec [Atom 1, Atom 2]) (of_nat 1) (merkle_root Kec [Atom 3, Atom 4])
    = Inr (expansion Kec [Atom 1, Atom 2, Atom 3, Atom 4])"
  using AppendCompleteSubTree_correct [of Kec "[Atom 1, Atom 2]" "[Atom 3, Atom 4]" 1] by simp

text \<open>
  C12. For any nonempty list of leaves, \<^verbatim>\<open>ExpansionFromLeaves\<close> followed by \<^verbatim>\<open>Root\<close> succeeds and gives the
  root of the Merkle tree over the hashed leaves in which every level is padded with the zero hash.
\<close>

theorem ExpansionFromLeaves_Root_correct:
  assumes "never_zero keccak" "leaves \<noteq> []" "length leaves < 2 ^ 64"
  shows "bindR (ExpansionFromLeaves keccak leaves) (Root keccak)
    = Inr (merkle_root keccak (map (\<lambda>l. keccak [l]) leaves))"
  using assms by (simp add: ExpansionFromLeaves_expansion Root_expansion)

theorem ExpansionFromLeaves_Root_correct_witness:
  "bindR (ExpansionFromLeaves Kec [Atom 1, Atom 2, Atom 3]) (Root Kec)
    = Inr (merkle_root Kec (map (\<lambda>l. Kec [l]) [Atom 1, Atom 2, Atom 3]))"
  by (rule ExpansionFromLeaves_Root_correct) simp_all

text \<open>
  An expansion without a trailing zero entry and of at most 63 levels is read back by
  \<^verbatim>\<open>MerkleExpansionFromCompact\<close> from what \<^verbatim>\<open>Compact\<close> returns, also when further hashes follow it, and the
  number of hashes read is the number of hashes \<^verbatim>\<open>Compact\<close> returned.
\<close>

theorem Compact_round_trip:
  assumes "me \<noteq> []" "last me \<noteq> 0" "length me \<le> 63"
  shows "MerkleExpansionFromCompact (fst (Compact me) @ rest) (snd (Compact me))
    = Some (Inr (me, of_nat (length (fst (Compact me)))))"
  using assms by (rule Compact_reads)

theorem Compact_round_trip_witness:
  "MerkleExpansionFromCompact (fst (Compact [Atom 1, 0, Atom 2]) @ [Atom 3]) (snd (Compact [Atom 1, 0, Atom 2]))
    = Some (Inr ([Atom 1, 0, Atom 2], of_nat (length (fst (Compact [Atom 1, 0, Atom 2])))))"
  by (rule Compact_round_trip) simp_all

text \<open>
  For a size of \<open>2 ^ 63\<close> or more, \<^verbatim>\<open>MerkleExpansionFromCompact\<close> never returns an expansion: its loop
  variable is shifted out to zero and stays below the size, so the loop ends at most with a panic.
\<close>

theorem MerkleExpansionFromCompact_large:
  assumes "2 ^ 63 \<le> unat sz"
  shows "MerkleExpansionFromCompact cmp sz \<noteq> Some (Inr r)"
proof
  assume "MerkleExpansionFromCompact cmp sz = Some (Inr r)"
  then have "FromCompact_loop [] 0 (push_bit 0 1) sz cmp = Some (Inr r)"
    by (simp add: MerkleExpansionFromCompact_def)
  with FromCompact_loop_diverges [OF this] assms show False by blast
qed

theorem MerkleExpansionFromCompact_large_witness:
  "MerkleExpansionFromCompact [Atom 1, Atom 2] 0xC000000000000000 \<noteq> Some (Inr ([Atom 1, Atom 2], 2))"
  by (rule MerkleExpansionFromCompact_large) simp

end
