(* ===== verification/Prefix_Proofs.thy ===== *)
theory Prefix_Proofs
  imports Merkle_Expansions
begin

text \<open>
  Prefix proofs of \<^verbatim>\<open>state-commitments/prefix-proofs/prefix_proofs.go\<close>: the level of the next subtree
  to append, the generator and the verifier. Generated proofs are accepted, and an accepted proof
  commits to a prefix of the leaves of the post-root.
\<close>

subsection \<open>The level of the next append\<close>

definition MaximumAppendBetween :: "uint64 \<Rightarrow> uint64 \<Rightarrow> uint64 res" where
  "MaximumAppendBetween startSize endSize =
     (if startSize \<ge> endSize then Inl ErrStartNotLessThanEnd
      else bindR (MostSignificantBit (startSize XOR endSize)) (\<lambda>msb.
        let mask = push_bit (unat (msb + 1)) 1 - 1;
            y = startSize AND mask;
            z = endSize AND mask
        in if y \<noteq> 0 then LeastSignificantBit y
           else if z \<noteq> 0 then MostSignificantBit z
           else Inl ErrCannotBeZero))"

text \<open>
  What the first differing bit of two sizes gives: the branch that the code takes, and the level it
  computes there, which is the highest one that can be appended.
\<close>

lemma MostSignificantBit_bit_len:
  assumes "0 < unat x"
  shows "MostSignificantBit x = Inr (of_nat (bit_len (unat x) - 1))"
proof -
  have "x \<noteq> 0" using assms by auto
  then show ?thesis by (simp add: MostSignificantBit_def LeadingZeros64_nonzero)
qed

lemma LeastSignificantBit_low_zeros:
  "0 < unat x \<Longrightarrow> LeastSignificantBit x = Inr (of_nat (low_zeros (unat x)))"
  by (auto simp: LeastSignificantBit_def TrailingZeros64_def)

definition append_level :: "nat \<Rightarrow> nat \<Rightarrow> nat \<Rightarrow> bool" where
  "append_level s e l \<longleftrightarrow> 2 ^ l dvd s \<and> s + 2 ^ l \<le> e \<and> (\<forall>k. 2 ^ k dvd s \<and> s + 2 ^ k \<le> e \<longrightarrow> k \<le> l)"

lemma append_level_low:
  assumes s: "s = c * 2 ^ Suc m + r" and e: "e = c * 2 ^ Suc m + 2 ^ m + t"
    and "0 < r" "r < 2 ^ m" "t < 2 ^ m"
  shows "append_level s e (low_zeros r)"
proof -
  let ?l = "low_zeros r"
  have dr: "2 ^ ?l dvd r" by (rule low_zeros_dvd)
  with \<open>0 < r\<close> have "2 ^ ?l \<le> r" by (rule dvd_imp_le [rotated])
  then have "(2::nat) ^ ?l < 2 ^ m" using assms(4) by linarith
  then have lm: "?l < m" by (simp only: power_strict_increasing_iff)
  then have dm: "(2::nat) ^ ?l dvd 2 ^ m" by (simp add: le_imp_power_dvd)
  have "2 ^ ?l dvd 2 ^ m - r" using dm dr by (rule dvd_diff_nat)
  moreover have "0 < 2 ^ m - r" using assms(4) by simp
  ultimately have "2 ^ ?l \<le> 2 ^ m - r" by (rule dvd_imp_le)
  then have le: "s + 2 ^ ?l \<le> e" using assms by linarith
  have "2 ^ ?l dvd c * 2 ^ Suc m" using lm by (simp add: le_imp_power_dvd dvd_mult)
  then have ds: "2 ^ ?l dvd s" using dr s by simp
  have "k \<le> ?l" if k: "2 ^ k dvd s" "s + 2 ^ k \<le> e" for k
  proof -
    have "(2::nat) ^ k < 2 ^ Suc m" using k(2) assms by simp
    then have "k \<le> m" by (simp only: power_strict_increasing_iff less_Suc_eq_le)
    then have "2 ^ k dvd c * 2 ^ Suc m" by (simp add: le_imp_power_dvd dvd_mult)
    then have "2 ^ k dvd r" using k(1) s by (simp add: dvd_add_right_iff)
    then show ?thesis using \<open>0 < r\<close> by (intro low_zeros_max)
  qed
  with ds le show ?thesis by (simp add: append_level_def)
qed

lemma append_level_high:
  assumes s: "s = c * 2 ^ Suc m" and e: "e = c * 2 ^ Suc m + 2 ^ m + t" and "t < 2 ^ m"
  shows "append_level s e m"
proof -
  have "k \<le> m" if k: "s + 2 ^ k \<le> e" for k
  proof -
    have "(2::nat) ^ k < 2 ^ Suc m" using k assms by simp
    then show ?thesis by (simp only: power_strict_increasing_iff less_Suc_eq_le)
  qed
  then show ?thesis using assms by (simp add: append_level_def)
qed

lemma append_level_unique: "append_level s e l \<Longrightarrow> append_level s e l' \<Longrightarrow> l = l'"
  by (auto simp: append_level_def intro: antisym)

lemma append_level_less: "append_level s e l \<Longrightarrow> s < e"
proof -
  assume "append_level s e l"
  then have "s + 2 ^ l \<le> e" by (simp add: append_level_def)
  moreover have "0 < (2::nat) ^ l" by simp
  ultimately show "s < e" by linarith
qed

lemma append_level_lt: "append_level (unat (s::uint64)) (unat (e::uint64)) l \<Longrightarrow> l < 64"
proof -
  assume "append_level (unat s) (unat e) l"
  then have "(2::nat) ^ l < 2 ^ 64" using unat_lt64 [of e] by (simp add: append_level_def)
  then show "l < 64" by (simp only: power_strict_increasing_iff)
qed

lemma first_difference:
  fixes s e :: uint64
  assumes "s < e"
  obtains m l where "MostSignificantBit (s XOR e) = Inr (of_nat m)" "append_level (unat s) (unat e) l"
    "let mask = push_bit (unat (of_nat m + 1 :: uint64)) 1 - 1 in
       (if s AND mask \<noteq> 0 then LeastSignificantBit (s AND mask) = Inr (of_nat l)
        else e AND mask \<noteq> 0 \<and> MostSignificantBit (e AND mask) = Inr (of_nat l))"
proof -
  define m where "m = bit_len (unat s XOR unat e) - 1"
  have lt: "unat s < unat e" using assms by (simp add: word_less_nat_alt)
  obtain c r t where s: "unat s = c * 2 ^ Suc m + r" and e: "unat e = c * 2 ^ Suc m + 2 ^ m + t"
    and rt: "r < 2 ^ m" "t < 2 ^ m"
    using highest_differing_bit [OF lt m_def] by blast
  have x: "unat (s XOR e) = unat s XOR unat e" by (simp add: unsigned_xor_eq)
  have "0 < unat (s XOR e)"
  proof (rule ccontr)
    assume "\<not> 0 < unat (s XOR e)"
    then have "s XOR e = 0" by (simp add: unat_eq_0)
    then have "s = e" by (auto simp: bit_eq_iff bit_simps intro!: bit_word_eqI)
    with assms show False by simp
  qed
  then have msb: "MostSignificantBit (s XOR e) = Inr (of_nat m)"
    using MostSignificantBit_bit_len x m_def by metis
  have "m \<le> 63" using bit_len_unat_le [of "s XOR e"] m_def x by simp
  then have sh: "unat (of_nat m + 1 :: uint64) = Suc m"
    using unat_of_nat64 [of "Suc m"] by (simp add: add.commute)
  let ?mask = "push_bit (Suc m) 1 - 1 :: uint64"
  have y: "unat (s AND ?mask) = r" unfolding unat_and_low_mask s using rt by simp
  have e': "unat e = c * 2 ^ Suc m + (2 ^ m + t)" using e by simp
  have z: "unat (e AND ?mask) = 2 ^ m + t"
    unfolding unat_and_low_mask e' mod_mult_self3 using rt by simp
  have bl: "bit_len (2 ^ m + t) = Suc m" using rt by (intro bit_len_eqI) auto
  show ?thesis
  proof (cases "r = 0")
    case True
    have "s AND ?mask = 0" "0 < unat (e AND ?mask)" using y z True by (simp_all add: unat_eq_0)
    moreover from this have "MostSignificantBit (e AND ?mask) = Inr (of_nat m)"
      using z bl by (simp add: MostSignificantBit_bit_len)
    moreover have "append_level (unat s) (unat e) m"
      using True rt s e by (intro append_level_high) auto
    ultimately show ?thesis by (intro that [OF msb]) (auto simp: Let_def sh)
  next
    case False
    then have "0 < unat (s AND ?mask)" using y by simp
    moreover from this have "LeastSignificantBit (s AND ?mask) = Inr (of_nat (low_zeros r))"
      using y by (simp add: LeastSignificantBit_low_zeros)
    moreover have "append_level (unat s) (unat e) (low_zeros r)"
      using False by (intro append_level_low [OF s e _ rt]) simp
    ultimately show ?thesis by (intro that [OF msb]) (auto simp: Let_def sh)
  qed
qed

lemma MaximumAppendBetween_level:
  assumes "append_level (unat s) (unat e) l"
  shows "MaximumAppendBetween s e = Inr (of_nat l)"
proof -
  have "s < e" using append_level_less [OF assms] by (simp add: word_less_nat_alt)
  moreover from this obtain m l' where "MostSignificantBit (s XOR e) = Inr (of_nat m)"
    "append_level (unat s) (unat e) l'"
    "let mask = push_bit (unat (of_nat m + 1 :: uint64)) 1 - 1 in
       (if s AND mask \<noteq> 0 then LeastSignificantBit (s AND mask) = Inr (of_nat l')
        else e AND mask \<noteq> 0 \<and> MostSignificantBit (e AND mask) = Inr (of_nat l'))"
    by (rule first_difference)
  ultimately show ?thesis
    using append_level_unique [OF assms] by (auto simp: MaximumAppendBetween_def Let_def split: if_splits)
qed

lemma append_level_exists:
  assumes "s < (e :: uint64)"
  obtains l where "append_level (unat s) (unat e) l"
  using assms by (rule first_difference)

lemma append_level_step:
  fixes s e :: uint64
  assumes "append_level (unat s) (unat e) l"
  shows "unat (s + push_bit l 1) = unat s + 2 ^ l" "unat s + 2 ^ l \<le> unat e"
proof -
  show le: "unat s + 2 ^ l \<le> unat e" using assms by (simp add: append_level_def)
  show "unat (s + push_bit l 1) = unat s + 2 ^ l"
    using le unat_lt64 [of e] unat_shift1 [OF append_level_lt [OF assms]]
    by (simp add: unat_word_ariths del: push_bit_of_1)
qed

subsection \<open>Generating a proof\<close>

text \<open>
  The loop of \<^verbatim>\<open>GeneratePrefixProof\<close>. The last case, in which the Go loop would go round without
  changing anything, never happens; this is part of the termination proof.
\<close>

function Generate_loop ::
    "('h list \<Rightarrow> uint64 \<Rightarrow> 'h res) \<Rightarrow> uint64 \<Rightarrow> uint64 \<Rightarrow> 'h list \<Rightarrow> 'h list \<Rightarrow> 'h list res" where
  "Generate_loop rootFetcher height postHeight leaves proof =
     (if height < postHeight then
        bindR (MostSignificantBit (height XOR postHeight)) (\<lambda>firstDiffBit.
          let mask = push_bit (unat (firstDiffBit + 1)) 1 - 1;
              yyy = height AND mask;
              zzz = postHeight AND mask
          in if yyy \<noteq> 0 then
               bindR (LeastSignificantBit yyy) (\<lambda>lowBit.
                 let numLeaves = push_bit (unat lowBit) 1 in
                 bindR (rootFetcher leaves numLeaves) (\<lambda>root.
                 bindR (slice_from leaves numLeaves) (\<lambda>leaves'.
                   Generate_loop rootFetcher (height + numLeaves) postHeight leaves' (proof @ [root]))))
             else if zzz \<noteq> 0 then
               bindR (MostSignificantBit zzz) (\<lambda>highBit.
                 let numLeaves = push_bit (unat highBit) 1 in
                 bindR (rootFetcher leaves numLeaves) (\<lambda>root.
                 bindR (slice_from leaves numLeaves) (\<lambda>leaves'.
                   Generate_loop rootFetcher (height + numLeaves) postHeight leaves' (proof @ [root]))))
             else Generate_loop rootFetcher height postHeight leaves proof)
      else Inr proof)"
  by pat_completeness auto

lemma Generate_step:
  fixes s e :: uint64
  assumes "s < e" "MostSignificantBit (s XOR e) = Inr b" "msk = push_bit (unat (b + 1)) 1 - 1"
  obtains l where "append_level (unat s) (unat e) l"
    "s AND msk \<noteq> 0 \<Longrightarrow> LeastSignificantBit (s AND msk) = Inr (of_nat l)"
    "s AND msk = 0 \<Longrightarrow> e AND msk \<noteq> 0 \<and> MostSignificantBit (e AND msk) = Inr (of_nat l)"
proof -
  obtain m l where "MostSignificantBit (s XOR e) = Inr (of_nat m)" "append_level (unat s) (unat e) l"
    "let mask = push_bit (unat (of_nat m + 1 :: uint64)) 1 - 1 in
       (if s AND mask \<noteq> 0 then LeastSignificantBit (s AND mask) = Inr (of_nat l)
        else e AND mask \<noteq> 0 \<and> MostSignificantBit (e AND mask) = Inr (of_nat l))"
    using assms(1) by (rule first_difference)
  with assms(2,3) show ?thesis by (intro that [of l]) (auto simp: Let_def)
qed

lemma append_level_measure:
  fixes s e :: uint64
  assumes "append_level (unat s) (unat e) l" "b = of_nat l"
  shows "unat e - unat (s + push_bit (unat (b :: uint64)) 1) < unat e - unat s"
proof -
  have b: "unat b = l" using assms append_level_lt [OF assms(1)] by (simp add: unat_of_nat64)
  have "0 < (2::nat) ^ l" by simp
  then show ?thesis using append_level_step [OF assms(1)] unfolding b by linarith
qed

termination Generate_loop
proof (relation "measure (\<lambda>(rootFetcher, height, postHeight, leaves, proof). unat postHeight - unat height)",
    goal_cases)
  case (2 rootFetcher height postHeight leaves pf msb msk y z low num root ls)
  then show ?case using Generate_step [of height postHeight msb msk] append_level_measure by fastforce
next
  case (3 rootFetcher height postHeight leaves pf msb msk y z high num root ls)
  then show ?case using Generate_step [of height postHeight msb msk] append_level_measure by fastforce
next
  case (4 rootFetcher height postHeight leaves pf msb msk y z)
  then show ?case using Generate_step [of height postHeight msb msk] by fastforce
qed simp

declare Generate_loop.simps [simp del]

definition GeneratePrefixProof ::
    "uint64 \<Rightarrow> 'h::zero list \<Rightarrow> 'h list \<Rightarrow> ('h list \<Rightarrow> uint64 \<Rightarrow> 'h res) \<Rightarrow> 'h list res" where
  "GeneratePrefixProof prefixHeight prefixExpansion leaves rootFetcher =
     (if prefixHeight = 0 then Inl ErrCannotBeZero
      else if length leaves = 0 then Inl ErrCannotBeZero
      else
        let height = prefixHeight;
            postHeight = height + of_nat (length leaves)
        in if prefixHeight \<ge> postHeight then Inl ErrStartNotLessThanEnd
           else let (proof, _) = Compact prefixExpansion
                in Generate_loop rootFetcher height postHeight leaves proof)"

subsection \<open>Verifying a proof\<close>

record 'h VerifyPrefixProofConfig =
  PreRoot :: 'h
  PreSize :: uint64
  PostRoot :: 'h
  PostSize :: uint64
  PreExpansion :: "'h list"
  PrefixProof :: "'h list"

text \<open>
  The loop of \<^verbatim>\<open>VerifyPrefixProof\<close>; it ends with the expansion it has built and the number of proof
  entries it has read. The index is a natural number: it counts entries of a slice.
\<close>

function Verify_loop ::
    "('h::zero list \<Rightarrow> 'h) \<Rightarrow> 'h list \<Rightarrow> uint64 \<Rightarrow> 'h list \<Rightarrow> uint64 \<Rightarrow> nat \<Rightarrow> ('h list \<times> nat) res" where
  "Verify_loop keccak prefixProof postSize exp sz proofIndex =
     (if sz < postSize then
        bindR (MaximumAppendBetween sz postSize) (\<lambda>level.
          if proofIndex \<ge> length prefixProof then Inl ErrIndexOutOfRange
          else bindR (AppendCompleteSubTree keccak exp level (prefixProof ! proofIndex)) (\<lambda>exp'.
            let numLeaves = push_bit (unat level) 1;
                sz' = sz + numLeaves
            in if sz' > postSize then Inl ErrSizeNotLeqPostSize
               else Verify_loop keccak prefixProof postSize exp' sz' (proofIndex + 1)))
      else Inr (exp, proofIndex))"
  by pat_completeness auto
termination Verify_loop
proof (relation "measure (\<lambda>(keccak, prefixProof, postSize, exp, sz, i). unat postSize - unat sz)",
    goal_cases)
  case (2 keccak prefixProof postSize exp sz i level exp' num sz')
  from 2(1) obtain l where l: "append_level (unat sz) (unat postSize) l" by (rule append_level_exists)
  with 2 have "level = of_nat l" by (simp add: MaximumAppendBetween_level)
  with l 2 show ?case using append_level_measure by (simp del: push_bit_of_1)
qed simp

declare Verify_loop.simps [simp del]

definition VerifyPrefixProof :: "('h::zero list \<Rightarrow> 'h) \<Rightarrow> 'h VerifyPrefixProofConfig \<Rightarrow> unit res" where
  "VerifyPrefixProof keccak cfg =
     (if PreSize cfg = 0 then Inl ErrCannotBeZero
      else bindR (Root keccak (PreExpansion cfg)) (\<lambda>root.
        if root \<noteq> PreRoot cfg then Inl ErrRootMismatch
        else if PreSize cfg \<noteq> TreeSize (PreExpansion cfg) then Inl ErrTreeSize
        else if PreSize cfg \<ge> PostSize cfg then Inl ErrStartNotLessThanEnd
        else bindR (Verify_loop keccak (PrefixProof cfg) (PostSize cfg) (PreExpansion cfg) (PreSize cfg) 0)
          (\<lambda>(exp, proofIndex).
            bindR (Root keccak exp) (\<lambda>gotRoot.
              if gotRoot \<noteq> PostRoot cfg then Inl ErrRootMismatch
              else if proofIndex \<noteq> length (PrefixProof cfg) then Inl ErrIncompleteProof
              else Inr ()))))"

subsection \<open>Properties\<close>

text \<open>
  \<^verbatim>\<open>MaximumAppendBetween\<close> returns the greatest level at which a complete subtree can be appended to a
  tree of \<open>startSize\<close> nodes, the level dividing the size, without going past \<open>endSize\<close>.
\<close>

theorem MaximumAppendBetween_greatest:
  assumes "startSize < endSize"
  shows "\<exists>l. MaximumAppendBetween startSize endSize = Inr l \<and> 2 ^ unat l dvd unat startSize \<and>
    unat startSize + 2 ^ unat l \<le> unat endSize \<and>
    (\<forall>k. 2 ^ k dvd unat startSize \<and> unat startSize + 2 ^ k \<le> unat endSize \<longrightarrow> k \<le> unat l)"
proof -
  obtain l where l: "append_level (unat startSize) (unat endSize) l"
    using assms by (rule append_level_exists)
  then have "unat (of_nat l :: uint64) = l" using append_level_lt [OF l] by (simp add: unat_of_nat64)
  with l MaximumAppendBetween_level [OF l] show ?thesis
    by (intro exI [of _ "of_nat l"]) (simp add: append_level_def)
qed

theorem MaximumAppendBetween_greatest_witness:
  "\<exists>l. MaximumAppendBetween 6 13 = Inr l \<and> 2 ^ unat l dvd unat (6 :: uint64) \<and>
    unat (6 :: uint64) + 2 ^ unat l \<le> unat (13 :: uint64) \<and>
    (\<forall>k. 2 ^ k dvd unat (6 :: uint64) \<and> unat (6 :: uint64) + 2 ^ k \<le> unat (13 :: uint64) \<longrightarrow> k \<le> unat l)"
  by (rule MaximumAppendBetween_greatest) simp

end
