(* ===== verification/Prefix_Correctness.thy ===== *)
theory Prefix_Correctness
  imports Prefix_Proofs
begin

text \<open>
  Completeness and soundness of prefix proofs: what \<^verbatim>\<open>GeneratePrefixProof\<close> returns is accepted by
  \<^verbatim>\<open>VerifyPrefixProof\<close>, and what \<^verbatim>\<open>VerifyPrefixProof\<close> accepts has the expansion of a prefix of the
  committed leaves as its pre-expansion.
\<close>

subsection \<open>Completeness\<close>

lemma Generate_loop_unfold:
  fixes h p :: uint64
  assumes l: "append_level (unat h) (unat p) l"
  shows "Generate_loop rf h p leaves pf =
     bindR (rf leaves (push_bit l 1)) (\<lambda>root. bindR (slice_from leaves (push_bit l 1)) (\<lambda>ls.
       Generate_loop rf (h + push_bit l 1) p ls (pf @ [root])))"
proof -
  have lt: "h < p" using append_level_less [OF l] by (simp add: word_less_nat_alt)
  have ul: "unat (of_nat l :: uint64) = l" using append_level_lt [OF l] by (simp add: unat_of_nat64)
  obtain m l' where "MostSignificantBit (h XOR p) = Inr (of_nat m)" "append_level (unat h) (unat p) l'"
    "let mask = push_bit (unat (of_nat m + 1 :: uint64)) 1 - 1 in
       (if h AND mask \<noteq> 0 then LeastSignificantBit (h AND mask) = Inr (of_nat l')
        else p AND mask \<noteq> 0 \<and> MostSignificantBit (p AND mask) = Inr (of_nat l'))"
    using lt by (rule first_difference)
  with append_level_unique [OF l] lt ul show ?thesis
    by (subst Generate_loop.simps) (auto simp: Let_def simp del: push_bit_of_1 split: if_splits)
qed

lemma Verify_loop_unfold:
  assumes l: "append_level (unat s) (unat e) l"
  shows "Verify_loop keccak pp e exp s i =
     (if i \<ge> length pp then Inl ErrIndexOutOfRange
      else bindR (AppendCompleteSubTree keccak exp (of_nat l) (pp ! i)) (\<lambda>exp'.
        Verify_loop keccak pp e exp' (s + push_bit l 1) (i + 1)))"
proof -
  have lt: "s < e" using append_level_less [OF l] by (simp add: word_less_nat_alt)
  have ul: "unat (of_nat l :: uint64) = l" using append_level_lt [OF l] by (simp add: unat_of_nat64)
  have "\<not> e < s + push_bit l 1"
    using append_level_step [OF l] by (simp add: word_less_nat_alt del: push_bit_of_1)
  with l lt ul show ?thesis
    by (subst Verify_loop.simps) (simp add: MaximumAppendBetween_level Let_def del: push_bit_of_1)
qed

lemma loops_complete:
  assumes k: "never_zero keccak" and "0 \<notin> set xs" "length xs = unat s" "length xs + length leaves = unat e"
  shows "\<exists>rs. Generate_loop (RootFetcherFromExpansion keccak) s e leaves pf = Inr (pf @ rs) \<and>
     (\<forall>pp i. drop i pp = rs \<and> i \<le> length pp \<longrightarrow>
        Verify_loop keccak pp e (expansion keccak xs) s i
          = Inr (expansion keccak (xs @ map (\<lambda>x. keccak [x]) leaves), length pp))"
  using assms(2-)
proof (induction "length leaves" arbitrary: leaves xs s pf rule: less_induct)
  case less
  show ?case
  proof (cases "leaves = []")
    case True
    then have "s = e" using less.prems by (simp add: word_unat_eq_iff)
    with True show ?thesis by (auto simp: Generate_loop.simps Verify_loop.simps)
  next
    case False
    then have "0 < length leaves" by simp
    then have "s < e" using less.prems unfolding word_less_nat_alt by linarith
    then obtain l where l: "append_level (unat s) (unat e) l" by (rule append_level_exists)
    note step = append_level_step [OF l] and l64 = append_level_lt [OF l]
    have fits: "2 ^ l \<le> length leaves" using step(2) less.prems by linarith
    let ?zs = "map (\<lambda>x. keccak [x]) (take (2 ^ l) leaves)" and ?rest = "drop (2 ^ l) leaves"
    let ?r = "subtree_root keccak l ?zs"
    have fetch: "RootFetcherFromExpansion keccak leaves (push_bit l 1) = Inr ?r"
      using k l64 fits by (rule RootFetcherFromExpansion_complete)
    have cut: "slice_from leaves (push_bit l 1) = Inr ?rest"
      using fits unfolding slice_from_def unat_shift1 [OF l64] by simp
    have "length xs + 2 ^ l < 2 ^ 64" using step(2) less.prems unat_lt64 [of e] by linarith
    then have app: "AppendCompleteSubTree keccak (expansion keccak xs) (of_nat l) ?r
        = Inr (expansion keccak (xs @ ?zs))"
      using k less.prems l fits
      by (intro AppendCompleteSubTree_expansion) (auto simp: append_level_def dest: sym)
    have "\<exists>rs. Generate_loop (RootFetcherFromExpansion keccak) (s + push_bit l 1) e ?rest (pf @ [?r])
          = Inr ((pf @ [?r]) @ rs) \<and>
        (\<forall>pp i. drop i pp = rs \<and> i \<le> length pp \<longrightarrow>
          Verify_loop keccak pp e (expansion keccak (xs @ ?zs)) (s + push_bit l 1) i
            = Inr (expansion keccak ((xs @ ?zs) @ map (\<lambda>x. keccak [x]) ?rest), length pp))"
      using fits step less.prems k False by (intro less.hyps) (auto simp del: push_bit_of_1)
    then obtain rs where
      g: "Generate_loop (RootFetcherFromExpansion keccak) (s + push_bit l 1) e ?rest (pf @ [?r])
          = Inr (pf @ ?r # rs)" and
      v: "\<And>pp i. drop i pp = rs \<Longrightarrow> i \<le> length pp \<Longrightarrow>
          Verify_loop keccak pp e (expansion keccak (xs @ ?zs)) (s + push_bit l 1) i
            = Inr (expansion keccak (xs @ map (\<lambda>x. keccak [x]) leaves), length pp)"
      by (auto simp flip: map_append simp del: push_bit_of_1)
    have "Verify_loop keccak pp e (expansion keccak xs) s i
        = Inr (expansion keccak (xs @ map (\<lambda>x. keccak [x]) leaves), length pp)"
      if i: "drop i pp = ?r # rs" for pp i
    proof -
      have lt: "i < length pp" using i by (metis drop_all leI list.discI)
      then have "pp ! i = ?r" "drop (i + 1) pp = rs" using i by (auto simp: Cons_nth_drop_Suc [symmetric])
      with lt app v [of "i + 1" pp] show ?thesis
        unfolding Verify_loop_unfold [OF l] by (simp del: push_bit_of_1)
    qed
    with g fetch cut show ?thesis
      unfolding Generate_loop_unfold [OF l]
      by (intro exI [of _ "?r # rs"]) (simp del: push_bit_of_1)
  qed
qed

lemma GeneratePrefixProof_complete:
  assumes k: "never_zero keccak" and ne: "pre \<noteq> []" "suf \<noteq> []" and len: "length pre + length suf < 2 ^ 63"
  defines "nodes \<equiv> map (\<lambda>x. keccak [x])"
  obtains rs where
    "GeneratePrefixProof (of_nat (length pre)) (expansion keccak (nodes pre)) suf
       (RootFetcherFromExpansion keccak) = Inr (fst (Compact (expansion keccak (nodes pre))) @ rs)"
    "VerifyPrefixProof keccak
       \<lparr>PreRoot = merkle_root keccak (nodes pre), PreSize = of_nat (length pre),
        PostRoot = merkle_root keccak (nodes (pre @ suf)), PostSize = of_nat (length (pre @ suf)),
        PreExpansion = expansion keccak (nodes pre), PrefixProof = rs\<rparr> = Inr ()"
proof -
  let ?s = "of_nat (length pre) :: uint64" and ?e = "of_nat (length (pre @ suf)) :: uint64"
  have s: "unat ?s = length pre" and e: "unat ?e = length pre + length suf"
    using len by (simp_all add: unat_of_nat64 del: of_nat_add flip: of_nat_add)
  have "?s < ?e" "?s \<noteq> 0" using ne s e by (auto simp: word_less_nat_alt simp flip: unat_eq_0)
  moreover have "0 \<notin> set (nodes pre)" "0 \<notin> set (nodes (pre @ suf))" using k by (auto simp: nodes_def dest: sym)
  moreover obtain rs where
    "Generate_loop (RootFetcherFromExpansion keccak) ?s ?e suf (fst (Compact (expansion keccak (nodes pre))))
       = Inr (fst (Compact (expansion keccak (nodes pre))) @ rs)"
    "Verify_loop keccak rs ?e (expansion keccak (nodes pre)) ?s 0
       = Inr (expansion keccak (nodes (pre @ suf)), length rs)"
    using loops_complete [OF k, of "nodes pre" ?s suf ?e "fst (Compact (expansion keccak (nodes pre)))"]
      s e calculation(3) by (auto simp: nodes_def)
  moreover have "length (expansion keccak (nodes pre)) \<le> 64"
    using len unfolding length_expansion bit_len_less_iff by (simp add: nodes_def)
  then have "?s = TreeSize (expansion keccak (nodes pre))"
    using s calculation(3) k by (simp add: word_unat_eq_iff TreeSize_tree_size tree_size_expansion nodes_def)
  ultimately show ?thesis
    using ne len k by (intro that [of rs])
      (auto simp: GeneratePrefixProof_def VerifyPrefixProof_def Let_def split_beta Root_expansion nodes_def)
qed

subsection \<open>Soundness\<close>

lemma Append_loop_zeros:
  "Append_loop keccak level i a me = Inr x \<Longrightarrow> level \<le> i + length me \<Longrightarrow>
   take (level - i) me = replicate (level - i) 0"
proof (induction keccak level i a me arbitrary: x rule: Append_loop.induct)
  case (2 keccak level i a m ms)
  show ?case
  proof (cases "i < level")
    case True
    with "2.prems" obtain y where "m = 0" "Append_loop keccak level (Suc i) a ms = Inr y"
      by (auto simp: bindR_eq_Inr split: if_splits)
    with "2.IH"(1) [OF True] "2.prems"(2) True have "take (level - Suc i) ms = replicate (level - Suc i) 0"
      by auto
    moreover have "level - i = Suc (level - Suc i)" using True by simp
    ultimately show ?thesis using \<open>m = 0\<close> by simp
  qed simp
qed simp

lemma AppendCompleteSubTree_success:
  assumes k: "never_zero keccak" and l: "l < 64" and me: "me \<noteq> []"
    and app: "AppendCompleteSubTree keccak me (of_nat l) r = Inr me'"
  obtains ms where "r \<noteq> 0" "me = replicate l 0 @ ms" "me' = replicate l 0 @ carry keccak r ms" "length me' \<le> 64"
proof -
  have ul: "unat (of_nat l :: uint64) = l" using l by (simp add: unat_of_nat64)
  from app me ul obtain nx a where r: "r \<noteq> 0" "l < length me"
    and loop: "Append_loop keccak l 0 r me = Inr (nx, a)"
    and me': "me' = (if a \<noteq> 0 then nx @ [a] else nx)" "length me' \<le> 64"
    by (auto simp: AppendCompleteSubTree_def MAX_LEVEL_def Let_def bindR_eq_Inr split: if_splits)
  define ms where "ms = drop l me"
  have "take l me = replicate l 0" using Append_loop_zeros [OF loop] r by simp
  then have me_eq: "me = replicate l 0 @ ms" unfolding ms_def by (metis append_take_drop_id)
  obtain nx' a' where "Append_loop keccak l 0 r me = Inr (nx', a')"
    "(if a' \<noteq> 0 then nx' @ [a'] else nx') = replicate l 0 @ carry keccak r ms"
    unfolding me_eq by (rule Append_loop_level [OF k r(1), of l 0 l ms]) simp
  with loop me'(1) have "me' = replicate l 0 @ carry keccak r ms" by auto
  from r(1) me_eq this me'(2) show ?thesis by (rule that)
qed

text \<open>Two expansions have the same zero entries.\<close>

definition same_shape :: "'h::zero list \<Rightarrow> 'h list \<Rightarrow> bool" where
  "same_shape xs ys \<longleftrightarrow> list_all2 (\<lambda>x y. x = 0 \<longleftrightarrow> y = 0) xs ys"

lemma same_shape_simps [simp]:
  "same_shape [] ys \<longleftrightarrow> ys = []" "same_shape xs [] \<longleftrightarrow> xs = []"
  "same_shape (x # xs) (y # ys) \<longleftrightarrow> (x = 0 \<longleftrightarrow> y = 0) \<and> same_shape xs ys"
  by (auto simp: same_shape_def)

lemma same_shape_lengthD: "same_shape xs ys \<Longrightarrow> length xs = length ys"
  by (simp add: same_shape_def list_all2_lengthD)

lemma same_shape_tree_size:
  "length xs = length ys \<Longrightarrow> tree_size xs = tree_size ys \<Longrightarrow> same_shape xs ys"
proof (induction xs ys rule: list_induct2)
  case (Cons x xs y ys)
  from Cons.prems have "(x = 0 \<longleftrightarrow> y = 0) \<and> tree_size xs = tree_size ys"
    by (cases "x = 0"; cases "y = 0"; simp; presburger)
  with Cons.IH show ?case by simp
qed simp

lemma carry_shape_length: "never_zero keccak \<Longrightarrow> same_shape ms ns \<Longrightarrow>
    length (carry keccak a ms) = length (carry keccak b ns)"
proof (induction ms arbitrary: a b ns)
  case (Cons m ms)
  then show ?case by (cases ns) (auto dest: same_shape_lengthD)
qed auto

lemma carry_inject:
  assumes "collision_free keccak" "same_shape ms ns" "carry keccak a ms = carry keccak b ns"
  shows "a = b \<and> ms = ns"
  using assms(2,3)
proof (induction ms arbitrary: a b ns)
  case (Cons m ms)
  then obtain n ns' where "ns = n # ns'" by (cases ns) auto
  with Cons.prems Cons.IH [of ns' "keccak [m, a]" "keccak [n, b]"] show ?case
    using collision_freeD [OF assms(1)] by (auto split: if_splits)
qed auto

lemma Root_loop_inject:
  assumes "collision_free keccak" "never_zero keccak" "same_shape ms ns" "a = 0 \<longleftrightarrow> b = 0"
    "Root_loop keccak a ms = Root_loop keccak b ns"
  shows "a = b \<and> ms = ns"
  using assms(3-)
proof (induction ms arbitrary: a b ns)
  case (Cons m ms)
  then obtain n ns' where ns: "ns = n # ns'" by (cases ns) auto
  then have shape: "m = 0 \<longleftrightarrow> n = 0" "same_shape ms ns'" "ms = [] \<longleftrightarrow> ns' = []"
    using Cons.prems(1) by auto
  define A where "A = (if a = 0 then (if m \<noteq> 0 then (if ms \<noteq> [] then keccak [m, 0] else m) else a)
    else if m \<noteq> 0 then keccak [m, a] else keccak [a, 0])"
  define B where "B = (if b = 0 then (if n \<noteq> 0 then (if ns' \<noteq> [] then keccak [n, 0] else n) else b)
    else if n \<noteq> 0 then keccak [n, b] else keccak [b, 0])"
  have "A = 0 \<longleftrightarrow> B = 0" using assms(2) Cons.prems(2) shape by (simp add: A_def B_def)
  moreover have "Root_loop keccak A ms = Root_loop keccak B ns'"
    using Cons.prems(3) by (simp add: ns A_def B_def)
  ultimately have "A = B" "ms = ns'" using Cons.IH shape(2) by blast+
  moreover have "m = n \<and> a = b"
    using \<open>A = B\<close> Cons.prems(2) shape
    by (cases "a = 0"; cases "m = 0") (simp_all add: A_def B_def collision_freeD [OF assms(1)] split: if_splits)
  ultimately show ?case by (simp add: ns)
qed auto

lemma tree_size_append_zeros [simp]: "tree_size (xs @ replicate j 0) = tree_size xs"
proof (induction xs)
  case Nil
  then show ?case by (induction j) auto
qed auto

lemma tree_size_carry: "never_zero keccak \<Longrightarrow> a \<noteq> 0 \<Longrightarrow> tree_size (carry keccak a ms) = Suc (tree_size ms)"
  by (induction keccak a ms rule: carry.induct) auto

lemma tree_size_zeros_append: "tree_size (replicate l 0 @ ms) = 2 ^ l * tree_size ms"
  by (induction l) auto

lemma carry_append_zeros:
  "\<exists>j'. carry keccak a (ms @ replicate j 0) = carry keccak a ms @ replicate j' 0"
proof (induction keccak a ms rule: carry.induct)
  case (1 keccak a)
  then show ?case by (cases j) auto
qed auto

lemma same_shape_padded:
  assumes "never_zero keccak" "0 \<notin> set xs" "tree_size ms = length xs"
  obtains i where "same_shape ms (expansion keccak xs @ replicate i 0)"
proof -
  have "length (expansion keccak xs) \<le> length ms"
    using tree_size_less [of ms] assms(3) unfolding length_expansion bit_len_less_iff by simp
  then have "same_shape ms (expansion keccak xs @ replicate (length ms - length (expansion keccak xs)) 0)"
    using assms by (intro same_shape_tree_size) (auto simp: tree_size_expansion)
  then show ?thesis by (rule that)
qed

lemma append_step_sound:
  assumes k: "never_zero keccak" "collision_free keccak" and q: "0 \<notin> set q" "s + 2 ^ l \<le> length q"
    and s: "2 ^ l dvd s" "0 < s"
    and exp: "exp = replicate l 0 @ ms" "tree_size exp = s"
    and app: "replicate l 0 @ carry keccak r ms = expansion keccak (take (s + 2 ^ l) q) @ replicate j 0"
  shows "\<exists>j. exp = expansion keccak (take s q) @ replicate j 0"
proof -
  let ?x = "take s q" and ?z = "take (2 ^ l) (drop s q)"
  let ?ns = "expansion keccak ((pair_up keccak ^^ l) ?x)" and ?r = "subtree_root keccak l ?z"
  have nz: "0 \<notin> set ?x" using q(1) by (meson in_set_takeD)
  have len: "length ?x = s" "length ?z = 2 ^ l" using q(2) by auto
  have "expansion keccak (?x @ ?z) = replicate l 0 @ carry keccak ?r ?ns"
    using k(1) nz s(1) len by (intro expansion_append_subtree) auto
  then have eq: "carry keccak r ms = carry keccak ?r ?ns @ replicate j 0"
    using app by (simp add: take_add)
  have "2 ^ l * tree_size ms = s" using exp tree_size_zeros_append [of l ms] by simp
  then have "tree_size ms = length ((pair_up keccak ^^ l) ?x)" using len(1) by (metis length_pair_up_pow
    nonzero_mult_div_cancel_left power_not_zero zero_neq_numeral)
  then obtain i where i: "same_shape ms (?ns @ replicate i 0)"
    by (rule same_shape_padded [OF k(1) pair_up_pow_nonzero [OF k(1) nz]])
  obtain j' where j': "carry keccak ?r (?ns @ replicate i 0) = carry keccak ?r ?ns @ replicate j' 0"
    using carry_append_zeros by blast
  have "length (carry keccak r ms) = length (carry keccak ?r (?ns @ replicate i 0))"
    using k(1) i by (rule carry_shape_length)
  then have "j = j'" using eq j' by simp
  then have "carry keccak r ms = carry keccak ?r (?ns @ replicate i 0)" using eq j' by simp
  with carry_inject [OF k(2) i] have "ms = ?ns @ replicate i 0" by blast
  moreover have "expansion keccak ?x = replicate l 0 @ ?ns"
    using s len by (intro expansion_at_level) auto
  ultimately show ?thesis using exp(1) by auto
qed

lemma Verify_loop_sound:
  assumes k: "never_zero keccak" "collision_free keccak"
    and "Verify_loop keccak pp e exp s i = Inr (expf, n)" "tree_size exp = unat s" "0 < s" "s \<le> e" "length exp \<le> 64"
  shows "tree_size expf = unat e \<and> length expf \<le> 64 \<and>
    (\<forall>q. length q = unat e \<longrightarrow> 0 \<notin> set q \<longrightarrow> (\<exists>j. expf = expansion keccak q @ replicate j 0) \<longrightarrow>
       (\<exists>j. exp = expansion keccak (take (unat s) q) @ replicate j 0))"
  using assms(3-)
proof (induction "unat e - unat s" arbitrary: exp s i rule: less_induct)
  case less
  show ?case
  proof (cases "s = e")
    case True
    with less.prems show ?thesis by (simp add: Verify_loop.simps)
  next
    case False
    then have "s < e" using less.prems(4) by simp
    then obtain l where l: "append_level (unat s) (unat e) l" by (rule append_level_exists)
    note step = append_level_step [OF l]
    let ?s = "s + push_bit l 1"
    obtain exp' where app: "AppendCompleteSubTree keccak exp (of_nat l) (pp ! i) = Inr exp'"
      and rest: "Verify_loop keccak pp e exp' ?s (i + 1) = Inr (expf, n)"
      using less.prems(1) unfolding Verify_loop_unfold [OF l]
      by (auto simp: bindR_eq_Inr simp del: push_bit_of_1 split: if_splits)
    have "exp \<noteq> []" using less.prems(2,3) by (auto simp: word_less_nat_alt)
    with k(1) append_level_lt [OF l] obtain ms where ms: "pp ! i \<noteq> 0" "exp = replicate l 0 @ ms"
      "exp' = replicate l 0 @ carry keccak (pp ! i) ms" "length exp' \<le> 64"
      using app by (rule AppendCompleteSubTree_success)
    have "tree_size exp' = unat ?s"
      using ms k(1) less.prems(2) step(1)
      by (simp add: tree_size_zeros_append tree_size_carry del: push_bit_of_1)
    moreover have "0 < ?s" "?s \<le> e"
      using step less.prems(3) by (simp_all add: word_less_nat_alt word_le_nat_alt del: push_bit_of_1)
    moreover have "unat e - unat ?s < unat e - unat s"
      using step append_level_less [OF l] zero_less_power [of "2::nat" l] by linarith
    ultimately have IH: "tree_size expf = unat e \<and> length expf \<le> 64 \<and>
        (\<forall>q. length q = unat e \<longrightarrow> 0 \<notin> set q \<longrightarrow> (\<exists>j. expf = expansion keccak q @ replicate j 0) \<longrightarrow>
           (\<exists>j. exp' = expansion keccak (take (unat ?s) q) @ replicate j 0))"
      using less.hyps rest ms(4) by blast
    have "2 ^ l dvd unat s" "0 < unat s" using l less.prems(3) by (auto simp: append_level_def word_less_nat_alt)
    then have "\<exists>j. exp = expansion keccak (take (unat s) q) @ replicate j 0"
      if "length q = unat e" "0 \<notin> set q" "exp' = expansion keccak (take (unat ?s) q) @ replicate j 0" for q j
      using append_step_sound [OF k that(2) _ _ _ ms(2) less.prems(2)] that step ms(3) by metis
    with IH show ?thesis by blast
  qed
qed

lemma Root_loop_trailing_zero:
  assumes "never_zero keccak" "a \<noteq> 0 \<or> 0 < tree_size ms"
  shows "\<exists>c. Root_loop keccak a (ms @ [0]) = keccak [c, 0]"
  using assms(2)
proof (induction ms arbitrary: a)
  case (Cons m ms)
  then show ?case using assms(1) by (cases "m = 0"; cases "a = 0") auto
qed auto

lemma merkle_root_top:
  assumes "never_zero keccak" "2 \<le> length xs" "0 \<notin> set xs"
  shows "\<exists>c d. merkle_root keccak xs = keccak [c, d] \<and> d \<noteq> 0"
  using assms(2,3)
proof (induction "length xs" arbitrary: xs rule: less_induct)
  case less
  show ?case
  proof (cases "length xs = 2")
    case True
    then obtain x y where "xs = [x, y]" by (auto simp: length_Suc_conv numeral_2_eq_2)
    with less.prems show ?thesis by (auto simp: merkle_root_step)
  next
    case False
    with less.prems have "2 \<le> length (pad_up keccak xs)" "length (pad_up keccak xs) < length xs" by simp_all
    with less.hyps assms(1) show ?thesis by (simp add: merkle_root_step [OF less.prems(1)])
  qed
qed

lemma Root_sound:
  assumes k: "never_zero keccak" "collision_free keccak" and q: "0 \<notin> set q" "2 \<le> length q"
    and ms: "tree_size ms = length q" "Root_loop keccak 0 ms = merkle_root keccak q"
  shows "ms = expansion keccak q"
proof -
  obtain i where i: "same_shape ms (expansion keccak q @ replicate i 0)"
    using k(1) q(1) ms(1) by (rule same_shape_padded)
  have "i = 0"
  proof (rule ccontr)
    assume "i \<noteq> 0"
    then obtain i' where "expansion keccak q @ replicate i 0 = (expansion keccak q @ replicate i' 0) @ [0]"
      by (cases i) (auto simp: replicate_append_same)
    with i obtain ns where ns: "ms = ns @ [0]"
      by (auto simp: same_shape_def list_all2_append2 list_all2_Cons2)
    have "0 < tree_size ns" using ms(1) q(2) tree_size_append_zeros [of ns 1] by (simp add: ns)
    then obtain c where "Root_loop keccak 0 ms = keccak [c, 0]"
      using Root_loop_trailing_zero [OF k(1)] unfolding ns by blast
    moreover obtain c' d where "merkle_root keccak q = keccak [c', d]" "d \<noteq> 0"
      using merkle_root_top [OF k(1) q(2,1)] by blast
    ultimately show False using ms(2) collision_freeD [OF k(2)] by simp
  qed
  then show ?thesis
    using Root_loop_inject [OF k(2,1), of ms "expansion keccak q" 0 0] i ms(2) Root_loop_expansion [OF k(1) q(1)]
    by simp
qed

lemma VerifyPrefixProof_sound:
  assumes k: "never_zero keccak" "collision_free keccak" and q: "0 \<notin> set q" "length q = unat (PostSize cfg)"
    and post: "PostRoot cfg = merkle_root keccak q" and ok: "VerifyPrefixProof keccak cfg = Inr ()"
  obtains j where "PreExpansion cfg = expansion keccak (take (unat (PreSize cfg)) q) @ replicate j 0"
    "Root keccak (PreExpansion cfg) = Inr (PreRoot cfg)" "PreSize cfg < PostSize cfg"
proof -
  from ok obtain exp n where pre: "0 < PreSize cfg" "PreSize cfg < PostSize cfg"
      "PreSize cfg = TreeSize (PreExpansion cfg)" "length (PreExpansion cfg) \<le> 64"
      "Root keccak (PreExpansion cfg) = Inr (PreRoot cfg)"
    and loop: "Verify_loop keccak (PrefixProof cfg) (PostSize cfg) (PreExpansion cfg) (PreSize cfg) 0 = Inr (exp, n)"
    and root: "Root keccak exp = Inr (PostRoot cfg)"
    by (auto simp: VerifyPrefixProof_def bindR_eq_Inr Root_def MAX_LEVEL_def word_gt_0 split: if_splits)
  then have inv: "tree_size (PreExpansion cfg) = unat (PreSize cfg)" by (simp add: TreeSize_tree_size)
  note sound = Verify_loop_sound [OF k loop inv pre(1) less_imp_le [OF pre(2)] pre(4)]
  have "2 \<le> length q" using pre(1,2) q(2) by (simp add: word_less_nat_alt)
  moreover have "Root_loop keccak 0 exp = merkle_root keccak q"
    using root post by (auto simp: Root_def split: if_splits)
  ultimately have "exp = expansion keccak q"
    using sound q by (intro Root_sound [OF k]) auto
  then have "exp = expansion keccak q @ replicate 0 0" by simp
  with sound q obtain j where "PreExpansion cfg = expansion keccak (take (unat (PreSize cfg)) q) @ replicate j 0"
    by blast
  then show ?thesis using pre(5,2) by (rule that)
qed

subsection \<open>Properties\<close>

lemma last_expansion_nonzero:
  assumes "never_zero keccak" "0 \<notin> set xs" "xs \<noteq> []"
  shows "last (expansion keccak xs) \<noteq> 0"
  using assms(2,3)
proof (induction "length xs" arbitrary: xs rule: less_induct)
  case less
  show ?case
  proof (cases "length xs = 1")
    case True
    then obtain x where "xs = [x]" by (auto simp: length_Suc_conv)
    with less.prems show ?thesis by simp
  next
    case False
    then have "pair_up keccak xs \<noteq> []" "length (pair_up keccak xs) < length xs"
      using less.prems(2) by (cases xs rule: remdups_adj.cases; simp)+
    with less assms(1) show ?thesis by (simp add: expansion_nonempty [of xs])
  qed
qed

lemma Compact_expansion_reads:
  assumes "never_zero keccak" "pre \<noteq> []" "length pre < 2 ^ 63"
  shows "\<exists>numRead. MerkleExpansionFromCompact
      (fst (Compact (expansion keccak (map (\<lambda>x. keccak [x]) pre))) @ rest) (of_nat (length pre))
      = Some (Inr (expansion keccak (map (\<lambda>x. keccak [x]) pre), numRead)) \<and>
    unat numRead = length (fst (Compact (expansion keccak (map (\<lambda>x. keccak [x]) pre))))"
proof -
  let ?e = "expansion keccak (map (\<lambda>x. keccak [x]) pre)"
  have nz: "0 \<notin> set (map (\<lambda>x. keccak [x]) pre)" "?e \<noteq> []" using assms(1,2) by auto
  have size: "snd (Compact ?e) = of_nat (length pre)"
    using tree_size_expansion [OF assms(1) nz(1)] by (simp add: Compact_filter)
  have len: "length ?e \<le> 63" using assms(3) unfolding length_expansion bit_len_less_iff by simp
  moreover have "length (fst (Compact ?e)) \<le> length ?e" by (simp add: Compact_filter)
  ultimately have "unat (of_nat (length (fst (Compact ?e))) :: uint64) = length (fst (Compact ?e))"
    by (intro unat_of_nat64) simp
  moreover have "MerkleExpansionFromCompact (fst (Compact ?e) @ rest) (snd (Compact ?e))
      = Some (Inr (?e, of_nat (length (fst (Compact ?e)))))"
    using nz last_expansion_nonzero [OF assms(1) nz(1)] assms(2) len by (intro Compact_reads) simp_all
  ultimately show ?thesis unfolding size by blast
qed

text \<open>
  C7. Completeness of prefix proofs: for a history cut into a nonempty prefix and a nonempty rest,
  \<^verbatim>\<open>GeneratePrefixProof\<close> succeeds, \<^verbatim>\<open>MerkleExpansionFromCompact\<close> reads the prefix expansion back from the
  front of the proof, and \<^verbatim>\<open>VerifyPrefixProof\<close> accepts the remaining entries for the two roots.
\<close>

theorem prefix_proof_complete:
  assumes "never_zero keccak" "pre \<noteq> []" "suf \<noteq> []" "length pre + length suf < 2 ^ 63"
  shows "\<exists>preExp preRoot postRoot prf numRead.
    ExpansionFromLeaves keccak pre = Inr preExp \<and> Root keccak preExp = Inr preRoot \<and>
    bindR (ExpansionFromLeaves keccak (pre @ suf)) (Root keccak) = Inr postRoot \<and>
    GeneratePrefixProof (of_nat (length pre)) preExp suf (RootFetcherFromExpansion keccak) = Inr prf \<and>
    MerkleExpansionFromCompact prf (of_nat (length pre)) = Some (Inr (preExp, numRead)) \<and>
    VerifyPrefixProof keccak
      \<lparr>PreRoot = preRoot, PreSize = of_nat (length pre), PostRoot = postRoot,
       PostSize = of_nat (length (pre @ suf)), PreExpansion = preExp,
       PrefixProof = drop (unat numRead) prf\<rparr> = Inr ()"
proof -
  let ?n = "map (\<lambda>x. keccak [x])"
  let ?e = "expansion keccak (?n pre)"
  obtain rs where rs:
    "GeneratePrefixProof (of_nat (length pre)) ?e suf (RootFetcherFromExpansion keccak) = Inr (fst (Compact ?e) @ rs)"
    "VerifyPrefixProof keccak
       \<lparr>PreRoot = merkle_root keccak (?n pre), PreSize = of_nat (length pre),
        PostRoot = merkle_root keccak (?n (pre @ suf)), PostSize = of_nat (length (pre @ suf)),
        PreExpansion = ?e, PrefixProof = rs\<rparr> = Inr ()"
    using assms by (rule GeneratePrefixProof_complete)
  obtain j where j: "MerkleExpansionFromCompact (fst (Compact ?e) @ rs) (of_nat (length pre)) = Some (Inr (?e, j))"
    "unat j = length (fst (Compact ?e))"
    using Compact_expansion_reads [OF assms(1,2), of rs] assms(4) by auto
  with rs assms show ?thesis
    by (intro exI [of _ ?e] exI [of _ "merkle_root keccak (?n pre)"]
        exI [of _ "merkle_root keccak (?n (pre @ suf))"] exI [of _ "fst (Compact ?e) @ rs"] exI [of _ j])
      (simp add: ExpansionFromLeaves_expansion Root_expansion flip: map_append)
qed

theorem prefix_proof_complete_witness:
  "\<exists>preExp preRoot postRoot prf numRead.
    ExpansionFromLeaves Kec [Atom 1, Atom 2, Atom 3] = Inr preExp \<and> Root Kec preExp = Inr preRoot \<and>
    bindR (ExpansionFromLeaves Kec ([Atom 1, Atom 2, Atom 3] @ [Atom 4, Atom 5])) (Root Kec) = Inr postRoot \<and>
    GeneratePrefixProof (of_nat (length [Atom 1, Atom 2, Atom 3])) preExp [Atom 4, Atom 5]
      (RootFetcherFromExpansion Kec) = Inr prf \<and>
    MerkleExpansionFromCompact prf (of_nat (length [Atom 1, Atom 2, Atom 3])) = Some (Inr (preExp, numRead)) \<and>
    VerifyPrefixProof Kec
      \<lparr>PreRoot = preRoot, PreSize = of_nat (length [Atom 1, Atom 2, Atom 3]), PostRoot = postRoot,
       PostSize = of_nat (length ([Atom 1, Atom 2, Atom 3] @ [Atom 4, Atom 5])), PreExpansion = preExp,
       PrefixProof = drop (unat numRead) prf\<rparr> = Inr ()"
  by (rule prefix_proof_complete) simp_all

lemma accepted_prefix:
  assumes "never_zero keccak" "collision_free keccak"
    and "bindR (ExpansionFromLeaves keccak leaves) (Root keccak) = Inr (PostRoot cfg)"
    and "length leaves = unat (PostSize cfg)" "VerifyPrefixProof keccak cfg = Inr ()"
  shows "\<exists>preExp j. ExpansionFromLeaves keccak (take (unat (PreSize cfg)) leaves) = Inr preExp \<and>
    PreExpansion cfg = preExp @ replicate j 0 \<and>
    (last (PreExpansion cfg) \<noteq> 0 \<longrightarrow> Root keccak preExp = Inr (PreRoot cfg))"
proof -
  let ?q = "map (\<lambda>x. keccak [x]) leaves" and ?n = "unat (PreSize cfg)"
  have len: "length leaves < 2 ^ 64" using assms(4) unat_lt64 by simp
  have exp: "ExpansionFromLeaves keccak leaves = Inr (expansion keccak ?q)"
    using assms(1) len by (rule ExpansionFromLeaves_expansion)
  have "?q \<noteq> []" using assms(3) exp by (auto simp: Root_def)
  then have post: "PostRoot cfg = merkle_root keccak ?q"
    using assms(1,3) exp len by (simp add: Root_expansion)
  have "0 \<notin> set ?q" "length ?q = unat (PostSize cfg)" using assms(1,4) by auto
  then obtain j where j: "PreExpansion cfg = expansion keccak (take ?n ?q) @ replicate j 0"
    "Root keccak (PreExpansion cfg) = Inr (PreRoot cfg)"
    using VerifyPrefixProof_sound [OF assms(1,2) _ _ post assms(5)] by metis
  have "ExpansionFromLeaves keccak (take ?n leaves) = Inr (expansion keccak (take ?n ?q))"
    using assms(1) len ExpansionFromLeaves_expansion [of keccak "take ?n leaves"] by (simp add: take_map)
  moreover have "Root keccak (expansion keccak (take ?n ?q)) = Inr (PreRoot cfg)"
    if "last (PreExpansion cfg) \<noteq> 0"
  proof -
    have "j = 0" using that j(1) last_replicate [of j 0] by (cases "j = 0") (simp_all add: last_append)
    then show ?thesis using j by simp
  qed
  ultimately show ?thesis using j(1) by blast
qed

text \<open>
  C6. Soundness of prefix proofs: if \<^verbatim>\<open>VerifyPrefixProof\<close> accepts a configuration whose post-root is the
  root of a history of \<open>PostSize\<close> leaves, then the pre-expansion is the expansion of the first \<open>PreSize\<close>
  leaves of that history, up to trailing zero entries; without those, the pre-root is their root.
\<close>

theorem prefix_proof_sound:
  assumes "never_zero keccak" "collision_free keccak"
    and "bindR (ExpansionFromLeaves keccak leaves) (Root keccak) = Inr (PostRoot cfg)"
    and "length leaves = unat (PostSize cfg)" "VerifyPrefixProof keccak cfg = Inr ()"
  shows "\<exists>preExp j. ExpansionFromLeaves keccak (take (unat (PreSize cfg)) leaves) = Inr preExp \<and>
    PreExpansion cfg = preExp @ replicate j 0 \<and>
    (last (PreExpansion cfg) \<noteq> 0 \<longrightarrow> Root keccak preExp = Inr (PreRoot cfg))"
  using assms by (rule accepted_prefix)

lemma Verify_loop_one_append:
  assumes "s < e" "MaximumAppendBetween s e = Inr l" "s + push_bit (unat l) 1 = e"
    "AppendCompleteSubTree keccak exp l r = Inr exp'"
  shows "Verify_loop keccak [r] e exp s 0 = Inr (exp', 1)"
proof -
  have "Verify_loop keccak [r] e exp' e 1 = Inr (exp', 1)" by (subst Verify_loop.simps) simp
  with assms show ?thesis by (subst Verify_loop.simps) (simp add: Let_def del: push_bit_of_1)
qed

lemma sound_example_accepted:
  "VerifyPrefixProof Kec \<lparr>PreRoot = Kec [Atom 1], PreSize = 1, PostRoot = Kec [Kec [Atom 1], Kec [Atom 2]],
    PostSize = 2, PreExpansion = [Kec [Atom 1]], PrefixProof = [Kec [Atom 2]]\<rparr> = Inr ()"
proof -
  have "MaximumAppendBetween 1 2 = Inr 0"
    "AppendCompleteSubTree Kec [Kec [Atom 1]] 0 (Kec [Atom 2]) = Inr [0, Kec [Kec [Atom 1], Kec [Atom 2]]]"
    "Root Kec [Kec [Atom 1]] = Inr (Kec [Atom 1])" "TreeSize [Kec [Atom 1]] = 1"
    "Root Kec [0, Kec [Kec [Atom 1], Kec [Atom 2]]] = Inr (Kec [Kec [Atom 1], Kec [Atom 2]])"
    by code_simp+
  then show ?thesis
    using Verify_loop_one_append [of 1 2 0 Kec "[Kec [Atom 1]]" "Kec [Atom 2]"]
    by (simp add: VerifyPrefixProof_def word_le_nat_alt word_less_nat_alt)
qed

theorem prefix_proof_sound_witness:
  "\<exists>preExp j. ExpansionFromLeaves Kec (take (unat (1 :: uint64)) [Atom 1, Atom 2]) = Inr preExp \<and>
    [Kec [Atom 1]] = preExp @ replicate j 0 \<and>
    (last [Kec [Atom 1]] \<noteq> 0 \<longrightarrow> Root Kec preExp = Inr (Kec [Atom 1]))"
proof -
  have "bindR (ExpansionFromLeaves Kec [Atom 1, Atom 2]) (Root Kec) = Inr (Kec [Kec [Atom 1], Kec [Atom 2]])"
    by code_simp
  from prefix_proof_sound [OF Kec_never_zero Kec_collision_free _ _ sound_example_accepted,
      where leaves = "[Atom 1, Atom 2]"] this show ?thesis by simp
qed

text \<open>
  The trailing zero entries of the previous property are possible: a padded pre-expansion is accepted
  with its own root, which is not the root that \<^verbatim>\<open>Root\<close> gives for the prefix it stands for.
\<close>

theorem prefix_proof_accepts_padding:
  assumes "never_zero keccak" "x \<noteq> 0" "y \<noteq> 0"
  shows "VerifyPrefixProof keccak
    \<lparr>PreRoot = keccak [keccak [x, 0], 0], PreSize = 1, PostRoot = keccak [x, y], PostSize = 2,
     PreExpansion = [x, 0], PrefixProof = [y]\<rparr> = Inr ()"
proof -
  have "MaximumAppendBetween 1 2 = Inr 0" by code_simp
  moreover have "AppendCompleteSubTree keccak [x, 0] 0 y = Inr [0, keccak [x, y]]"
    using assms by (simp add: AppendCompleteSubTree_def MAX_LEVEL_def)
  ultimately have "Verify_loop keccak [y] 2 [x, 0] 1 0 = Inr ([0, keccak [x, y]], 1)"
    by (intro Verify_loop_one_append) (simp_all add: word_less_nat_alt)
  with assms show ?thesis
    by (simp add: VerifyPrefixProof_def Root_def MAX_LEVEL_def TreeSize_def word_le_nat_alt)
qed

theorem prefix_proof_accepts_padding_witness:
  "VerifyPrefixProof Kec
    \<lparr>PreRoot = Kec [Kec [Atom 1, 0], 0], PreSize = 1, PostRoot = Kec [Atom 1, Atom 2], PostSize = 2,
     PreExpansion = [Atom 1, 0], PrefixProof = [Atom 2]\<rparr> = Inr ()"
  by (rule prefix_proof_accepts_padding) simp_all

end
