(* ===== verification/Inclusion_Proofs.thy ===== *)
theory Inclusion_Proofs
  imports Prefix_Proofs
begin

text \<open>
  \<^verbatim>\<open>state-commitments/inclusion-proofs/inclusion_proofs.go\<close>: the layers of a Merkle tree, the proof
  that a leaf is at an index, and the root a proof gives. The goroutines that hash the leaves are
  modelled by the order in which their writes happen.
\<close>

subsection \<open>Goroutines\<close>

text \<open>
  What the Go runtime decides: the number of processors, and for the writes of several goroutines
  the order in which they happen.
\<close>

record go_runtime =
  GOMAXPROCS :: nat
  schedule :: "nat list list \<Rightarrow> nat list"

text \<open>One goroutine after the other does its next write until none is left.\<close>

inductive interleaving :: "'a list list \<Rightarrow> 'a list \<Rightarrow> bool" where
  finished: "\<forall>w\<in>set ws. w = [] \<Longrightarrow> interleaving ws []"
| next_write: "i < length ws \<Longrightarrow> ws ! i = x # w \<Longrightarrow> interleaving (ws[i := w]) xs \<Longrightarrow> interleaving ws (x # xs)"

definition go_scheduler :: "go_runtime \<Rightarrow> bool" where
  "go_scheduler rt \<longleftrightarrow> 1 \<le> GOMAXPROCS rt \<and> (\<forall>ws. interleaving ws (schedule rt ws))"

subsection \<open>The tree\<close>

definition next_layer :: "('h::zero list \<Rightarrow> 'h) \<Rightarrow> 'h list \<Rightarrow> 'h list" where
  "next_layer keccak prevLayer =
     map (\<lambda>i. if 2 * i + 1 < length prevLayer
              then keccak [prevLayer ! (2 * i), prevLayer ! (2 * i + 1)]
              else keccak [prevLayer ! (2 * i), 0])
       [0..<(length prevLayer + 1) div 2]"

function FullTree_loop ::
    "('h::zero list \<Rightarrow> 'h) \<Rightarrow> 'h list list \<Rightarrow> nat \<Rightarrow> 'h list \<Rightarrow> 'h list list res" where
  "FullTree_loop keccak layers l prevLayer =
     (if length prevLayer > 1 then
        let nextLayer = next_layer keccak prevLayer in
        if l < length layers
        then FullTree_loop keccak (layers[l := nextLayer]) (l + 1) nextLayer
        else Inl GoPanic
      else Inr layers)"
  by pat_completeness auto
termination
  by (relation "measure (\<lambda>(keccak, layers, l, prevLayer). length prevLayer)") (auto simp: next_layer_def)

declare FullTree_loop.simps [simp del]

definition FullTree :: "('h::zero list \<Rightarrow> 'h) \<Rightarrow> 'h list \<Rightarrow> 'h list list res" where
  "FullTree keccak leaves =
     bindR (MostSignificantBit (of_nat (length leaves))) (\<lambda>msb.
     bindR (LeastSignificantBit (of_nat (length leaves))) (\<lambda>lsb.
       let maxLevel = (if msb = lsb then msb else msb + 1);
           layers = (replicate (unat (maxLevel + 1)) [])[0 := leaves]
       in FullTree_loop keccak layers 1 leaves))"

subsection \<open>Inclusion proofs\<close>

text \<open>The indices each goroutine hashes; the last one also takes the remainder.\<close>

definition rehash_batches :: "nat \<Rightarrow> nat \<Rightarrow> nat list list" where
  "rehash_batches gomaxprocs n =
     (let batchSize = n div gomaxprocs; batchRemainder = n mod gomaxprocs;
          start = (gomaxprocs - 1) * batchSize
      in map (\<lambda>i. [i * batchSize..<i * batchSize + batchSize]) [0..<gomaxprocs - 1]
         @ [[start..<start + batchSize + batchRemainder]])"

definition rehash :: "('h::zero list \<Rightarrow> 'h) \<Rightarrow> go_runtime \<Rightarrow> 'h list \<Rightarrow> 'h list" where
  "rehash keccak rt leaves =
     fold (\<lambda>j rehashed. rehashed[j := keccak [leaves ! j]])
       (schedule rt (rehash_batches (GOMAXPROCS rt) (length leaves)))
       (replicate (length leaves) 0)"

definition counterpart :: "'h::zero list list \<Rightarrow> uint64 \<Rightarrow> nat \<Rightarrow> 'h res" where
  "counterpart fullT idx level =
     (let levelIndex = drop_bit level idx;
          counterpartIndex = levelIndex XOR 1
      in bindR (index_at fullT level) (\<lambda>layer.
           if counterpartIndex \<le> of_nat (length layer) - 1
           then index_at layer (unat counterpartIndex)
           else Inr 0))"

definition GenerateInclusionProof ::
    "('h::zero list \<Rightarrow> 'h) \<Rightarrow> go_runtime \<Rightarrow> 'h list \<Rightarrow> uint64 \<Rightarrow> 'h list res" where
  "GenerateInclusionProof keccak rt leaves idx =
     (if length leaves = 0 then Inl ErrInvalidLeaves
      else if idx \<ge> of_nat (length leaves) then Inl ErrInvalidLeaves
      else if length leaves = 1 then Inr []
      else
        let rehashed = rehash keccak rt leaves in
        bindR (FullTree keccak rehashed) (\<lambda>fullT.
        bindR (MostSignificantBit (of_nat (length rehashed) - 1)) (\<lambda>maxLevel.
          mapR (counterpart fullT idx) [0..<unat maxLevel + 1])))"

fun CalculateRoot_loop :: "('h list \<Rightarrow> 'h) \<Rightarrow> uint64 \<Rightarrow> nat \<Rightarrow> 'h \<Rightarrow> 'h list \<Rightarrow> 'h" where
  "CalculateRoot_loop keccak index i h [] = h"
| "CalculateRoot_loop keccak index i h (node # proof) =
     CalculateRoot_loop keccak index (Suc i)
       (if index AND push_bit i 1 = 0 then keccak [h, node] else keccak [node, h]) proof"

definition CalculateRootFromProof :: "('h list \<Rightarrow> 'h) \<Rightarrow> 'h list \<Rightarrow> uint64 \<Rightarrow> 'h \<Rightarrow> 'h res" where
  "CalculateRootFromProof keccak proof index leaf =
     (if length proof > 256 then Inl ErrProofTooLong
      else Inr (CalculateRoot_loop keccak index 0 (keccak [leaf]) proof))"

subsection \<open>Hashing the leaves in any order\<close>

lemma interleaving_mset: "interleaving ws xs \<Longrightarrow> set xs = \<Union> (set ` set ws)"
proof (induction rule: interleaving.induct)
  case (next_write i ws x w xs)
  have ws: "ws = take i ws @ (x # w) # drop (Suc i) ws"
    using next_write(1,2) by (metis id_take_nth_drop)
  have "ws[i := w] = take i ws @ w # drop (Suc i) ws"
    using next_write(1) by (simp add: upd_conv_take_nth_drop)
  with next_write.IH have "set xs = \<Union> (set ` set (take i ws @ w # drop (Suc i) ws))" by simp
  then show ?case by (subst ws) auto
qed auto

lemma rehash_fold:
  assumes "set js \<subseteq> {..<length xs}"
  shows "fold (\<lambda>j rs. rs[j := f j]) js xs = map (\<lambda>j. if j \<in> set js then f j else xs ! j) [0..<length xs]"
  using assms
proof (induction js arbitrary: xs)
  case Nil
  then show ?case by (simp add: map_nth)
next
  case (Cons j js)
  then show ?case by (auto intro!: nth_equalityI simp: nth_list_update)
qed

lemma rehash_batches_cover:
  assumes "1 \<le> g"
  shows "\<Union> (set ` set (rehash_batches g n)) = {..<n}"
proof -
  define b where "b = n div g"
  have n: "(g - 1) * b + b + n mod g = n"
    using assms div_mult_mod_eq [of n g] by (cases g) (auto simp: b_def algebra_simps)
  have "(\<Union>i\<in>{..<g - 1}. {i * b..<i * b + b}) = {..<(g - 1) * b}"
  proof (intro equalityI subsetI)
    fix j assume "j \<in> (\<Union>i\<in>{..<g - 1}. {i * b..<i * b + b})"
    then obtain i where "i < g - 1" "j < i * b + b" by auto
    moreover from this have "Suc i * b \<le> (g - 1) * b" by (intro mult_le_mono1) simp
    ultimately show "j \<in> {..<(g - 1) * b}" by simp
  next
    fix j assume j: "j \<in> {..<(g - 1) * b}"
    then have "0 < b" by (cases b) auto
    then have "j div b * b \<le> j" "j < j div b * b + b" using dividend_less_div_times [of b j] by simp_all
    moreover have "j div b < g - 1" using j \<open>0 < b\<close> by (simp add: less_mult_imp_div_less)
    ultimately show "j \<in> (\<Union>i\<in>{..<g - 1}. {i * b..<i * b + b})"
      by (intro UN_I [of "j div b"]) simp_all
  qed
  moreover have "\<Union> (set ` set (rehash_batches g n))
      = (\<Union>i\<in>{..<g - 1}. {i * b..<i * b + b}) \<union> {(g - 1) * b..<(g - 1) * b + b + n mod g}"
    by (auto simp: rehash_batches_def Let_def b_def)
  moreover have "{..<(g - 1) * b} \<union> {(g - 1) * b..<(g - 1) * b + b + n mod g} = {..<n}"
    using n by auto
  ultimately show ?thesis by simp
qed

lemma rehash_map:
  assumes "go_scheduler rt"
  shows "rehash keccak rt leaves = map (\<lambda>l. keccak [l]) leaves"
proof -
  let ?bs = "rehash_batches (GOMAXPROCS rt) (length leaves)"
  have "interleaving ?bs (schedule rt ?bs)" "1 \<le> GOMAXPROCS rt"
    using assms by (simp_all add: go_scheduler_def)
  then have "set (schedule rt ?bs) = {..<length leaves}"
    by (simp add: interleaving_mset rehash_batches_cover)
  then have "rehash keccak rt leaves = map (\<lambda>j. keccak [leaves ! j]) [0..<length leaves]"
    unfolding rehash_def by (subst rehash_fold) simp_all
  also have "\<dots> = map (\<lambda>l. keccak [l]) (map ((!) leaves) [0..<length leaves])" by simp
  finally show ?thesis by (simp only: map_nth)
qed

subsection \<open>Layers and paths\<close>

text \<open>The layers above a level, and the siblings on the way up from an index.\<close>

function layers_above :: "('h::zero list \<Rightarrow> 'h) \<Rightarrow> 'h list \<Rightarrow> 'h list list" where
  "layers_above keccak xs =
     (if length xs \<le> 1 then [] else pad_up keccak xs # layers_above keccak (pad_up keccak xs))"
  by pat_completeness auto
termination
  by (relation "measure (\<lambda>(keccak, xs). length xs)") auto

declare layers_above.simps [simp del]

definition sibling :: "'h::zero list \<Rightarrow> nat \<Rightarrow> 'h" where
  "sibling xs i = (let c = (if even i then i + 1 else i - 1) in if c < length xs then xs ! c else 0)"

fun climb :: "('h list \<Rightarrow> 'h) \<Rightarrow> nat \<Rightarrow> 'h \<Rightarrow> 'h list \<Rightarrow> 'h" where
  "climb keccak i h [] = h"
| "climb keccak i h (n # ns) = climb keccak (i div 2) (if even i then keccak [h, n] else keccak [n, h]) ns"

lemma next_layer_pad_up: "next_layer keccak xs = pad_up keccak xs"
proof (induction keccak xs rule: pad_up.induct)
  case (1 keccak x y zs)
  have "[0..<(length (x # y # zs) + 1) div 2] = 0 # map Suc [0..<(length zs + 1) div 2]"
    by (simp add: upt_Suc_Cons del: upt_Suc)
  moreover have "(x # y # zs) ! (2 * Suc i) = zs ! (2 * i)" "(x # y # zs) ! (2 * Suc i + 1) = zs ! (2 * i + 1)"
    for i by simp_all
  ultimately show ?case using 1 by (simp add: next_layer_def o_def del: upt_Suc cong: if_cong)
qed (auto simp: next_layer_def)

lemma pad_up_nth:
  "i < length xs \<Longrightarrow> pad_up keccak xs ! (i div 2) =
     (if even i then keccak [xs ! i, sibling xs i] else keccak [sibling xs i, xs ! i])"
proof (induction keccak xs arbitrary: i rule: pad_up.induct)
  case (1 keccak x y zs)
  show ?case
  proof (cases "i < 2")
    case True
    then have "i = 0 \<or> i = 1" by auto
    then show ?thesis by (auto simp: sibling_def)
  next
    case False
    then obtain j where j: "i = Suc (Suc j)" by (metis add_2_eq_Suc le_Suc_ex not_less)
    have "sibling (x # y # zs) i = sibling zs j" unfolding j
      by (cases j) (auto simp: sibling_def Let_def)
    with 1 j show ?thesis by simp
  qed
qed (auto simp: sibling_def)

lemma climb_root:
  "i < length xs \<Longrightarrow>
   climb keccak i (xs ! i) (map (\<lambda>l. sibling ((xs # layers_above keccak xs) ! l) (i div 2 ^ l))
     [0..<length (layers_above keccak xs)]) = merkle_root keccak xs"
proof (induction "length xs" arbitrary: xs i rule: less_induct)
  case less
  show ?case
  proof (cases "length xs \<le> 1")
    case True
    then obtain x where "xs = [x]" using less.prems by (cases xs) auto
    then show ?thesis using less.prems by (simp add: layers_above.simps)
  next
    case False
    let ?ys = "pad_up keccak xs"
    have la: "layers_above keccak xs = ?ys # layers_above keccak ?ys"
      using False by (simp add: layers_above.simps [of keccak xs])
    have "i div 2 < length ?ys" "length ?ys < length xs" using less.prems False by auto
    from less.hyps [OF this(2,1)] have
      "climb keccak (i div 2) (?ys ! (i div 2)) (map (\<lambda>l. sibling ((?ys # layers_above keccak ?ys) ! l) (i div 2 div 2 ^ l))
        [0..<length (layers_above keccak ?ys)]) = merkle_root keccak ?ys" .
    with False show ?thesis
      by (simp add: la upt_Suc_Cons merkle_root_step [of xs] o_def div_mult2_eq pad_up_nth [OF less.prems] del: upt_Suc)
  qed
qed

lemma length_layers_above: "xs \<noteq> [] \<Longrightarrow> length (layers_above keccak xs) = bit_len (length xs - 1)"
proof (induction keccak xs rule: layers_above.induct)
  case (1 keccak xs)
  show ?case
  proof (cases "length xs \<le> 1")
    case True
    then show ?thesis by (simp add: layers_above.simps)
  next
    case False
    then have "pad_up keccak xs \<noteq> []" "(length xs + 1) div 2 - 1 = (length xs - 1) div 2"
      by (cases xs rule: remdups_adj.cases; simp)+
    moreover have "bit_len (length xs - 1) = Suc (bit_len ((length xs - 1) div 2))"
      using False by (intro bit_len_pos) simp
    ultimately show ?thesis using 1 False by (simp add: layers_above.simps [of keccak xs])
  qed
qed

lemma FullTree_loop_layers:
  "l + length (layers_above keccak xs) \<le> length ls \<Longrightarrow>
   FullTree_loop keccak ls l xs =
     Inr (take l ls @ layers_above keccak xs @ drop (l + length (layers_above keccak xs)) ls)"
proof (induction keccak xs arbitrary: l ls rule: layers_above.induct)
  case (1 keccak xs)
  show ?case
  proof (cases "length xs \<le> 1")
    case True
    then show ?thesis by (simp add: layers_above.simps FullTree_loop.simps)
  next
    case False
    let ?ys = "pad_up keccak xs"
    have la: "layers_above keccak xs = ?ys # layers_above keccak ?ys"
      using False by (simp add: layers_above.simps [of keccak xs])
    have "FullTree_loop keccak (ls[l := ?ys]) (l + 1) ?ys = Inr (take (l + 1) (ls[l := ?ys]) @
        layers_above keccak ?ys @ drop (l + 1 + length (layers_above keccak ?ys)) (ls[l := ?ys]))"
      using "1.prems" False by (intro "1.IH") (auto simp: la)
    moreover have "take (l + 1) (ls[l := ?ys]) = take l ls @ [?ys]"
      using "1.prems" by (simp add: la take_Suc_conv_app_nth)
    ultimately show ?thesis
      using False "1.prems" by (subst FullTree_loop.simps) (simp add: next_layer_pad_up la Let_def)
  qed
qed

text \<open>The number of layers that \<^verbatim>\<open>FullTree\<close> allocates.\<close>

lemma bit_len_pred:
  assumes "0 < n"
  shows "bit_len (n - 1) = (if bit_len n - 1 = low_zeros n then bit_len n - 1 else bit_len n)"
proof -
  define m where "m = bit_len n - 1"
  have bl: "bit_len n = Suc m" using assms by (simp add: m_def bit_len_pos)
  have lo: "2 ^ m \<le> n" and hi: "n < 2 * 2 ^ m"
    using bit_len_lower [OF assms] bit_len_upper [of n] bl by simp_all
  show ?thesis
  proof (cases "n = 2 ^ m")
    case True
    have "\<not> 2 ^ Suc m dvd n" using hi assms by (auto dest: dvd_imp_le)
    then have "low_zeros n = m" using True by (intro low_zeros_eqI) auto
    moreover have "bit_len (n - 1) = m"
    proof (cases m)
      case (Suc m')
      have "bit_len (n - 1) = Suc m'"
        using True one_le_power [of "2::nat" m'] unfolding Suc by (intro bit_len_eqI) simp_all
      then show ?thesis by (simp add: Suc)
    qed (use True in simp)
    ultimately show ?thesis by (simp add: bl)
  next
    case False
    have "low_zeros n \<noteq> m"
    proof
      assume "low_zeros n = m"
      then have "2 ^ m dvd n" using low_zeros_dvd [of n] by simp
      then obtain c where "n = 2 ^ m * c" by (rule dvdE)
      with lo hi have "c = 1" by (cases c; cases "c - 1") auto
      with \<open>n = 2 ^ m * c\<close> False show False by simp
    qed
    moreover have "bit_len (n - 1) = Suc m" using lo hi False by (intro bit_len_eqI) auto
    ultimately show ?thesis by (simp add: bl)
  qed
qed

lemma of_nat64_eq_iff: "m < 2 ^ 64 \<Longrightarrow> n < 2 ^ 64 \<Longrightarrow> (of_nat m :: uint64) = of_nat n \<longleftrightarrow> m = n"
  using unat_of_nat64 by metis

lemma FullTree_layers:
  assumes "xs \<noteq> []" "length xs < 2 ^ 64"
  shows "FullTree keccak xs = Inr (xs # layers_above keccak xs)"
proof -
  let ?n = "length xs"
  have n: "0 < ?n" "unat (of_nat ?n :: uint64) = ?n" using assms by (simp_all add: unat_of_nat64)
  have "bit_len ?n \<le> 64" using assms unfolding bit_len_less_iff by simp
  have "2 ^ low_zeros ?n \<le> ?n" using low_zeros_dvd n(1) by (intro dvd_imp_le)
  then have "(2::nat) ^ low_zeros ?n < 2 ^ 64" using assms(2) by linarith
  then have "low_zeros ?n < 64" by (simp only: power_strict_increasing_iff)
  obtain b where b: "bit_len ?n = Suc b" using n(1) by (auto simp: bit_len_pos)
  have pred: "bit_len (?n - 1) = (if b = low_zeros ?n then b else Suc b)"
    using bit_len_pred [OF n(1)] b by simp
  have eq: "(of_nat b :: uint64) = of_nat (low_zeros ?n) \<longleftrightarrow> b = low_zeros ?n"
    using \<open>bit_len ?n \<le> 64\<close> \<open>low_zeros ?n < 64\<close> b by (intro of_nat64_eq_iff) auto
  have "MostSignificantBit (of_nat ?n) = Inr (of_nat b)"
    "LeastSignificantBit (of_nat ?n) = Inr (of_nat (low_zeros ?n))"
    using n b by (simp_all add: MostSignificantBit_bit_len LeastSignificantBit_low_zeros)
  moreover have "unat (of_nat (bit_len (?n - 1)) + 1 :: uint64) = Suc (bit_len (?n - 1))"
    using \<open>bit_len ?n \<le> 64\<close> b unat_of_nat64 [of "Suc (bit_len (?n - 1))"] unfolding pred
    by (simp add: add.commute split: if_splits)
  moreover have "(if of_nat b = (of_nat (low_zeros ?n) :: uint64) then of_nat b else of_nat b + 1)
      = (of_nat (bit_len (?n - 1)) :: uint64)"
    unfolding pred eq by simp
  ultimately show ?thesis
    using assms by (simp add: FullTree_def Let_def FullTree_loop_layers length_layers_above)
qed

lemma layer_nth:
  assumes "xs \<noteq> []" "l \<le> bit_len (length xs - 1)"
  shows "length ((xs # layers_above keccak xs) ! l) = Suc ((length xs - 1) div 2 ^ l)"
  using assms
proof (induction l arbitrary: xs)
  case (Suc l)
  then have "0 < length xs - 1" by (cases "length xs - 1") auto
  then have two: "\<not> length xs \<le> 1" by simp
  let ?ys = "pad_up keccak xs"
  have half: "length ?ys - 1 = (length xs - 1) div 2"
    using two by (cases xs rule: remdups_adj.cases) simp_all
  have "layers_above keccak xs = ?ys # layers_above keccak ?ys"
    using two by (simp add: layers_above.simps [of keccak xs])
  moreover have "length ((?ys # layers_above keccak ?ys) ! l) = Suc ((length ?ys - 1) div 2 ^ l)"
  proof (rule Suc.IH)
    show "?ys \<noteq> []" using two by (cases xs rule: remdups_adj.cases) auto
    show "l \<le> bit_len (length ?ys - 1)"
      using Suc.prems(2) bit_len_pos [OF \<open>0 < length xs - 1\<close>] unfolding half by simp
  qed
  ultimately show ?case unfolding half by (simp add: div_mult2_eq)
qed simp

lemma unat_xor_1: "unat (j XOR 1 :: uint64) = (if even (unat j) then unat j + 1 else unat j - 1)"
proof -
  have "unat (j XOR 1) = unat j XOR 1" by (simp only: unsigned_xor_eq unsigned_1)
  then show ?thesis unfolding xor_one_eq [of "unat j"] by simp
qed

lemma counterpart_sibling:
  assumes "level < length ls" "0 < length (ls ! level)" "length (ls ! level) < 2 ^ 64"
  shows "counterpart ls idx level = Inr (sibling (ls ! level) (unat idx div 2 ^ level))"
proof -
  let ?n = "length (ls ! level)" and ?c = "drop_bit level idx XOR 1"
  have "unat (drop_bit level idx) = unat idx div 2 ^ level"
    unfolding unat_drop_bit_eq by (rule drop_bit_eq_div)
  then have c: "unat ?c = (let i = unat idx div 2 ^ level in if even i then i + 1 else i - 1)"
    by (simp add: unat_xor_1 Let_def)
  have "unat (of_nat ?n - 1 :: uint64) = ?n - 1" using assms(2,3) by (rule unat_of_nat64_pred)
  then have "?c \<le> of_nat ?n - 1 \<longleftrightarrow> unat ?c < ?n"
    using assms(2) unfolding word_le_nat_alt by linarith
  then show ?thesis using assms(1)
    by (simp add: counterpart_def sibling_def index_at_def c Let_def)
qed

lemma CalculateRoot_loop_climb:
  "CalculateRoot_loop keccak index i h proof = climb keccak (unat index div 2 ^ i) h proof"
proof (induction "proof" arbitrary: i h)
  case (Cons n ns)
  have "index AND push_bit i 1 = 0 \<longleftrightarrow> even (unat index div 2 ^ i)"
    using shift1_and_eq_0 [of i index] by (simp add: and.commute bit_unat64)
  moreover have "unat index div 2 ^ i div 2 = unat index div 2 ^ Suc i"
    by (simp only: power_Suc2 div_mult2_eq)
  ultimately show ?case using Cons by simp
qed simp

subsection \<open>Generated proofs lead to the root\<close>

lemma GenerateInclusionProof_complete:
  fixes keccak :: "'h::zero list \<Rightarrow> 'h"
  assumes rt: "go_scheduler rt" and idx: "unat idx < length leaves" and len: "length leaves < 2 ^ 64"
  defines "nodes \<equiv> map (\<lambda>l. keccak [l]) leaves"
  obtains pf where "GenerateInclusionProof keccak rt leaves idx = Inr pf"
    "length pf = bit_len (length leaves - 1)"
    "CalculateRootFromProof keccak pf idx (leaves ! unat idx) = Inr (merkle_root keccak nodes)"
proof -
  let ?n = "length leaves"
  have ne: "nodes \<noteq> []" and ln: "length nodes = ?n" using idx by (auto simp: nodes_def)
  have idx': "\<not> of_nat ?n \<le> idx" using idx len by (simp add: word_le_nat_alt unat_of_nat64)
  define pf where "pf = map (\<lambda>l. sibling ((nodes # layers_above keccak nodes) ! l) (unat idx div 2 ^ l))
    [0..<length (layers_above keccak nodes)]"
  have lpf: "length pf = bit_len (?n - 1)" by (simp add: pf_def length_layers_above ne ln)
  moreover have "bit_len (?n - 1) \<le> 64" using len unfolding bit_len_less_iff by simp
  moreover have "climb keccak (unat idx) (nodes ! unat idx) pf = merkle_root keccak nodes"
    unfolding pf_def using idx ln by (intro climb_root) simp
  ultimately have root: "CalculateRootFromProof keccak pf idx (leaves ! unat idx) = Inr (merkle_root keccak nodes)"
    using idx by (simp add: CalculateRootFromProof_def CalculateRoot_loop_climb nodes_def)
  have "GenerateInclusionProof keccak rt leaves idx = Inr pf"
  proof (cases "?n = 1")
    case True
    then have "pf = []" using lpf by simp
    with True idx' show ?thesis by (simp add: GenerateInclusionProof_def)
  next
    case False
    then have n1: "0 < ?n - 1" using idx by linarith
    have "unat (of_nat ?n - 1 :: uint64) = ?n - 1" using idx len by (intro unat_of_nat64_pred) auto
    moreover obtain b where b: "bit_len (?n - 1) = Suc b" using bit_len_pos [OF n1] by simp
    ultimately have "MostSignificantBit (of_nat ?n - 1) = Inr (of_nat b)"
      using n1 MostSignificantBit_bit_len [of "of_nat ?n - 1"] by simp
    moreover have "unat (of_nat b :: uint64) + 1 = bit_len (?n - 1)"
      using \<open>bit_len (?n - 1) \<le> 64\<close> b by (simp add: unat_of_nat64)
    moreover have "mapR (counterpart (nodes # layers_above keccak nodes) idx) [0..<bit_len (?n - 1)] = Inr pf"
      unfolding pf_def length_layers_above [OF ne] ln
    proof (rule mapR_Inr)
      fix l assume "l \<in> set [0..<bit_len (?n - 1)]"
      moreover have "Suc ((?n - 1) div 2 ^ l) < 2 ^ 64"
        using div_le_dividend [of "?n - 1" "2 ^ l"] len n1 by linarith
      ultimately show "counterpart (nodes # layers_above keccak nodes) idx l
          = Inr (sibling ((nodes # layers_above keccak nodes) ! l) (unat idx div 2 ^ l))"
        using len n1 ne ln by (intro counterpart_sibling) (simp_all add: layer_nth length_layers_above)
    qed
    ultimately show ?thesis
      using False idx idx' len rehash_map [OF rt, of keccak leaves] FullTree_layers [OF ne, of keccak] ln
      by (auto simp: GenerateInclusionProof_def nodes_def Let_def simp del: upt_Suc)
  qed
  then show ?thesis using lpf root by (rule that)
qed

text \<open>Two proofs of the same length at the same index that lead to the same root are the same.\<close>

lemma climb_inject:
  assumes "collision_free keccak"
  shows "length ps = length qs \<Longrightarrow> climb keccak i a ps = climb keccak i b qs \<Longrightarrow> a = b \<and> ps = qs"
proof (induction ps qs arbitrary: i a b rule: list_induct2)
  case (Cons p ps q qs)
  let ?A = "if even i then keccak [a, p] else keccak [p, a]"
  let ?B = "if even i then keccak [b, q] else keccak [q, b]"
  have "?A = ?B \<and> ps = qs" using Cons.prems by (intro Cons.IH) simp
  then show ?case by (simp add: collision_freeD [OF assms] split: if_splits)
qed simp

subsection \<open>Properties\<close>

text \<open>The runtime that runs one goroutine after the other.\<close>

definition sequential_runtime :: "nat \<Rightarrow> go_runtime" where
  "sequential_runtime n = \<lparr>GOMAXPROCS = n, schedule = concat\<rparr>"

lemma interleaving_sequential: "interleaving (replicate n [] @ ws) (concat ws)"
proof (induction ws arbitrary: n)
  case Nil
  then show ?case by (auto intro: interleaving.finished)
next
  case (Cons w ws)
  show ?case
  proof (induction w)
    case Nil
    have "replicate (Suc n) [] @ ws = replicate n [] @ [] # ws" by (simp add: replicate_app_Cons_same)
    then show ?case using Cons [of "Suc n"] by simp
  next
    case (Cons x w)
    have "interleaving (replicate n [] @ (x # w) # ws) (x # concat (w # ws))"
      using Cons by (intro interleaving.next_write [of n _ x w]) (simp_all add: nth_append list_update_append)
    then show ?case by simp
  qed
qed

lemma sequential_go_scheduler [simp]: "1 \<le> n \<Longrightarrow> go_scheduler (sequential_runtime n)"
  using interleaving_sequential [of 0] by (auto simp: go_scheduler_def sequential_runtime_def)

text \<open>
  Whatever the number of processors and however the goroutines are interleaved, the hashed leaves that
  \<^verbatim>\<open>GenerateInclusionProof\<close> works on are the hashes of the leaves in order: no index is missed.
\<close>

theorem rehash_schedule_independent:
  assumes "go_scheduler rt"
  shows "rehash keccak rt leaves = map (\<lambda>l. keccak [l]) leaves"
  using assms by (rule rehash_map)

theorem rehash_schedule_independent_witness:
  "rehash Kec (sequential_runtime 2) [Atom 1, Atom 2, Atom 3] = map (\<lambda>l. Kec [l]) [Atom 1, Atom 2, Atom 3]"
  by (rule rehash_schedule_independent) simp

text \<open>
  C8. Completeness of inclusion proofs: for every index of a list of leaves, \<^verbatim>\<open>GenerateInclusionProof\<close>
  succeeds, and \<^verbatim>\<open>CalculateRootFromProof\<close> computes from its proof and the leaf at that index the root that
  \<^verbatim>\<open>Root\<close> gives for the expansion of all the leaves.
\<close>

theorem inclusion_proof_complete:
  assumes "never_zero keccak" "go_scheduler rt" "unat idx < length leaves" "length leaves < 2 ^ 64"
  shows "\<exists>pf root. GenerateInclusionProof keccak rt leaves idx = Inr pf \<and>
    bindR (ExpansionFromLeaves keccak leaves) (Root keccak) = Inr root \<and>
    CalculateRootFromProof keccak pf idx (leaves ! unat idx) = Inr root"
proof -
  obtain pf where "GenerateInclusionProof keccak rt leaves idx = Inr pf"
    "CalculateRootFromProof keccak pf idx (leaves ! unat idx) = Inr (merkle_root keccak (map (\<lambda>l. keccak [l]) leaves))"
    using assms(2-) by (rule GenerateInclusionProof_complete)
  moreover have "leaves \<noteq> []" using assms(3) by auto
  ultimately show ?thesis using assms(1,4) by (simp add: ExpansionFromLeaves_expansion Root_expansion)
qed

theorem inclusion_proof_complete_witness:
  "\<exists>pf root. GenerateInclusionProof Kec (sequential_runtime 4) [Atom 1, Atom 2, Atom 3] 2 = Inr pf \<and>
    bindR (ExpansionFromLeaves Kec [Atom 1, Atom 2, Atom 3]) (Root Kec) = Inr root \<and>
    CalculateRootFromProof Kec pf 2 ([Atom 1, Atom 2, Atom 3] ! unat (2 :: uint64)) = Inr root"
  by (rule inclusion_proof_complete) simp_all



end
