(* ===== verification/History_Commitment.thy ===== *)
theory History_Commitment
  imports Inclusion_Proofs Sym_Hash
begin

text \<open>
  \<^verbatim>\<open>state-commitments/history/history.go\<close>: a commitment to a list of leaves with proofs of its first
  and last leaf. The three goroutines of \<^verbatim>\<open>New\<close> write different variables, so their order does not
  matter.
\<close>

record 'h History =
  Height :: uint64
  Merkle :: 'h
  FirstLeaf :: 'h
  LastLeafProof :: "'h list"
  FirstLeafProof :: "'h list"
  LastLeaf :: 'h

definition History_New :: "('h::zero list \<Rightarrow> 'h) \<Rightarrow> go_runtime \<Rightarrow> 'h list \<Rightarrow> 'h History res" where
  "History_New keccak rt leaves =
     (if length leaves = 0 then Inl (ErrMsg ''must commit to at least one leaf'')
      else
        let first = GenerateInclusionProof keccak rt leaves 0;
            final = GenerateInclusionProof keccak rt leaves (of_nat (length leaves) - 1);
            merkle = bindR (ExpansionFromLeaves_loop keccak NewEmptyMerkleExpansion leaves) (Root keccak)
        in bindR first (\<lambda>firstLeafProof. bindR final (\<lambda>lastLeafProof. bindR merkle (\<lambda>root.
             Inr \<lparr>Height = of_nat (length leaves - 1), Merkle = root, FirstLeaf = leaves ! 0,
                  LastLeafProof = lastLeafProof, FirstLeafProof = firstLeafProof,
                  LastLeaf = leaves ! (length leaves - 1)\<rparr>))))"

subsection \<open>Commitments\<close>

lemma History_New_succeeds:
  assumes k: "never_zero keccak" "go_scheduler rt" and len: "leaves \<noteq> []" "length leaves < 2 ^ 64"
  obtains h where "History_New keccak rt leaves = Inr h" "unat (Height h) = length leaves - 1"
    "Merkle h = merkle_root keccak (map (\<lambda>l. keccak [l]) leaves)"
    "FirstLeaf h = hd leaves" "LastLeaf h = last leaves"
    "CalculateRootFromProof keccak (FirstLeafProof h) 0 (FirstLeaf h) = Inr (Merkle h)"
    "CalculateRootFromProof keccak (LastLeafProof h) (Height h) (LastLeaf h) = Inr (Merkle h)"
proof -
  let ?n = "length leaves" and ?nodes = "map (\<lambda>l. keccak [l]) leaves"
  have last_idx: "unat (of_nat ?n - 1 :: uint64) = ?n - 1" using len by (intro unat_of_nat64_pred) auto
  obtain p where p: "GenerateInclusionProof keccak rt leaves 0 = Inr p"
    "CalculateRootFromProof keccak p 0 (leaves ! 0) = Inr (merkle_root keccak ?nodes)"
    using GenerateInclusionProof_complete [OF k(2), of 0 leaves keccak] len by auto
  obtain q where q: "GenerateInclusionProof keccak rt leaves (of_nat ?n - 1) = Inr q"
    "CalculateRootFromProof keccak q (of_nat ?n - 1) (leaves ! (?n - 1)) = Inr (merkle_root keccak ?nodes)"
    using GenerateInclusionProof_complete [OF k(2), of "of_nat ?n - 1" leaves keccak] len last_idx by auto
  have "ExpansionFromLeaves_loop keccak [] leaves = Inr (expansion keccak ?nodes)"
    using ExpansionFromLeaves_loop_expansion [OF k(1), of "[]" leaves] len(2) by simp
  moreover have "Root keccak (expansion keccak ?nodes) = Inr (merkle_root keccak ?nodes)"
    using k len by (intro Root_expansion) auto
  moreover have "of_nat (?n - 1) = (of_nat ?n - 1 :: uint64)" using len(1) by (cases leaves) auto
  ultimately show ?thesis
    using that p q len last_idx
    by (auto simp: History_New_def NewEmptyMerkleExpansion_def Let_def hd_conv_nth last_conv_nth)
qed

lemma History_New_root:
  assumes "never_zero keccak" "go_scheduler rt" "leaves \<noteq> []" "length leaves < 2 ^ 64"
  shows "\<exists>h. History_New keccak rt leaves = Inr h \<and> Merkle h = merkle_root keccak (map (\<lambda>l. keccak [l]) leaves)"
  using History_New_succeeds [OF assms] by metis

lemma History_New_last_leaf:
  assumes "never_zero keccak" "go_scheduler rt" "leaves \<noteq> []" "length leaves < 2 ^ 64" "History_New keccak rt leaves = Inr h"
  shows "LastLeaf h = last leaves \<and>
    CalculateRootFromProof keccak (LastLeafProof h) (Height h) (LastLeaf h) = Inr (Merkle h)"
  by (rule History_New_succeeds [OF assms(1-4)]) (use assms(5) in simp)

lemma merkle_root_inject:
  assumes k: "collision_free keccak" "go_scheduler rt" and len: "length xs = length ys" "length xs < 2 ^ 64"
    and eq: "merkle_root keccak (map (\<lambda>l. keccak [l]) xs) = merkle_root keccak (map (\<lambda>l. keccak [l]) ys)"
  shows "xs = ys"
proof (rule nth_equalityI [OF len(1)])
  fix i assume i: "i < length xs"
  then have ui: "unat (of_nat i :: uint64) = i" using len by (simp add: unat_of_nat64)
  obtain p q where "length p = length q"
    "CalculateRootFromProof keccak p (of_nat i) (xs ! i) = Inr (merkle_root keccak (map (\<lambda>l. keccak [l]) xs))"
    "CalculateRootFromProof keccak q (of_nat i) (ys ! i) = Inr (merkle_root keccak (map (\<lambda>l. keccak [l]) ys))"
    using GenerateInclusionProof_complete [OF k(2), of "of_nat i" xs keccak]
      GenerateInclusionProof_complete [OF k(2), of "of_nat i" ys keccak] ui i len by metis
  with eq have "keccak [xs ! i] = keccak [ys ! i]"
    using climb_inject [OF k(1), of p q i "keccak [xs ! i]" "keccak [ys ! i]"] ui
    by (auto simp: CalculateRootFromProof_def CalculateRoot_loop_climb split: if_splits)
  then show "xs ! i = ys ! i" by (simp add: collision_freeD [OF k(1)])
qed

lemma History_New_inject:
  assumes "never_zero keccak" "collision_free keccak" "go_scheduler rt" "go_scheduler rt'"
    and "length xs < 2 ^ 64" "length ys < 2 ^ 64"
    and "History_New keccak rt xs = Inr h" "History_New keccak rt' ys = Inr h'"
    and "Height h = Height h'" "Merkle h = Merkle h'"
  shows "xs = ys"
proof -
  have ne: "xs \<noteq> []" "ys \<noteq> []" using assms(7,8) by (auto simp: History_New_def)
  have x: "unat (Height h) = length xs - 1" "Merkle h = merkle_root keccak (map (\<lambda>l. keccak [l]) xs)"
    using History_New_succeeds [OF assms(1,3) ne(1) assms(5)] assms(7) by (metis sum.inject(2))+
  have y: "unat (Height h') = length ys - 1" "Merkle h' = merkle_root keccak (map (\<lambda>l. keccak [l]) ys)"
    using History_New_succeeds [OF assms(1,4) ne(2) assms(6)] assms(8) by (metis sum.inject(2))+
  have "0 < length xs" "0 < length ys" using ne unfolding length_greater_0_conv by auto
  then have "length xs = length ys" using x(1) y(1) arg_cong [OF assms(9), of unat] by linarith
  with x(2) y(2) assms(5,10) show ?thesis
    by (intro merkle_root_inject [OF assms(2,3)]) simp_all
qed

subsection \<open>Properties\<close>

text \<open>
  C10. \<^verbatim>\<open>New\<close> succeeds on every nonempty list of leaves, its height is the index of the last leaf, and its
  proofs of the first and of the last leaf lead to its Merkle root.
\<close>

theorem History_New_leaf_proofs:
  assumes "never_zero keccak" "go_scheduler rt" "leaves \<noteq> []" "length leaves < 2 ^ 64"
  shows "\<exists>h. History_New keccak rt leaves = Inr h \<and> unat (Height h) = length leaves - 1 \<and>
    FirstLeaf h = hd leaves \<and> LastLeaf h = last leaves \<and>
    CalculateRootFromProof keccak (FirstLeafProof h) 0 (FirstLeaf h) = Inr (Merkle h) \<and>
    CalculateRootFromProof keccak (LastLeafProof h) (Height h) (LastLeaf h) = Inr (Merkle h)"
  using History_New_succeeds [OF assms] by metis

theorem History_New_leaf_proofs_witness:
  "\<exists>h. History_New Kec (sequential_runtime 1) [Atom 1, Atom 2, Atom 3] = Inr h \<and>
    unat (Height h) = length [Atom 1, Atom 2, Atom 3] - 1 \<and>
    FirstLeaf h = hd [Atom 1, Atom 2, Atom 3] \<and> LastLeaf h = last [Atom 1, Atom 2, Atom 3] \<and>
    CalculateRootFromProof Kec (FirstLeafProof h) 0 (FirstLeaf h) = Inr (Merkle h) \<and>
    CalculateRootFromProof Kec (LastLeafProof h) (Height h) (LastLeaf h) = Inr (Merkle h)"
  by (rule History_New_leaf_proofs) simp_all



end
