(* ===== verification/Containers.thy ===== *)
theory Containers
  imports Bold_Prelude
begin

text \<open>
  The packages under \<^verbatim>\<open>containers\<close>: slices, options and the thread-safe map, set and slice. Every method
  of a thread-safe container holds the lock for its whole body, so it is one atomic step on the
  container's value. A Go map is an association list with distinct keys; Go leaves the order of a
  \<^verbatim>\<open>range\<close> over a map open, and here it is the order of the list, about which nothing is assumed.
\<close>

subsection \<open>Slices\<close>

definition hex_digit :: "nat \<Rightarrow> char" where
  "hex_digit n = (if n < 10 then char_of (48 + n) else char_of (87 + n))"

text \<open>\<^verbatim>\<open>fmt.Sprintf("%#x", b)\<close>: nothing for no bytes, otherwise \<open>0x\<close> and two digits a byte.\<close>

definition sprintf_hex :: "uint8 list \<Rightarrow> string" where
  "sprintf_hex b =
     (if b = [] then []
      else ''0x'' @ concat (map (\<lambda>x. [hex_digit (unat x div 16), hex_digit (unat x mod 16)]) b))"

definition Trunc :: "uint8 list \<Rightarrow> string" where
  "Trunc b = (if length b < 4 then sprintf_hex b else sprintf_hex (take 4 b))"

text \<open>The loop of \<^verbatim>\<open>Reverse\<close>; \<open>j\<close> is one more than Go's, so that it does not go below zero.\<close>

function Reverse_loop :: "nat \<Rightarrow> nat \<Rightarrow> 'a list \<Rightarrow> 'a list" where
  "Reverse_loop i j s =
     (if i + 1 < j then Reverse_loop (i + 1) (j - 1) (s[i := s ! (j - 1), j - 1 := s ! i]) else s)"
  by pat_completeness auto
termination
  by (relation "measure (\<lambda>(i, j, s). j - i)") auto

declare Reverse_loop.simps [simp del]

definition Reverse :: "'a list \<Rightarrow> 'a list" where
  "Reverse s = Reverse_loop 0 (length s) s"

subsection \<open>Options\<close>

text \<open>\<^verbatim>\<open>option.Option\<close> is the type \<open>option\<close>; unwrapping nothing dereferences nil.\<close>

definition Unwrap :: "'a option \<Rightarrow> 'a res" where
  "Unwrap x = (case x of None \<Rightarrow> Inl GoPanic | Some v \<Rightarrow> Inr v)"

lemma Unwrap_simps [simp]: "Unwrap None = Inl GoPanic" "Unwrap (Some v) = Inr v"
  by (simp_all add: Unwrap_def)

subsection \<open>Thread-safe map\<close>

type_synonym ('k, 'v) gomap = "('k \<times> 'v) list"

definition NewMap :: "('k, 'v) gomap" where
  "NewMap = []"

definition NewMapFromItems :: "('k, 'v) gomap \<Rightarrow> ('k, 'v) gomap" where
  "NewMapFromItems m = m"

definition Map_IsEmpty :: "('k, 'v) gomap \<Rightarrow> bool" where
  "Map_IsEmpty s \<longleftrightarrow> length s = 0"

definition Map_Put :: "'k \<Rightarrow> 'v \<Rightarrow> ('k, 'v) gomap \<Rightarrow> ('k, 'v) gomap" where
  "Map_Put k v s = AList.update k v s"

definition Map_TryGet :: "('k, 'v) gomap \<Rightarrow> 'k \<Rightarrow> 'v option" where
  "Map_TryGet s k = map_of s k"

definition Map_Has :: "('k, 'v) gomap \<Rightarrow> 'k \<Rightarrow> bool" where
  "Map_Has s k \<longleftrightarrow> map_of s k \<noteq> None"

definition Map_NumItems :: "('k, 'v) gomap \<Rightarrow> uint64" where
  "Map_NumItems s = of_nat (length s)"

text \<open>\<^verbatim>\<open>Get\<close> of a missing key is the zero value of the value type.\<close>

definition Map_Get :: "'v \<Rightarrow> ('k, 'v) gomap \<Rightarrow> 'k \<Rightarrow> 'v" where
  "Map_Get zero_value s k = (case map_of s k of None \<Rightarrow> zero_value | Some v \<Rightarrow> v)"

definition Map_Delete :: "'k \<Rightarrow> ('k, 'v) gomap \<Rightarrow> ('k, 'v) gomap" where
  "Map_Delete k s = AList.delete k s"

text \<open>\<^verbatim>\<open>ForEach\<close> with a callback that changes some state \<open>w\<close> and may fail.\<close>

fun Map_ForEach :: "('k \<Rightarrow> 'v \<Rightarrow> 'w \<Rightarrow> unit res \<times> 'w) \<Rightarrow> ('k, 'v) gomap \<Rightarrow> 'w \<Rightarrow> unit res \<times> 'w" where
  "Map_ForEach f [] w = (Inr (), w)"
| "Map_ForEach f ((k, v) # s) w =
     (case f k v w of (Inl e, w') \<Rightarrow> (Inl e, w') | (Inr _, w') \<Rightarrow> Map_ForEach f s w')"

definition map_ok :: "('k, 'v) gomap \<Rightarrow> bool" where
  "map_ok s \<longleftrightarrow> distinct (map fst s)"

subsection \<open>Thread-safe set\<close>

definition NewSet :: "('k, bool) gomap" where
  "NewSet = []"

definition Set_Insert :: "'k \<Rightarrow> ('k, bool) gomap \<Rightarrow> ('k, bool) gomap" where
  "Set_Insert t s = AList.update t True s"

definition Set_NumItems :: "('k, bool) gomap \<Rightarrow> uint64" where
  "Set_NumItems s = of_nat (length s)"

definition Set_Has :: "('k, bool) gomap \<Rightarrow> 'k \<Rightarrow> bool" where
  "Set_Has s t = (case map_of s t of None \<Rightarrow> False | Some b \<Rightarrow> b)"

definition Set_Delete :: "'k \<Rightarrow> ('k, bool) gomap \<Rightarrow> ('k, bool) gomap" where
  "Set_Delete t s = AList.delete t s"

definition Set_ForEach :: "('k \<Rightarrow> 'w \<Rightarrow> 'w) \<Rightarrow> ('k, bool) gomap \<Rightarrow> 'w \<Rightarrow> 'w" where
  "Set_ForEach f s w = fold f (map fst s) w"

definition set_ok :: "('k, bool) gomap \<Rightarrow> bool" where
  "set_ok s \<longleftrightarrow> map_ok s \<and> (\<forall>(k, b)\<in>set s. b)"

subsection \<open>Thread-safe slice\<close>

definition NewSlice :: "'a list" where
  "NewSlice = []"

definition Slice_Push :: "'a \<Rightarrow> 'a list \<Rightarrow> 'a list" where
  "Slice_Push v s = s @ [v]"

definition Slice_Get :: "'a list \<Rightarrow> int \<Rightarrow> 'a option res" where
  "Slice_Get s i =
     (if i \<ge> int (length s) then Inr None
      else if i < 0 then Inl GoPanic
      else Inr (Some (s ! nat i)))"

definition Slice_Len :: "'a list \<Rightarrow> nat" where
  "Slice_Len s = length s"

fun Slice_Find_loop :: "nat \<Rightarrow> (nat \<Rightarrow> 'a \<Rightarrow> bool) \<Rightarrow> 'a list \<Rightarrow> bool" where
  "Slice_Find_loop ii f [] = False"
| "Slice_Find_loop ii f (vv # s) = (if f ii vv then True else Slice_Find_loop (Suc ii) f s)"

definition Slice_Find :: "(nat \<Rightarrow> 'a \<Rightarrow> bool) \<Rightarrow> 'a list \<Rightarrow> bool" where
  "Slice_Find f s = Slice_Find_loop 0 f s"

subsection \<open>The contract of a map\<close>

locale map_store =
  fixes lookup :: "'m \<Rightarrow> 'k \<Rightarrow> 'v option" and put :: "'k \<Rightarrow> 'v \<Rightarrow> 'm \<Rightarrow> 'm"
    and remove :: "'k \<Rightarrow> 'm \<Rightarrow> 'm" and empty :: 'm and ok :: "'m \<Rightarrow> bool" and count :: "'m \<Rightarrow> nat"
  assumes lookup_empty: "lookup empty k = None"
    and lookup_put: "ok m \<Longrightarrow> lookup (put k v m) k' = (if k' = k then Some v else lookup m k')"
    and lookup_remove: "ok m \<Longrightarrow> lookup (remove k m) k' = (if k' = k then None else lookup m k')"
    and ok_empty: "ok empty" and ok_put: "ok m \<Longrightarrow> ok (put k v m)" and ok_remove: "ok m \<Longrightarrow> ok (remove k m)"
    and count_card: "ok m \<Longrightarrow> finite (dom (lookup m)) \<and> count m = card (dom (lookup m))"
begin

lemma put_all_ok: "ok m \<Longrightarrow> ok (fold (\<lambda>(k, v). put k v) kvs m)"
  by (induction kvs arbitrary: m) (auto simp: ok_put)

lemma lookup_put_all:
  "ok m \<Longrightarrow> lookup (fold (\<lambda>(k, v). put k v) kvs m) = lookup m ++ map_of (rev kvs)"
proof (induction kvs arbitrary: m)
  case (Cons kv kvs)
  obtain k v where kv: "kv = (k, v)" by force
  have "lookup (put k v m) = (lookup m)(k \<mapsto> v)" using Cons.prems by (auto simp: lookup_put)
  with Cons.IH [OF ok_put [OF Cons.prems], of k v] kv show ?case by (simp del: fun_upd_apply)
qed simp

lemma count_put: "ok m \<Longrightarrow> count (put k v m) = (if lookup m k = None then Suc (count m) else count m)"
proof -
  assume m: "ok m"
  have "dom (lookup (put k v m)) = insert k (dom (lookup m))" using m by (auto simp: lookup_put split: if_splits)
  then show ?thesis using count_card [OF m] count_card [OF ok_put [OF m]] by (auto simp: domIff insert_absorb)
qed

lemma count_remove: "ok m \<Longrightarrow> count (remove k m) = (if lookup m k = None then count m else count m - 1)"
proof -
  assume m: "ok m"
  have "dom (lookup (remove k m)) = dom (lookup m) - {k}" using m by (auto simp: lookup_remove split: if_splits)
  then show ?thesis using count_card [OF m] count_card [OF ok_remove [OF m]] by (auto simp: domIff)
qed

end

lemma map_ok_simps [simp]: "map_ok NewMap" "map_ok s \<Longrightarrow> map_ok (Map_Put k v s)"
  "map_ok s \<Longrightarrow> map_ok (Map_Delete k s)"
  by (simp_all add: map_ok_def NewMap_def Map_Put_def Map_Delete_def distinct_update distinct_delete)

lemma Map_TryGet_Put [simp]: "Map_TryGet (Map_Put k v s) k' = (if k' = k then Some v else Map_TryGet s k')"
  by (simp add: Map_TryGet_def Map_Put_def update_conv')

lemma Map_TryGet_Delete [simp]: "Map_TryGet (Map_Delete k s) k' = (if k' = k then None else Map_TryGet s k')"
  by (simp add: Map_TryGet_def Map_Delete_def delete_conv')

lemma Map_Has_TryGet: "Map_Has s k \<longleftrightarrow> Map_TryGet s k \<noteq> None"
  by (simp add: Map_Has_def Map_TryGet_def)

lemma Map_Get_TryGet: "Map_Get z s k = (case Map_TryGet s k of None \<Rightarrow> z | Some v \<Rightarrow> v)"
  by (simp add: Map_Get_def Map_TryGet_def)

lemma Map_TryGet_NewMap [simp]: "Map_TryGet NewMap k = None"
  by (simp add: Map_TryGet_def NewMap_def)

lemma dom_map_of_fst: "dom (map_of s) = set (map fst s)"
  by (simp add: dom_map_of_conv_image_fst)

lemma in_set_update: "x \<in> set (AList.update k v s) \<Longrightarrow> x = (k, v) \<or> x \<in> set s"
  by (induction s) (auto split: if_splits)

lemma in_set_delete: "x \<in> set (AList.delete k s) \<Longrightarrow> x \<in> set s"
  by (simp add: AList.delete_eq)

interpretation gomap: map_store Map_TryGet Map_Put Map_Delete NewMap map_ok length
proof
  show "finite (dom (Map_TryGet m)) \<and> length m = card (dom (Map_TryGet m))" if "map_ok m"
    for m :: "('a \<times> 'b) list"
    using that distinct_card [of "map fst m"]
    by (simp add: Map_TryGet_def [abs_def] map_ok_def dom_map_of_conv_image_fst)
qed simp_all

interpretation goset: map_store "\<lambda>s t. if Set_Has s t then Some () else None" "\<lambda>t _. Set_Insert t" Set_Delete NewSet
  set_ok length
proof
  fix s :: "('a, bool) gomap" and k k' :: 'a
  assume s: "set_ok s"
  have has: "Set_Has s t \<longleftrightarrow> map_of s t \<noteq> None" for t
    using s by (auto simp: Set_Has_def set_ok_def split: option.splits dest: map_of_SomeD)
  show "(if Set_Has (Set_Insert k s) k' then Some () else None)
      = (if k' = k then Some v else if Set_Has s k' then Some () else None)" for v
    by (simp add: Set_Has_def Set_Insert_def update_conv')
  show "(if Set_Has (Set_Delete k s) k' then Some () else None)
      = (if k' = k then None else if Set_Has s k' then Some () else None)"
    by (simp add: Set_Has_def Set_Delete_def delete_conv')
  show "set_ok (Set_Insert k s)" using s
    by (auto simp: set_ok_def map_ok_def Set_Insert_def distinct_update dest: in_set_update)
  show "set_ok (Set_Delete k s)" using s
    by (auto simp: set_ok_def map_ok_def Set_Delete_def distinct_delete dest: in_set_delete)
  have "dom (\<lambda>t. if Set_Has s t then Some () else None) = fst ` set s"
    unfolding has dom_map_of_conv_image_fst [symmetric] by (auto split: if_splits)
  then show "finite (dom (\<lambda>t. if Set_Has s t then Some () else None)) \<and>
      length s = card (dom (\<lambda>t. if Set_Has s t then Some () else None))"
    using s distinct_card [of "map fst s"] by (simp add: set_ok_def map_ok_def)
qed (simp_all add: NewSet_def Set_Has_def set_ok_def map_ok_def)

subsection \<open>Properties\<close>

lemma length_Reverse_loop: "length (Reverse_loop i j s) = length s"
  by (induction i j s rule: Reverse_loop.induct) (subst Reverse_loop.simps, simp)

lemma Reverse_loop_nth:
  "j \<le> length s \<Longrightarrow> n < length s \<Longrightarrow>
   Reverse_loop i j s ! n = (if i \<le> n \<and> n < j then s ! (i + j - 1 - n) else s ! n)"
proof (induction i j s rule: Reverse_loop.induct)
  case (1 i j s)
  show ?case
  proof (cases "i + 1 < j")
    case True
    let ?s = "s[i := s ! (j - 1), j - 1 := s ! i]"
    have "Reverse_loop i j s ! n = Reverse_loop (i + 1) (j - 1) ?s ! n"
      using True by (simp add: Reverse_loop.simps [of i j s])
    also have "\<dots> = (if i + 1 \<le> n \<and> n < j - 1 then ?s ! (i + 1 + (j - 1) - 1 - n) else ?s ! n)"
      using "1.prems" by (intro "1.IH" [OF True]) auto
    finally have eq: "Reverse_loop i j s ! n
        = (if i + 1 \<le> n \<and> n < j - 1 then ?s ! (i + 1 + (j - 1) - 1 - n) else ?s ! n)" .
    from True obtain k where "j = Suc (i + 1 + k)" unfolding less_iff_Suc_add by blast
    then have j: "j = i + k + 2" by simp
    show ?thesis
    proof (cases "n = i \<or> n = i + k + 1")
      case True
      then show ?thesis using "1.prems" unfolding eq unfolding j by (auto simp: nth_list_update)
    next
      case False
      then have "?s ! n = s ! n" by (simp add: j)
      moreover have "?s ! (i + j - 1 - n) = s ! (i + j - 1 - n)" if "i < n" "n < i + k + 1"
        using that by (simp add: j)
      moreover have "i \<le> n \<and> n < j \<longleftrightarrow> i < n \<and> n < i + k + 1" using False by (auto simp: j)
      ultimately show ?thesis unfolding eq by (auto simp: j)
    qed
  next
    case False
    then have "i + j - 1 - n = n" if "i \<le> n \<and> n < j" using that by linarith
    moreover have "Reverse_loop i j s = s" using False by (simp add: Reverse_loop.simps [of i j s])
    ultimately show ?thesis by (cases "i \<le> n \<and> n < j") auto
  qed
qed

text \<open>The in-place swapping loop reverses the slice.\<close>

lemma Reverse_eq: "Reverse s = rev s"
proof (rule nth_equalityI)
  fix n assume "n < length (Reverse s)"
  then show "Reverse s ! n = rev s ! n"
    by (simp add: Reverse_def length_Reverse_loop Reverse_loop_nth rev_nth)
qed (simp add: Reverse_def length_Reverse_loop)

text \<open>
  After any sequence of \<^verbatim>\<open>Put\<close>s on a thread-safe map, \<^verbatim>\<open>TryGet\<close> returns the value last put under a key
  and the old value for keys that were not put; the map stays without duplicate keys.
\<close>

theorem Map_Put_sequence:
  assumes "map_ok m"
  shows "map_ok (fold (\<lambda>(k, v). Map_Put k v) kvs m) \<and>
    Map_TryGet (fold (\<lambda>(k, v). Map_Put k v) kvs m) k =
      (case map_of (rev kvs) k of None \<Rightarrow> Map_TryGet m k | Some v \<Rightarrow> Some v)"
  using gomap.put_all_ok [OF assms] gomap.lookup_put_all [OF assms] by (simp add: map_add_def)

theorem Map_Put_sequence_witness:
  "map_ok (fold (\<lambda>(k, v). Map_Put k v) [(1::nat, ''a''), (1, ''b'')] [(2, ''c'')]) \<and>
    Map_TryGet (fold (\<lambda>(k, v). Map_Put k v) [(1::nat, ''a''), (1, ''b'')] [(2, ''c'')]) 1 =
      (case map_of (rev [(1::nat, ''a''), (1, ''b'')]) 1 of None \<Rightarrow> Map_TryGet [(2::nat, ''c'')] 1 | Some v \<Rightarrow> Some v)"
  by (rule Map_Put_sequence) (simp add: map_ok_def)

end
