(* ===== verification/Protocol.thy ===== *)
theory Protocol
  imports Containers
begin

text \<open>
  \<^verbatim>\<open>chain-abstraction/interfaces.go\<close> and \<^verbatim>\<open>execution_state.go\<close>: the protocol's data types, challenge levels
  and their names, execution states and their hashes. A hash type \<open>'h\<close> stands for \<^verbatim>\<open>common.Hash\<close> and for
  the identifier types made of one (edge, mutual, origin and claim ids, assertion hashes).
  \<open>bytes\<close> is \<^verbatim>\<open>Hash.Bytes\<close> and \<open>keccak256\<close> is \<^verbatim>\<open>crypto.Keccak256Hash\<close> on the concatenated bytes; both are
  parameters.
\<close>

subsection \<open>Execution states\<close>

record 'h GoGlobalState =
  BlockHash :: 'h
  SendRoot :: 'h
  Batch :: uint64
  PosInBatch :: uint64

text \<open>The two-element arrays of the Solidity struct are pairs.\<close>

record 'h SolGlobalState =
  Bytes32Vals :: "'h \<times> 'h"
  U64Vals :: "uint64 \<times> uint64"

record 'h SolExecutionState =
  sol_GlobalState :: "'h SolGlobalState"
  sol_MachineStatus :: uint8

definition GoGlobalStateFromSolidity :: "'h SolGlobalState \<Rightarrow> 'h GoGlobalState" where
  "GoGlobalStateFromSolidity g =
     \<lparr>BlockHash = fst (Bytes32Vals g), SendRoot = snd (Bytes32Vals g),
      Batch = fst (U64Vals g), PosInBatch = snd (U64Vals g)\<rparr>"

text \<open>\<^verbatim>\<open>binary.BigEndian.PutUint64\<close>: the bytes from the highest to the lowest.\<close>

definition u64ToBe :: "uint64 \<Rightarrow> uint8 list" where
  "u64ToBe x = map (\<lambda>i. ucast (drop_bit (8 * (7 - i)) x)) [0..<8]"

definition ascii :: "string \<Rightarrow> uint8 list" where
  "ascii s = map of_char s"

definition global_state_data :: "('h \<Rightarrow> uint8 list) \<Rightarrow> 'h GoGlobalState \<Rightarrow> uint8 list" where
  "global_state_data bytes s =
     (let data = ascii ''Global state:'';
          data = data @ bytes (BlockHash s);
          data = data @ bytes (SendRoot s);
          data = data @ u64ToBe (Batch s);
          data = data @ u64ToBe (PosInBatch s)
      in data)"

definition GoGlobalState_Hash ::
    "('h \<Rightarrow> uint8 list) \<Rightarrow> (uint8 list \<Rightarrow> 'h) \<Rightarrow> 'h GoGlobalState \<Rightarrow> 'h" where
  "GoGlobalState_Hash bytes keccak256 s = keccak256 (global_state_data bytes s)"

definition GoGlobalState_AsSolidityStruct :: "'h GoGlobalState \<Rightarrow> 'h SolGlobalState" where
  "GoGlobalState_AsSolidityStruct s =
     \<lparr>Bytes32Vals = (BlockHash s, SendRoot s), U64Vals = (Batch s, PosInBatch s)\<rparr>"

definition GoGlobalState_Equals :: "'h GoGlobalState \<Rightarrow> 'h GoGlobalState \<Rightarrow> bool" where
  "GoGlobalState_Equals s other \<longleftrightarrow> s = other"

type_synonym MachineStatus = uint8

definition MachineStatusRunning :: MachineStatus where "MachineStatusRunning = 0"

definition MachineStatusFinished :: MachineStatus where "MachineStatusFinished = 1"

definition MachineStatusErrored :: MachineStatus where "MachineStatusErrored = 2"

record 'h ExecutionState =
  GlobalState :: "'h GoGlobalState"
  MachineStatus :: MachineStatus

definition ComputeSimpleMachineChallengeHash ::
    "('h \<Rightarrow> uint8 list) \<Rightarrow> (uint8 list \<Rightarrow> 'h) \<Rightarrow> 'h ExecutionState \<Rightarrow> 'h" where
  "ComputeSimpleMachineChallengeHash bytes keccak256 execState =
     GoGlobalState_Hash bytes keccak256 (GlobalState execState)"

definition GoExecutionStateFromSolidity :: "'h SolExecutionState \<Rightarrow> 'h ExecutionState" where
  "GoExecutionStateFromSolidity e =
     \<lparr>GlobalState = GoGlobalStateFromSolidity (sol_GlobalState e), MachineStatus = sol_MachineStatus e\<rparr>"

definition ExecutionState_AsSolidityStruct :: "'h ExecutionState \<Rightarrow> 'h SolExecutionState" where
  "ExecutionState_AsSolidityStruct s =
     \<lparr>sol_GlobalState = GoGlobalState_AsSolidityStruct (GlobalState s), sol_MachineStatus = MachineStatus s\<rparr>"

definition ExecutionState_Equals :: "'h ExecutionState \<Rightarrow> 'h ExecutionState \<Rightarrow> bool" where
  "ExecutionState_Equals s other \<longleftrightarrow>
     MachineStatus s = MachineStatus other \<and> GoGlobalState_Equals (GlobalState s) (GlobalState other)"

definition RequiredBatches :: "'h ExecutionState \<Rightarrow> uint64" where
  "RequiredBatches s =
     (let count = Batch (GlobalState s) in
      if (MachineStatus s = MachineStatusErrored \<or> PosInBatch (GlobalState s) > 0) \<and> count < - 1
      then count + 1 else count)"

subsection \<open>Assertions\<close>

datatype AssertionStatus = NoAssertion | AssertionPending | AssertionConfirmed

text \<open>The fields of \<^verbatim>\<open>AssertionCreatedInfo\<close>; big integers are naturals, addresses are of type \<open>'a\<close>.\<close>

record ('h, 'a) AssertionCreatedInfo =
  ConfirmPeriodBlocks :: uint64
  RequiredStake :: nat
  ParentAssertionHash :: 'h
  BeforeState :: "'h SolExecutionState"
  AfterState :: "'h SolExecutionState"
  InboxMaxCount :: nat
  AfterInboxBatchAcc :: 'h
  AssertionHash :: 'h
  WasmModuleRoot :: 'h
  ChallengeManager :: 'a
  TransactionHash :: 'h
  CreationBlock :: uint64

definition ExecutionHash ::
    "('h \<Rightarrow> uint8 list) \<Rightarrow> (uint8 list \<Rightarrow> 'h) \<Rightarrow> ('h, 'a) AssertionCreatedInfo \<Rightarrow> 'h" where
  "ExecutionHash bytes keccak256 i =
     (let afterGlobalStateHash =
            GoGlobalState_Hash bytes keccak256 (GoGlobalStateFromSolidity (sol_GlobalState (AfterState i)))
      in keccak256 ([sol_MachineStatus (AfterState i)] @ bytes afterGlobalStateHash))"

subsection \<open>Challenge levels\<close>

type_synonym ChallengeLevel = uint8

definition NewBlockChallengeLevel :: ChallengeLevel where
  "NewBlockChallengeLevel = 0"

definition IsBlockChallengeLevel :: "ChallengeLevel \<Rightarrow> bool" where
  "IsBlockChallengeLevel et \<longleftrightarrow> et = 0"

definition ChallengeLevel_Next :: "ChallengeLevel \<Rightarrow> ChallengeLevel" where
  "ChallengeLevel_Next et = et + 1"

text \<open>\<^verbatim>\<open>%d\<close> of a natural number.\<close>

fun decimal :: "nat \<Rightarrow> string" where
  "decimal n = (if n < 10 then [char_of (48 + n)] else decimal (n div 10) @ [char_of (48 + n mod 10)])"

declare decimal.simps [simp del]

definition ChallengeLevel_String :: "ChallengeLevel \<Rightarrow> string" where
  "ChallengeLevel_String et =
     (if et = 0 then ''block_challenge_edge'' else ''challenge_level_'' @ decimal (unat et) @ ''_edge'')"

text \<open>
  \<^verbatim>\<open>regexp.MustCompile("[0-9]+").FindString\<close> returns the first run of digits, \<^verbatim>\<open>strconv.Atoi\<close> its value;
  no digits and values above the range of \<^verbatim>\<open>int\<close> are errors.
\<close>

definition is_digit :: "char \<Rightarrow> bool" where
  "is_digit c \<longleftrightarrow> 48 \<le> (of_char c :: nat) \<and> (of_char c :: nat) \<le> 57"

definition find_digits :: "string \<Rightarrow> string" where
  "find_digits s = takeWhile is_digit (dropWhile (\<lambda>c. \<not> is_digit c) s)"

definition digits_value :: "string \<Rightarrow> nat" where
  "digits_value s = foldl (\<lambda>n c. 10 * n + (of_char c - 48)) 0 s"

definition Atoi :: "string \<Rightarrow> nat res" where
  "Atoi s =
     (if s = [] then Inl (ErrMsg ''invalid syntax'')
      else if digits_value s \<ge> 2 ^ 63 then Inl (ErrMsg ''value out of range'')
      else Inr (digits_value s))"

definition ChallengeLevelFromString :: "string \<Rightarrow> ChallengeLevel res" where
  "ChallengeLevelFromString s =
     (if s = ''block_challenge_edge'' then Inr 0
      else bindR (Atoi (find_digits s)) (\<lambda>challengeLevel. Inr (of_nat challengeLevel)))"

subsection \<open>Edges and agreements\<close>

record Agreement =
  AgreesWithStartCommit :: bool
  IsHonestEdge :: bool

text \<open>\<^verbatim>\<open>EdgePending\<close>, \<^verbatim>\<open>EdgeConfirmed\<close> and the values that are neither.\<close>

datatype EdgeStatus = StatusPending | StatusConfirmed | StatusOther uint8

definition EdgeStatus_String :: "EdgeStatus \<Rightarrow> string" where
  "EdgeStatus_String e =
     (case e of StatusPending \<Rightarrow> ''pending'' | StatusConfirmed \<Rightarrow> ''confirmed'' | StatusOther _ \<Rightarrow> ''unknown'')"

record 'h OneStepData =
  BeforeHash :: 'h
  AfterHash :: 'h
  OspProof :: "uint8 list"

text \<open>
  What an edge knows of itself without reading the chain (\<^verbatim>\<open>ReadOnlyEdge\<close>). The methods that read the
  chain are arguments of the operations that call them.
\<close>

record 'h Edge =
  EdgeId :: 'h
  GetChallengeLevel :: ChallengeLevel
  GetReversedChallengeLevel :: ChallengeLevel
  StartCommitment :: "uint64 \<times> 'h"
  EndCommitment :: "uint64 \<times> 'h"
  CreatedAtBlock :: "uint64 res"
  MutualId :: 'h
  OriginId :: 'h
  ClaimId :: "'h option"

text \<open>The methods of \<^verbatim>\<open>ReadOnlyEdge\<close> that read the chain, as the answers for every edge id.\<close>

record 'h EdgeReader =
  HasConfirmedRival :: "'h \<Rightarrow> bool res"
  HasChildren :: "'h \<Rightarrow> bool res"
  LowerChild :: "'h \<Rightarrow> 'h option res"
  UpperChild :: "'h \<Rightarrow> 'h option res"
  TopLevelAssertionHash :: "'h \<Rightarrow> 'h res"
  TimeUnrivaled :: "'h \<Rightarrow> uint64 res"
  HasRival :: "'h \<Rightarrow> bool res"
  Status :: "'h \<Rightarrow> EdgeStatus res"
  HasLengthOneRival :: "'h \<Rightarrow> bool res"
  TopLevelClaimHeight :: "'h \<Rightarrow> uint64 list res"

subsection \<open>Hashing and names\<close>

lemma u64ToBe_nth: "i < 8 \<Longrightarrow> u64ToBe x ! i = ucast (drop_bit (8 * (7 - i)) x)"
  by (simp add: u64ToBe_def)

lemma length_u64ToBe [simp]: "length (u64ToBe x) = 8"
  by (simp add: u64ToBe_def)

lemma u64ToBe_inject: "u64ToBe x = u64ToBe y \<longleftrightarrow> x = y"
proof
  assume eq: "u64ToBe x = u64ToBe y"
  show "x = y"
  proof (rule bit_word_eqI)
    fix n assume "n < LENGTH(64)"
    then have n: "n < 64" by simp
    define i where "i = 7 - n div 8"
    have "n div 8 \<le> 7" using n by simp
    then have i: "i < 8" "8 * (7 - i) + n mod 8 = n" by (auto simp: i_def)
    have "bit (u64ToBe x ! i) (n mod 8) = bit (u64ToBe y ! i) (n mod 8)" using eq by simp
    moreover have "bit (u64ToBe z ! i) (n mod 8) = bit z n" for z
      using i by (simp add: u64ToBe_nth bit_simps)
    ultimately show "bit x n = bit y n" by simp
  qed
qed simp

lemma decimal_digits: "\<forall>c\<in>set (decimal n). is_digit c"
proof (induction n rule: decimal.induct)
  case (1 n)
  then show ?case by (subst decimal.simps) (auto simp: is_digit_def of_char_of take_bit_eq_mod)
qed

lemma decimal_nonempty: "decimal n \<noteq> []"
  by (subst decimal.simps) simp

lemma digits_value_decimal: "digits_value (decimal n) = n"
proof (induction n rule: decimal.induct)
  case (1 n)
  then show ?case
    by (subst decimal.simps) (auto simp: digits_value_def of_char_of)
qed

lemma find_digits_name: "find_digits (''challenge_level_'' @ decimal n @ ''_edge'') = decimal n"
proof -
  let ?d = "decimal n @ ''_edge''"
  have "dropWhile (\<lambda>c. \<not> is_digit c) (''challenge_level_'' @ ?d) = dropWhile (\<lambda>c. \<not> is_digit c) ?d"
    by (intro dropWhile_append2) (auto simp: is_digit_def)
  also have "\<dots> = ?d"
    using decimal_nonempty [of n] decimal_digits [of n] by (cases "decimal n") auto
  finally show ?thesis
    using decimal_digits [of n] by (simp add: find_digits_def takeWhile_append is_digit_def [of "CHR ''_''"])
qed

subsection \<open>Properties\<close>

text \<open>
  Every challenge level is read back from its name.
\<close>

theorem ChallengeLevel_round_trip: "ChallengeLevelFromString (ChallengeLevel_String et) = Inr et"
proof (cases "et = 0")
  case True
  then show ?thesis by (simp add: ChallengeLevelFromString_def ChallengeLevel_String_def)
next
  case False
  have "unat et < 2 ^ 8" using unsigned_less [of et] by simp
  then have "unat et < 2 ^ 63" by simp
  with False find_digits_name [of "unat et"] show ?thesis
    by (simp add: ChallengeLevelFromString_def ChallengeLevel_String_def Atoi_def decimal_nonempty
        digits_value_decimal)
qed

text \<open>
  The hash of a global state determines it: the hashed bytes hold every field at a fixed place, so two
  global states with the same hash are equal unless their bytes are a collision of the hash function.
\<close>

theorem GoGlobalState_Hash_binding:
  assumes "inj bytes" "\<forall>h. length (bytes h) = 32"
    and "GoGlobalState_Hash bytes keccak256 s = GoGlobalState_Hash bytes keccak256 t"
    and "inj_on keccak256 {global_state_data bytes s, global_state_data bytes t}"
  shows "GoGlobalState_Equals s t"
proof -
  have "global_state_data bytes s = global_state_data bytes t"
    using assms(3) by (intro inj_onD [OF assms(4)]) (simp_all add: GoGlobalState_Hash_def)
  then have "bytes (BlockHash s) @ bytes (SendRoot s) @ u64ToBe (Batch s) @ u64ToBe (PosInBatch s) =
        bytes (BlockHash t) @ bytes (SendRoot t) @ u64ToBe (Batch t) @ u64ToBe (PosInBatch t)"
    by (simp add: global_state_data_def Let_def)
  then have "bytes (BlockHash s) = bytes (BlockHash t)" "bytes (SendRoot s) = bytes (SendRoot t)"
    "u64ToBe (Batch s) = u64ToBe (Batch t)" "u64ToBe (PosInBatch s) = u64ToBe (PosInBatch t)"
    using assms(2) by (auto simp: append_eq_append_conv)
  then have "BlockHash s = BlockHash t" "SendRoot s = SendRoot t" "Batch s = Batch t" "PosInBatch s = PosInBatch t"
    using assms(1) by (auto simp: inj_eq u64ToBe_inject)
  then show ?thesis by (simp add: GoGlobalState_Equals_def)
qed

theorem GoGlobalState_Hash_binding_witness:
  "GoGlobalState_Equals \<lparr>BlockHash = 7 :: uint8, SendRoot = 9, Batch = 3, PosInBatch = 0\<rparr>
     \<lparr>BlockHash = 7, SendRoot = 9, Batch = 3, PosInBatch = 0\<rparr>"
  by (rule GoGlobalState_Hash_binding [of "\<lambda>h :: uint8. replicate 31 0 @ [h]" "\<lambda>data. last data"])
    (simp_all add: inj_def)

text \<open>
  C18. \<^verbatim>\<open>RequiredBatches\<close> is the batch count of the state, plus one exactly when the current batch has been read
  (the machine errored or stands inside the batch), and saturates instead of wrapping around.
\<close>

theorem RequiredBatches_saturates:
  "unat (RequiredBatches s) =
     (if MachineStatus s = MachineStatusErrored \<or> 0 < PosInBatch (GlobalState s)
      then min (unat (Batch (GlobalState s)) + 1) (2 ^ 64 - 1) else unat (Batch (GlobalState s)))"
proof -
  let ?b = "Batch (GlobalState s)"
  have max: "unat (- 1 :: uint64) = 2 ^ 64 - 1" by (simp add: unsigned_minus_1_eq_mask mask_eq_exp_minus_1)
  define read where "read \<longleftrightarrow> MachineStatus s = MachineStatusErrored \<or> 0 < PosInBatch (GlobalState s)"
  have req: "RequiredBatches s = (if read \<and> ?b < - 1 then ?b + 1 else ?b)"
    by (simp add: RequiredBatches_def Let_def read_def)
  have "unat (?b + 1) = unat ?b + 1" if "?b < - 1"
    using that max unat_lt64 [of ?b] by (simp add: word_less_nat_alt unat_word_ariths)
  moreover have "unat ?b = 2 ^ 64 - 1" if "\<not> ?b < - 1"
    using that max unat_lt64 [of ?b] by (simp add: word_less_nat_alt)
  moreover have "unat ?b < 2 ^ 64 - 1" if "?b < - 1" using that max by (simp add: word_less_nat_alt)
  ultimately show ?thesis
    unfolding req read_def [symmetric] by (cases read; cases "?b < - 1") (simp_all add: min_def)
qed

end
