(* ===== verification/State_Provider.thy ===== *)
theory State_Provider
  imports Protocol History_Commitment Prefix_Correctness
begin

text \<open>
  \<^verbatim>\<open>layer2-state-provider\<close>: the requests for history commitments and the provider that turns the hashes it
  gets from the machine and message collectors into commitments, prefix proofs and one step proofs.
  The collectors are interfaces whose implementations are outside the repository, so they are
  fields of the provider; ABI packing is an argument.
\<close>

subsection \<open>Requests\<close>

record 'h HistoryCommitmentRequest =
  Req_WasmModuleRoot :: 'h
  FromBatch :: uint64
  ToBatch :: uint64
  UpperChallengeOriginHeights :: "uint64 list"
  FromHeight :: uint64
  UpToHeight :: "uint64 option"

text \<open>\<^verbatim>\<open>l2stateprovider.History\<close>.\<close>

record 'h L2History =
  l2_Height :: uint64
  MerkleRoot :: 'h

record 'h HashCollectorConfig =
  Cfg_WasmModuleRoot :: 'h
  Cfg_FromBatch :: uint64
  BlockChallengeHeight :: uint64
  StepHeights :: "uint64 list"
  NumDesiredHashes :: uint64
  MachineStartIndex :: uint64
  StepSize :: uint64

record 'h HistoryCommitmentProvider =
  L2MessageStatesUpTo :: "uint64 \<Rightarrow> uint64 option \<Rightarrow> uint64 \<Rightarrow> uint64 \<Rightarrow> 'h list res"
  CollectMachineHashes :: "'h HashCollectorConfig \<Rightarrow> 'h list res"
  CollectProof :: "'h \<Rightarrow> uint64 \<Rightarrow> uint64 \<Rightarrow> uint64 \<Rightarrow> uint8 list res"
  challengeLeafHeights :: "uint64 list"

subsection \<open>Levels, step sizes and machine indices\<close>

definition validateOriginHeights :: "'h HistoryCommitmentProvider \<Rightarrow> uint64 list \<Rightarrow> uint64 list res" where
  "validateOriginHeights p upperChallengeOriginHeights =
     (if int (length upperChallengeOriginHeights) > int (length (challengeLeafHeights p)) - 1
      then Inl (ErrMsg ''challenge level %d is out of range for challenge leaf heights %v'')
      else Inr upperChallengeOriginHeights)"

definition deepestRequestedChallengeLevel :: "uint64 list \<Rightarrow> uint64" where
  "deepestRequestedChallengeLevel requestedHeights = of_nat (length requestedHeights)"

definition leafHeightAtChallengeLevel :: "'h HistoryCommitmentProvider \<Rightarrow> uint64 \<Rightarrow> uint64 res" where
  "leafHeightAtChallengeLevel p challengeLevel =
     (if challengeLevel \<ge> of_nat (length (challengeLeafHeights p))
      then Inl (ErrMsg ''challenge level %d is out of range for challenge leaf heights %v'')
      else index_at (challengeLeafHeights p) (unat challengeLevel))"

definition numberOfChallengeLevels :: "'h HistoryCommitmentProvider \<Rightarrow> uint64" where
  "numberOfChallengeLevels p = of_nat (length (challengeLeafHeights p))"

definition computeRequiredNumberOfHashes ::
    "'h HistoryCommitmentProvider \<Rightarrow> uint64 \<Rightarrow> uint64 \<Rightarrow> uint64 option \<Rightarrow> uint64 res" where
  "computeRequiredNumberOfHashes p challengeLevel fromHeight upToHeight =
     bindR (leafHeightAtChallengeLevel p challengeLevel) (\<lambda>maxHeightForLevel.
     bindR (case upToHeight of
              None \<Rightarrow> Inr maxHeightForLevel
            | Some end' \<Rightarrow>
                if end' > maxHeightForLevel then Inl (ErrMsg ''end %d was greater than max height for level %d'')
                else Inr end') (\<lambda>end'.
       if end' < fromHeight then Inl (ErrMsg ''invalid range: end %d was < start %d'')
       else Inr (end' - fromHeight + 1)))"

text \<open>The big integers of \<^verbatim>\<open>computeMachineStartIndex\<close> are natural numbers.\<close>

fun machine_index_loop :: "uint64 list \<Rightarrow> nat \<Rightarrow> nat \<Rightarrow> uint64 list \<Rightarrow> nat" where
  "machine_index_loop leafHeights idx opcodeIndex [] = opcodeIndex"
| "machine_index_loop leafHeights idx opcodeIndex (height # heights) =
     (let total = foldl (\<lambda>total h. total * unat h) 1 (drop idx leafHeights);
          increase = total * unat height
      in machine_index_loop leafHeights (idx + 1) (opcodeIndex + increase) heights)"

definition computeMachineStartIndex ::
    "'h HistoryCommitmentProvider \<Rightarrow> uint64 list \<Rightarrow> uint64 \<Rightarrow> uint64 res" where
  "computeMachineStartIndex p upperChallengeOriginHeights fromHeight =
     (if length upperChallengeOriginHeights = 0 then Inr 0
      else bindR (slice_from upperChallengeOriginHeights 1) (\<lambda>heights.
           bindR (slice_from (challengeLeafHeights p) 1) (\<lambda>leafHeights.
             let opcodeIndex = machine_index_loop leafHeights 1 0 (heights @ [fromHeight])
             in if \<not> opcodeIndex < 2 ^ 64
                then Inl (ErrMsg ''computed machine start index overflows uint64: %s'')
                else Inr (of_nat opcodeIndex))))"

definition computeStepSize :: "'h HistoryCommitmentProvider \<Rightarrow> uint64 \<Rightarrow> uint64 res" where
  "computeStepSize p challengeLevel =
     (if challengeLevel + 1 = numberOfChallengeLevels p then Inr 1
      else bindR (slice_from (challengeLeafHeights p) (challengeLevel + 1)) (\<lambda>levels.
        Inr (foldl (\<lambda>total h. total * h) 1 levels)))"

subsection \<open>History commitments\<close>

definition historyCommitmentImpl ::
    "'h HistoryCommitmentProvider \<Rightarrow> 'h HistoryCommitmentRequest \<Rightarrow> 'h list res" where
  "historyCommitmentImpl p req =
     bindR (validateOriginHeights p (UpperChallengeOriginHeights req)) (\<lambda>validatedHeights.
       if length validatedHeights = 0 then
         L2MessageStatesUpTo p (FromHeight req) (UpToHeight req) (FromBatch req) (ToBatch req)
       else
         let fromBlockChallengeHeight = validatedHeights ! 0;
             desiredChallengeLevel = deepestRequestedChallengeLevel validatedHeights
         in bindR (computeMachineStartIndex p validatedHeights (FromHeight req)) (\<lambda>machineStartIndex.
            bindR (computeStepSize p desiredChallengeLevel) (\<lambda>stepSize.
            bindR (computeRequiredNumberOfHashes p desiredChallengeLevel (FromHeight req) (UpToHeight req)) (\<lambda>numHashes.
              CollectMachineHashes p
                \<lparr>Cfg_WasmModuleRoot = Req_WasmModuleRoot req, Cfg_FromBatch = FromBatch req,
                 BlockChallengeHeight = fromBlockChallengeHeight, StepHeights = drop 1 validatedHeights,
                 NumDesiredHashes = numHashes, MachineStartIndex = machineStartIndex, StepSize = stepSize\<rparr>))))"

definition HistoryCommitment ::
    "('h::zero list \<Rightarrow> 'h) \<Rightarrow> go_runtime \<Rightarrow> 'h HistoryCommitmentProvider \<Rightarrow> 'h HistoryCommitmentRequest \<Rightarrow> 'h History res" where
  "HistoryCommitment keccak rt p req = bindR (historyCommitmentImpl p req) (History_New keccak rt)"

definition AgreesWithHistoryCommitment ::
    "('h::zero list \<Rightarrow> 'h) \<Rightarrow> go_runtime \<Rightarrow> 'h HistoryCommitmentProvider \<Rightarrow> ChallengeLevel \<Rightarrow>
     'h HistoryCommitmentRequest \<Rightarrow> 'h L2History \<Rightarrow> bool res" where
  "AgreesWithHistoryCommitment keccak rt p challengeLevel historyCommitMetadata commit =
     bindR (if challengeLevel = NewBlockChallengeLevel then
              HistoryCommitment keccak rt p
                \<lparr>Req_WasmModuleRoot = Req_WasmModuleRoot historyCommitMetadata,
                 FromBatch = FromBatch historyCommitMetadata, ToBatch = ToBatch historyCommitMetadata,
                 UpperChallengeOriginHeights = [], FromHeight = FromHeight historyCommitMetadata,
                 UpToHeight = Some (FromHeight historyCommitMetadata + l2_Height commit)\<rparr>
            else
              HistoryCommitment keccak rt p
                \<lparr>Req_WasmModuleRoot = Req_WasmModuleRoot historyCommitMetadata,
                 FromBatch = FromBatch historyCommitMetadata, ToBatch = ToBatch historyCommitMetadata,
                 UpperChallengeOriginHeights = UpperChallengeOriginHeights historyCommitMetadata,
                 FromHeight = 0, UpToHeight = Some (l2_Height commit)\<rparr>)
       (\<lambda>localCommit. Inr (Height localCommit = l2_Height commit \<and> Merkle localCommit = MerkleRoot commit))"

subsection \<open>Prefix proofs and one step proofs\<close>

text \<open>
  \<open>None\<close> stands for a run that does not end, which \<^verbatim>\<open>MerkleExpansionFromCompact\<close> may cause; \<open>pack\<close> is
  \<^verbatim>\<open>ProofArgs.Pack\<close>.
\<close>

definition PrefixProofImpl ::
    "('h::zero list \<Rightarrow> 'h) \<Rightarrow> go_runtime \<Rightarrow> ('h list \<Rightarrow> 'h list \<Rightarrow> uint8 list res) \<Rightarrow> 'h list \<Rightarrow>
     uint64 \<Rightarrow> uint64 \<Rightarrow> uint8 list res option" where
  "PrefixProofImpl keccak rt pack leaves lowCommitmentNumLeaves highCommitmentNumLeaves =
     (case bindR (slice_to leaves lowCommitmentNumLeaves) (\<lambda>lowLeaves.
           bindR (ExpansionFromLeaves keccak lowLeaves) (\<lambda>prefixExpansion.
           bindR (slice_to leaves highCommitmentNumLeaves) (\<lambda>highLeaves.
           bindR (slice_from highLeaves lowCommitmentNumLeaves) (\<lambda>rest.
           bindR (GeneratePrefixProof lowCommitmentNumLeaves prefixExpansion rest (RootFetcherFromExpansion keccak)) (\<lambda>prefixProof.
           bindR (History_New keccak rt highLeaves) (\<lambda>bigCommit.
           bindR (History_New keccak rt lowLeaves) (\<lambda>prefixCommit.
             Inr (prefixExpansion, prefixProof, bigCommit, prefixCommit)))))))) of
        Inl e \<Rightarrow> Some (Inl e)
      | Inr (prefixExpansion, prefixProof, bigCommit, prefixCommit) \<Rightarrow>
          (case MerkleExpansionFromCompact prefixProof lowCommitmentNumLeaves of
             None \<Rightarrow> None
           | Some r \<Rightarrow> Some (bindR r (\<lambda>(_, numRead).
               bindR (slice_from prefixProof numRead) (\<lambda>onlyProof.
               bindR (VerifyPrefixProof keccak
                        \<lparr>PreRoot = Merkle prefixCommit, PreSize = lowCommitmentNumLeaves,
                         PostRoot = Merkle bigCommit, PostSize = highCommitmentNumLeaves,
                         PreExpansion = prefixExpansion, PrefixProof = onlyProof\<rparr>) (\<lambda>_.
                 pack prefixExpansion onlyProof))))))"

definition ProvePrefix ::
    "('h::zero list \<Rightarrow> 'h) \<Rightarrow> go_runtime \<Rightarrow> ('h list \<Rightarrow> 'h list \<Rightarrow> uint8 list res) \<Rightarrow>
     'h HistoryCommitmentProvider \<Rightarrow> 'h HistoryCommitmentRequest \<Rightarrow> uint64 \<Rightarrow> uint8 list res option" where
  "ProvePrefix keccak rt pack p req prefixHeight =
     (case historyCommitmentImpl p req of
        Inl e \<Rightarrow> Some (Inl e)
      | Inr leaves \<Rightarrow>
          let lowCommitmentNumLeaves = prefixHeight + 1 in
          case (case UpToHeight req of
                  None \<Rightarrow> Inr (of_nat (length leaves))
                | Some upTo \<Rightarrow>
                    if upTo < FromHeight req then Inl (ErrMsg ''invalid range: end %d was < start %d'')
                    else Inr (upTo - FromHeight req + 1)) of
            Inl e \<Rightarrow> Some (Inl e)
          | Inr highCommitmentNumLeaves \<Rightarrow>
              if highCommitmentNumLeaves > of_nat (length leaves)
              then Some (Inl (ErrMsg ''high prefix size out of bounds, got %d, leaves length %d''))
              else if lowCommitmentNumLeaves > highCommitmentNumLeaves
              then Some (Inl (ErrMsg ''low prefix size %d was greater than high prefix size %d''))
              else PrefixProofImpl keccak rt pack leaves lowCommitmentNumLeaves highCommitmentNumLeaves)"

definition OneStepProofData ::
    "('h::zero list \<Rightarrow> 'h) \<Rightarrow> go_runtime \<Rightarrow> 'h HistoryCommitmentProvider \<Rightarrow> 'h \<Rightarrow> uint64 \<Rightarrow> uint64 \<Rightarrow>
     uint64 list \<Rightarrow> uint64 \<Rightarrow> uint64 \<Rightarrow> ('h OneStepData \<times> 'h list \<times> 'h list) res" where
  "OneStepProofData keccak rt p wasmModuleRoot fromBatch toBatch startHeights fromHeight upToHeight =
     (if length startHeights < 1
      then Inl (ErrMsg ''upper challenge origin heights must have at least length 1, got %d'')
      else
        let req = (\<lambda>upTo. \<lparr>Req_WasmModuleRoot = wasmModuleRoot, FromBatch = fromBatch, ToBatch = toBatch,
                            UpperChallengeOriginHeights = startHeights, FromHeight = fromHeight,
                            UpToHeight = Some upTo\<rparr>) in
        bindR (HistoryCommitment keccak rt p (req (upToHeight + 1))) (\<lambda>endCommit.
        bindR (HistoryCommitment keccak rt p (req upToHeight)) (\<lambda>startCommit.
        bindR (computeMachineStartIndex p startHeights fromHeight) (\<lambda>machineIndex.
        bindR (CollectProof p wasmModuleRoot fromBatch (startHeights ! 0) (machineIndex + upToHeight)) (\<lambda>osp.
          Inr (\<lparr>BeforeHash = LastLeaf startCommit, AfterHash = LastLeaf endCommit, OspProof = osp\<rparr>,
               LastLeafProof startCommit, LastLeafProof endCommit))))))"

subsection \<open>Machine indices as mixed-radix numbers\<close>

definition heights_product :: "uint64 list \<Rightarrow> nat" where
  "heights_product hs = prod_list (map unat hs)"

lemma heights_product_Cons: "heights_product (h # hs) = unat h * heights_product hs"
  by (simp add: heights_product_def)

lemma foldl_times_nat: "foldl (\<lambda>total h. total * unat h) (a :: nat) hs = a * heights_product hs"
  by (induction hs arbitrary: a) (auto simp: heights_product_def)

lemma foldl_times_word: "foldl (\<lambda>total h. total * h) (a :: uint64) hs = a * of_nat (heights_product hs)"
  by (induction hs arbitrary: a) (auto simp: heights_product_def)

lemma machine_index_loop_snoc:
  "machine_index_loop L idx acc (hs @ [h]) =
     machine_index_loop L idx acc hs + heights_product (drop (idx + length hs) L) * unat h"
  by (induction hs arbitrary: idx acc) (auto simp: Let_def foldl_times_nat)

lemma computeMachineStartIndex_eq:
  assumes "hs \<noteq> []" "challengeLeafHeights p \<noteq> []"
  shows "computeMachineStartIndex p hs h =
    (let n = machine_index_loop (drop 1 (challengeLeafHeights p)) 1 0 (drop 1 hs) +
             heights_product (drop (length hs + 1) (challengeLeafHeights p)) * unat h
     in if n < 2 ^ 64 then Inr (of_nat n)
        else Inl (ErrMsg ''computed machine start index overflows uint64: %s''))"
proof -
  have len: "1 + length (drop 1 hs) = length hs" using assms(1) by (cases hs) auto
  have "Suc 0 \<le> length hs" "Suc 0 \<le> length (challengeLeafHeights p)"
    using assms by (simp_all add: Suc_le_eq)
  with assms len show ?thesis
    by (simp add: computeMachineStartIndex_def slice_from_def machine_index_loop_snoc Let_def)
qed

lemma computeStepSize_eq:
  assumes "k < length (challengeLeafHeights p)" "length (challengeLeafHeights p) < 2 ^ 64"
  shows "computeStepSize p (of_nat k) = Inr (of_nat (heights_product (drop (k + 1) (challengeLeafHeights p))))"
proof -
  let ?L = "challengeLeafHeights p"
  have u: "of_nat k + 1 = (of_nat (k + 1) :: uint64)" "unat (of_nat (k + 1) :: uint64) = k + 1"
    using assms by (simp, simp add: unat_of_nat64 del: of_nat_Suc of_nat_add)
  have "of_nat (k + 1) = (of_nat (length ?L) :: uint64) \<longleftrightarrow> k + 1 = length ?L"
    using assms by (intro of_nat64_eq_iff) auto
  then show ?thesis
    unfolding computeStepSize_def numberOfChallengeLevels_def u
    using assms u(2) by (auto simp: slice_from_def foldl_times_word heights_product_def)
qed

subsection \<open>Properties\<close>

text \<open>
  A subchallenge starts where it was opened: the machine index of the first leaf of the level below
  a step at height \<open>h\<close> is the machine index of that step in the level above.
\<close>

theorem subchallenge_starts_at_parent:
  assumes "hs \<noteq> []" "challengeLeafHeights p \<noteq> []"
  shows "computeMachineStartIndex p (hs @ [h]) 0 = computeMachineStartIndex p hs h"
proof -
  obtain b t where "hs = b # t" using assms(1) by (cases hs) auto
  with assms show ?thesis
    by (simp add: computeMachineStartIndex_eq machine_index_loop_snoc Let_def)
qed

definition example_provider :: "sym HistoryCommitmentProvider" where
  "example_provider =
     \<lparr>L2MessageStatesUpTo = (\<lambda>_ _ _ _. Inr [Atom 1, Atom 2, Atom 3, Atom 4]),
      CollectMachineHashes = (\<lambda>cfg. Inr (map (\<lambda>i. Atom (unat (MachineStartIndex cfg) + i * unat (StepSize cfg)))
        [0..<unat (NumDesiredHashes cfg)])),
      CollectProof = (\<lambda>_ _ _ _. Inr []), challengeLeafHeights = [32, 1024, 8]\<rparr>"

theorem subchallenge_starts_at_parent_witness:
  "computeMachineStartIndex example_provider ([12] @ [3]) 0 = computeMachineStartIndex example_provider [12] 3"
  by (rule subchallenge_starts_at_parent) (simp_all add: example_provider_def)

text \<open>
  Within a level, the machine indices of consecutive heights are one step size of the level apart, and
  a step of the level is as many opcodes as all the steps of the next level together.
\<close>

theorem machine_index_step:
  assumes "hs \<noteq> []" "length hs < length (challengeLeafHeights p)" "length (challengeLeafHeights p) < 2 ^ 64"
    and "unat h + 1 < 2 ^ 64" "computeMachineStartIndex p hs h = Inr a"
    and "computeMachineStartIndex p hs (h + 1) = Inr b"
  shows "\<exists>step. computeStepSize p (of_nat (length hs)) = Inr step \<and> b = a + step \<and>
    (length hs + 1 < length (challengeLeafHeights p) \<longrightarrow>
       (\<exists>leaf next. leafHeightAtChallengeLevel p (of_nat (length hs + 1)) = Inr leaf \<and>
          computeStepSize p (of_nat (length hs + 1)) = Inr next \<and> step = leaf * next))"
proof -
  let ?L = "challengeLeafHeights p" and ?k = "length hs"
  have ne: "?L \<noteq> []" using assms(2) by auto
  have h1: "unat (h + 1) = unat h + 1" using assms(4) by (simp add: unat_word_ariths)
  have "b = a + of_nat (heights_product (drop (?k + 1) ?L))"
    using assms(5,6) by (auto simp: computeMachineStartIndex_eq [OF assms(1) ne] Let_def h1 algebra_simps split: if_splits)
  moreover have "leafHeightAtChallengeLevel p (of_nat (?k + 1)) = Inr (?L ! (?k + 1)) \<and>
      computeStepSize p (of_nat (?k + 1)) = Inr (of_nat (heights_product (drop (?k + 2) ?L))) \<and>
      of_nat (heights_product (drop (?k + 1) ?L)) = ?L ! (?k + 1) * of_nat (heights_product (drop (?k + 2) ?L))"
    if next_level: "?k + 1 < length ?L"
  proof (intro conjI)
    have "unat (of_nat (?k + 1) :: uint64) = ?k + 1" "unat (of_nat (length ?L) :: uint64) = length ?L"
      using next_level assms(3) by (simp_all add: unat_of_nat64 del: of_nat_Suc of_nat_add)
    with next_level show "leafHeightAtChallengeLevel p (of_nat (?k + 1)) = Inr (?L ! (?k + 1))"
      by (simp add: leafHeightAtChallengeLevel_def word_le_nat_alt index_at_def)
    show "computeStepSize p (of_nat (?k + 1)) = Inr (of_nat (heights_product (drop (?k + 2) ?L)))"
      using computeStepSize_eq [of "?k + 1" p] next_level assms(3) by simp
    show "of_nat (heights_product (drop (?k + 1) ?L)) = ?L ! (?k + 1) * of_nat (heights_product (drop (?k + 2) ?L))"
      using next_level by (simp add: Cons_nth_drop_Suc [symmetric] heights_product_Cons)
  qed
  ultimately show ?thesis using computeStepSize_eq [OF assms(2,3)] by auto
qed

theorem machine_index_step_witness:
  "\<exists>step. computeStepSize example_provider (of_nat (length [12 :: uint64])) = Inr step \<and> 32 = 24 + step \<and>
    (length [12 :: uint64] + 1 < length (challengeLeafHeights example_provider) \<longrightarrow>
       (\<exists>leaf next. leafHeightAtChallengeLevel example_provider (of_nat (length [12 :: uint64] + 1)) = Inr leaf \<and>
          computeStepSize example_provider (of_nat (length [12 :: uint64] + 1)) = Inr next \<and> step = leaf * next))"
  by (rule machine_index_step [of "[12]" example_provider 3])
    (simp_all add: example_provider_def computeMachineStartIndex_def slice_from_def Let_def)

lemma PrefixProofImpl_verifies:
  assumes k: "never_zero keccak" "go_scheduler rt" and len: "length leaves < 2 ^ 63"
    and lo: "0 < low" "low < high" "unat high \<le> length leaves"
  obtains preExp rest where "PrefixProofImpl keccak rt pack leaves low high = Some (pack preExp rest)"
    "ExpansionFromLeaves keccak (take (unat low) leaves) = Inr preExp"
    "VerifyPrefixProof keccak
       \<lparr>PreRoot = merkle_root keccak (map (\<lambda>x. keccak [x]) (take (unat low) leaves)), PreSize = low,
        PostRoot = merkle_root keccak (map (\<lambda>x. keccak [x]) (take (unat high) leaves)), PostSize = high,
        PreExpansion = preExp, PrefixProof = rest\<rparr> = Inr ()"
proof -
  let ?pre = "take (unat low) leaves" and ?all = "take (unat high) leaves"
  let ?suf = "drop (unat low) ?all" and ?n = "map (\<lambda>x. keccak [x])"
  let ?e = "expansion keccak (?n ?pre)"
  have l: "0 < unat low" "unat low < unat high" using lo(1,2) by (simp_all add: word_less_nat_alt)
  have cut: "?pre @ ?suf = ?all"
    using l(2) by (metis append_take_drop_id min.absorb1 less_imp_le take_take)
  have sizes: "length ?pre = unat low" "length (?pre @ ?suf) = unat high" using l lo(3) by auto
  then have small: "unat low < 2 ^ 63" "unat high < 2 ^ 63" using l(2) lo(3) len by linarith+
  have ne: "?pre \<noteq> []" "?suf \<noteq> []" "?all \<noteq> []" using l lo(3) by auto
  obtain rs where rs:
    "GeneratePrefixProof (of_nat (length ?pre)) ?e ?suf (RootFetcherFromExpansion keccak) = Inr (fst (Compact ?e) @ rs)"
    "VerifyPrefixProof keccak
       \<lparr>PreRoot = merkle_root keccak (?n ?pre), PreSize = of_nat (length ?pre),
        PostRoot = merkle_root keccak (?n (?pre @ ?suf)), PostSize = of_nat (length (?pre @ ?suf)),
        PreExpansion = ?e, PrefixProof = rs\<rparr> = Inr ()"
    using GeneratePrefixProof_complete [OF k(1) ne(1,2)] sizes small by (metis length_append)
  have ids: "of_nat (length ?pre) = low" "of_nat (length (?pre @ ?suf)) = high"
    using sizes by (simp_all del: length_append length_take length_drop)
  have exp: "ExpansionFromLeaves keccak ?pre = Inr ?e"
    using k(1) small(1) sizes(1) by (intro ExpansionFromLeaves_expansion) auto
  obtain big where big: "History_New keccak rt ?all = Inr big" "Merkle big = merkle_root keccak (?n ?all)"
    using History_New_root [OF k ne(3)] small(2) sizes(2) unfolding cut by auto
  obtain prefix where prefix: "History_New keccak rt ?pre = Inr prefix" "Merkle prefix = merkle_root keccak (?n ?pre)"
    using History_New_root [OF k ne(1)] small(1) sizes(1) by auto
  have "length ?pre < 2 ^ 63" using small(1) sizes(1) by simp
  from Compact_expansion_reads [OF k(1) ne(1) this, of rs]
  obtain j where read: "MerkleExpansionFromCompact (fst (Compact ?e) @ rs) low = Some (Inr (?e, j))"
    and j: "unat j = length (fst (Compact ?e))"
    unfolding ids(1) by blast
  have cuts: "slice_to leaves low = Inr ?pre" "slice_to leaves high = Inr ?all" "slice_from ?all low = Inr ?suf"
    "slice_from (fst (Compact ?e) @ rs) j = Inr rs"
    using l lo(3) j by (auto simp: slice_to_def slice_from_def)
  have gen: "GeneratePrefixProof low ?e ?suf (RootFetcherFromExpansion keccak) = Inr (fst (Compact ?e) @ rs)"
    using rs(1) unfolding ids(1) .
  have ver: "VerifyPrefixProof keccak
       \<lparr>PreRoot = merkle_root keccak (?n ?pre), PreSize = low,
        PostRoot = merkle_root keccak (?n ?all), PostSize = high,
        PreExpansion = ?e, PrefixProof = rs\<rparr> = Inr ()"
    using rs(2) unfolding ids unfolding cut .
  have "PrefixProofImpl keccak rt pack leaves low high = Some (pack ?e rs)"
    unfolding PrefixProofImpl_def cuts(1) bindR_simps exp cuts(2) cuts(3) gen big(1) prefix(1)
    by (simp add: read cuts(4) big(2) prefix(2) ver)
  then show ?thesis using exp ver by (rule that)
qed

lemma ProvePrefix_verifies:
  assumes "never_zero keccak" "go_scheduler rt" "historyCommitmentImpl p req = Inr leaves" "length leaves < 2 ^ 63"
    and "UpToHeight req = Some upTo" "FromHeight req \<le> upTo"
    and "unat upTo - unat (FromHeight req) < length leaves"
    and "unat prefixHeight < unat upTo - unat (FromHeight req)"
  obtains preExp rest where "ProvePrefix keccak rt pack p req prefixHeight = Some (pack preExp rest)"
    "ExpansionFromLeaves keccak (take (unat prefixHeight + 1) leaves) = Inr preExp"
    "VerifyPrefixProof keccak
       \<lparr>PreRoot = merkle_root keccak (map (\<lambda>x. keccak [x]) (take (unat prefixHeight + 1) leaves)), PreSize = prefixHeight + 1,
        PostRoot = merkle_root keccak (map (\<lambda>x. keccak [x]) (take (unat upTo - unat (FromHeight req) + 1) leaves)),
        PostSize = upTo - FromHeight req + 1, PreExpansion = preExp, PrefixProof = rest\<rparr> = Inr ()"
proof -
  let ?low = "prefixHeight + 1" and ?high = "upTo - FromHeight req + 1"
  have d: "unat (upTo - FromHeight req) = unat upTo - unat (FromHeight req)"
    using assms(6) by (rule unat_sub)
  have low: "unat ?low = unat prefixHeight + 1" and high: "unat ?high = unat upTo - unat (FromHeight req) + 1"
    using assms(4,7,8) d by (simp_all add: unat_word_ariths)
  have len: "unat (of_nat (length leaves) :: uint64) = length leaves" using assms(4) by (simp add: unat_of_nat64)
  have ord: "0 < ?low" "?low < ?high" "unat ?high \<le> length leaves"
    using low high assms(7,8) by (simp_all add: word_less_nat_alt)
  obtain preExp rest where r: "PrefixProofImpl keccak rt pack leaves ?low ?high = Some (pack preExp rest)"
    "ExpansionFromLeaves keccak (take (unat ?low) leaves) = Inr preExp"
    "VerifyPrefixProof keccak
       \<lparr>PreRoot = merkle_root keccak (map (\<lambda>x. keccak [x]) (take (unat ?low) leaves)), PreSize = ?low,
        PostRoot = merkle_root keccak (map (\<lambda>x. keccak [x]) (take (unat ?high) leaves)), PostSize = ?high,
        PreExpansion = preExp, PrefixProof = rest\<rparr> = Inr ()"
    using PrefixProofImpl_verifies [OF assms(1,2,4) ord, of pack] by metis
  have "ProvePrefix keccak rt pack p req prefixHeight = Some (pack preExp rest)"
    using assms(3,5,6) ord r(1) len
    by (simp add: ProvePrefix_def Let_def word_less_nat_alt word_le_nat_alt not_less)
  then show ?thesis using r(2,3) unfolding low high by (rule that)
qed

text \<open>
  C16. The prefix proof that the provider returns is always good: for a prefix height below the committed
  range, the local verification that precedes the submission never fails, and what is packed is the
  expansion of the prefix and a proof that \<^verbatim>\<open>VerifyPrefixProof\<close> accepts for the two commitments' roots.
\<close>

theorem ProvePrefix_correct:
  assumes "never_zero keccak" "go_scheduler rt" "historyCommitmentImpl p req = Inr leaves" "length leaves < 2 ^ 63"
    and "UpToHeight req = Some upTo" "FromHeight req \<le> upTo"
    and "unat upTo - unat (FromHeight req) < length leaves"
    and "unat prefixHeight < unat upTo - unat (FromHeight req)"
  shows "\<exists>preExp rest preCommit postCommit.
    ProvePrefix keccak rt pack p req prefixHeight = Some (pack preExp rest) \<and>
    History_New keccak rt (take (unat prefixHeight + 1) leaves) = Inr preCommit \<and>
    History_New keccak rt (take (unat upTo - unat (FromHeight req) + 1) leaves) = Inr postCommit \<and>
    VerifyPrefixProof keccak
      \<lparr>PreRoot = Merkle preCommit, PreSize = prefixHeight + 1, PostRoot = Merkle postCommit,
       PostSize = upTo - FromHeight req + 1, PreExpansion = preExp, PrefixProof = rest\<rparr> = Inr ()"
proof -
  let ?pre = "take (unat prefixHeight + 1) leaves" and ?post = "take (unat upTo - unat (FromHeight req) + 1) leaves"
  have "?pre \<noteq> []" "?post \<noteq> []" using assms(7) by auto
  moreover have "length ?pre < 2 ^ 64" "length ?post < 2 ^ 64" using assms(4) by simp_all
  ultimately obtain c c' where "History_New keccak rt ?pre = Inr c" "Merkle c = merkle_root keccak (map (\<lambda>x. keccak [x]) ?pre)"
      "History_New keccak rt ?post = Inr c'" "Merkle c' = merkle_root keccak (map (\<lambda>x. keccak [x]) ?post)"
    using History_New_root [OF assms(1,2), of ?pre] History_New_root [OF assms(1,2), of ?post] by metis
  then show ?thesis using ProvePrefix_verifies [OF assms, of pack] by metis
qed

definition example_request :: "sym HistoryCommitmentRequest" where
  "example_request =
     \<lparr>Req_WasmModuleRoot = Atom 9, FromBatch = 0, ToBatch = 1, UpperChallengeOriginHeights = [],
      FromHeight = 0, UpToHeight = Some 3\<rparr>"

theorem ProvePrefix_correct_witness:
  "\<exists>preExp rest preCommit postCommit.
    ProvePrefix Kec (sequential_runtime 1) (\<lambda>_ _. Inr [1]) example_provider example_request 1 = Some (Inr [1]) \<and>
    History_New Kec (sequential_runtime 1) (take 2 [Atom 1, Atom 2, Atom 3, Atom 4]) = Inr preCommit \<and>
    History_New Kec (sequential_runtime 1) (take 4 [Atom 1, Atom 2, Atom 3, Atom 4]) = Inr postCommit \<and>
    VerifyPrefixProof Kec
      \<lparr>PreRoot = Merkle preCommit, PreSize = 2, PostRoot = Merkle postCommit,
       PostSize = 4, PreExpansion = preExp, PrefixProof = rest\<rparr> = Inr ()"
proof -
  have "historyCommitmentImpl example_provider example_request = Inr [Atom 1, Atom 2, Atom 3, Atom 4]"
    by (simp add: example_provider_def example_request_def historyCommitmentImpl_def validateOriginHeights_def)
  from ProvePrefix_correct [OF Kec_never_zero _ this, of "sequential_runtime 1" 3 1 "\<lambda>_ _. Inr [1]"]
  show ?thesis by (simp add: example_request_def)
qed

text \<open>
  The range of leaves a claimed commitment of a height speaks about.
\<close>

definition agreement_request ::
    "ChallengeLevel \<Rightarrow> 'h HistoryCommitmentRequest \<Rightarrow> uint64 \<Rightarrow> 'h HistoryCommitmentRequest" where
  "agreement_request level req height =
     (if level = NewBlockChallengeLevel
      then req\<lparr>UpperChallengeOriginHeights := [], UpToHeight := Some (FromHeight req + height)\<rparr>
      else req\<lparr>FromHeight := 0, UpToHeight := Some height\<rparr>)"

lemma AgreesWithHistoryCommitment_eq:
  "AgreesWithHistoryCommitment keccak rt p level req commit =
     bindR (HistoryCommitment keccak rt p (agreement_request level req (l2_Height commit)))
       (\<lambda>c. Inr (Height c = l2_Height commit \<and> Merkle c = MerkleRoot commit))"
  by (cases req) (simp add: AgreesWithHistoryCommitment_def agreement_request_def)

text \<open>
  C15. The provider only agrees with commitments to its own leaves: when \<^verbatim>\<open>AgreesWithHistoryCommitment\<close> is true
  of the height and root of a commitment to some leaves, the leaves the provider collects for that
  range are those leaves, at the block level and at the levels below.
\<close>

theorem AgreesWithHistoryCommitment_sound:
  assumes "never_zero keccak" "collision_free keccak" "go_scheduler rt" "go_scheduler rt'"
    and "AgreesWithHistoryCommitment keccak rt p level req \<lparr>l2_Height = Height h, MerkleRoot = Merkle h\<rparr> = Inr True"
    and "History_New keccak rt' leaves = Inr h" "length leaves < 2 ^ 64"
    and "\<forall>req' ls. historyCommitmentImpl p req' = Inr ls \<longrightarrow> length ls < 2 ^ 64"
  shows "historyCommitmentImpl p (agreement_request level req (Height h)) = Inr leaves"
proof -
  let ?req = "agreement_request level req (Height h)"
  from assms(5) obtain c where c: "HistoryCommitment keccak rt p ?req = Inr c" "Height c = Height h" "Merkle c = Merkle h"
    by (auto simp: AgreesWithHistoryCommitment_eq bindR_eq_Inr)
  then obtain ls where ls: "historyCommitmentImpl p ?req = Inr ls" "History_New keccak rt ls = Inr c"
    by (auto simp: HistoryCommitment_def bindR_eq_Inr)
  have "length ls < 2 ^ 64" using ls(1) assms(8) by blast
  with c ls(2) assms have "ls = leaves"
    using History_New_inject [of keccak rt rt' ls leaves c h] by simp
  with ls(1) show ?thesis by simp
qed

theorem AgreesWithHistoryCommitment_sound_witness:
  "historyCommitmentImpl (example_provider\<lparr>L2MessageStatesUpTo := (\<lambda>_ _ _ _. Inr [Atom 1]),
      CollectMachineHashes := (\<lambda>_. Inr [])\<rparr>)
    (agreement_request 0 example_request 0) = Inr [Atom 1]"
proof -
  let ?p = "example_provider\<lparr>L2MessageStatesUpTo := (\<lambda>_ _ _ _. Inr [Atom 1]), CollectMachineHashes := (\<lambda>_. Inr [])\<rparr>"
  let ?h = "\<lparr>Height = 0, Merkle = Kec [Atom 1], FirstLeaf = Atom 1, LastLeafProof = [], FirstLeafProof = [],
       LastLeaf = Atom 1\<rparr>"
  have new: "History_New Kec (sequential_runtime 1) [Atom 1] = Inr ?h" by code_simp
  have "historyCommitmentImpl ?p req' = Inr ls \<Longrightarrow> length ls < 2 ^ 64" for req' ls
    by (auto simp: historyCommitmentImpl_def bindR_eq_Inr Let_def split: if_splits)
  moreover have "AgreesWithHistoryCommitment Kec (sequential_runtime 1) ?p 0 example_request
      \<lparr>l2_Height = Height ?h, MerkleRoot = Merkle ?h\<rparr> = Inr True"
    using new by (simp add: AgreesWithHistoryCommitment_eq HistoryCommitment_def historyCommitmentImpl_def
        agreement_request_def validateOriginHeights_def NewBlockChallengeLevel_def) (simp add: example_provider_def)
  ultimately show ?thesis
    using AgreesWithHistoryCommitment_sound [OF Kec_never_zero Kec_collision_free _ _ _ new, of "sequential_runtime 1" ?p 0
        example_request] by simp
qed

text \<open>
  The one step data that the provider returns are consistent: the before and after hashes are the last
  leaves of its commitments up to the step and up to the next height, and the two inclusion proofs
  lead from them to the roots of those commitments.
\<close>

theorem OneStepProofData_consistent:
  assumes "never_zero keccak" "go_scheduler rt"
    and "OneStepProofData keccak rt p root fromBatch toBatch startHeights fromHeight upToHeight = Inr (d, sp, ep)"
    and "\<forall>req' ls. historyCommitmentImpl p req' = Inr ls \<longrightarrow> length ls < 2 ^ 64"
  shows "\<exists>start_ls end_ls start_c end_c.
    historyCommitmentImpl p \<lparr>Req_WasmModuleRoot = root, FromBatch = fromBatch, ToBatch = toBatch,
      UpperChallengeOriginHeights = startHeights, FromHeight = fromHeight, UpToHeight = Some upToHeight\<rparr> = Inr start_ls \<and>
    historyCommitmentImpl p \<lparr>Req_WasmModuleRoot = root, FromBatch = fromBatch, ToBatch = toBatch,
      UpperChallengeOriginHeights = startHeights, FromHeight = fromHeight, UpToHeight = Some (upToHeight + 1)\<rparr> = Inr end_ls \<and>
    History_New keccak rt start_ls = Inr start_c \<and> History_New keccak rt end_ls = Inr end_c \<and>
    BeforeHash d = last start_ls \<and> AfterHash d = last end_ls \<and>
    CalculateRootFromProof keccak sp (Height start_c) (BeforeHash d) = Inr (Merkle start_c) \<and>
    CalculateRootFromProof keccak ep (Height end_c) (AfterHash d) = Inr (Merkle end_c)"
proof -
  let ?req = "\<lambda>upTo. \<lparr>Req_WasmModuleRoot = root, FromBatch = fromBatch, ToBatch = toBatch,
      UpperChallengeOriginHeights = startHeights, FromHeight = fromHeight, UpToHeight = Some upTo\<rparr>"
  from assms(3) obtain sc ec where c: "HistoryCommitment keccak rt p (?req upToHeight) = Inr sc"
      "HistoryCommitment keccak rt p (?req (upToHeight + 1)) = Inr ec"
    and d: "BeforeHash d = LastLeaf sc" "AfterHash d = LastLeaf ec" "sp = LastLeafProof sc" "ep = LastLeafProof ec"
    by (auto simp: OneStepProofData_def bindR_eq_Inr Let_def split: if_splits)
  have fact: "\<exists>ls. historyCommitmentImpl p r = Inr ls \<and> History_New keccak rt ls = Inr h \<and> LastLeaf h = last ls \<and>
      CalculateRootFromProof keccak (LastLeafProof h) (Height h) (LastLeaf h) = Inr (Merkle h)"
    if "HistoryCommitment keccak rt p r = Inr h" for r h
  proof -
    from that obtain ls where ls: "historyCommitmentImpl p r = Inr ls" "History_New keccak rt ls = Inr h"
      by (auto simp: HistoryCommitment_def bindR_eq_Inr)
    then have "ls \<noteq> []" "length ls < 2 ^ 64" using assms(4) by (auto simp: History_New_def)
    then have "LastLeaf h = last ls \<and>
        CalculateRootFromProof keccak (LastLeafProof h) (Height h) (LastLeaf h) = Inr (Merkle h)"
      by (rule History_New_last_leaf [OF assms(1,2) _ _ ls(2)])
    with ls show ?thesis by blast
  qed
  from fact [OF c(1)] fact [OF c(2)] show ?thesis unfolding d by blast
qed

theorem OneStepProofData_consistent_witness:
  "\<exists>d sp ep. OneStepProofData Kec (sequential_runtime 1) (example_provider\<lparr>L2MessageStatesUpTo := (\<lambda>_ _ _ _. Inr []),
      CollectMachineHashes := (\<lambda>_. Inr [Atom 5])\<rparr>) (Atom 9) 0 1 [4] 0 0 = Inr (d, sp, ep) \<and>
    BeforeHash d = Atom 5"
proof -
  let ?p = "example_provider\<lparr>L2MessageStatesUpTo := (\<lambda>_ _ _ _. Inr []), CollectMachineHashes := (\<lambda>_. Inr [Atom 5])\<rparr>"
  let ?h = "\<lparr>Height = 0, Merkle = Kec [Atom 5], FirstLeaf = Atom 5, LastLeafProof = [], FirstLeafProof = [],
       LastLeaf = Atom 5\<rparr>"
  have new: "History_New Kec (sequential_runtime 1) [Atom 5] = Inr ?h" by code_simp
  have small: "\<forall>req' ls. historyCommitmentImpl ?p req' = Inr ls \<longrightarrow> length ls < 2 ^ 64"
    by (auto simp: historyCommitmentImpl_def bindR_eq_Inr Let_def split: if_splits)
  have level: "computeMachineStartIndex ?p [4] 0 = Inr 0" "computeStepSize ?p 1 = Inr 8"
    "computeRequiredNumberOfHashes ?p 1 0 (Some 1) = Inr 2" "computeRequiredNumberOfHashes ?p 1 0 (Some 0) = Inr 1"
    by (simp_all add: example_provider_def computeMachineStartIndex_def computeStepSize_def numberOfChallengeLevels_def
        slice_from_def computeRequiredNumberOfHashes_def leafHeightAtChallengeLevel_def index_at_def Let_def
        word_le_nat_alt)
  have "OneStepProofData Kec (sequential_runtime 1) ?p (Atom 9) 0 1 [4] 0 0
      = Inr (\<lparr>BeforeHash = Atom 5, AfterHash = Atom 5, OspProof = []\<rparr>, [], [])"
    using new level by (simp add: OneStepProofData_def HistoryCommitment_def historyCommitmentImpl_def Let_def
        validateOriginHeights_def deepestRequestedChallengeLevel_def) (simp add: example_provider_def)
  with OneStepProofData_consistent [OF Kec_never_zero _ this small] show ?thesis by simp
qed

end
