(* ===== verification/Challenge_Tree.thy ===== *)
theory Challenge_Tree
  imports Bisection State_Provider
begin

text \<open>
  \<^verbatim>\<open>challenge-manager/challenge-tree\<close>: the tree of honest edges of one challenge, the block timers of its
  edges and the computation of an edge's ancestors across challenge levels. The metadata reader and
  the history checker are fields of the tree, as in the source; the methods of an edge that read the
  chain come from an \<open>EdgeReader\<close>.
\<close>

subsection \<open>The tree\<close>

record ('h, 'a) MetadataReader =
  AssertionUnrivaledBlocks :: "'h \<Rightarrow> uint64 res"
  TopLevelAssertion :: "'h \<Rightarrow> 'h res"
  TopLevelClaimHeights :: "'h \<Rightarrow> uint64 list res"
  ReadAssertionCreationInfo :: "'h \<Rightarrow> ('h, 'a) AssertionCreatedInfo res"

type_synonym 'h HistoryChecker = "ChallengeLevel \<Rightarrow> 'h HistoryCommitmentRequest \<Rightarrow> 'h L2History \<Rightarrow> bool res"

record ('h, 'a) HonestChallengeTree =
  edges :: "('h, 'h Edge) gomap"
  mutualIds :: "('h, ('h, uint64) gomap) gomap"
  topLevelAssertionHash :: 'h
  metadataReader :: "('h, 'a) MetadataReader"
  histChecker :: "'h HistoryChecker"
  validatorName :: string
  totalChallengeLevels :: uint8
  honestRootEdgesByLevel :: "(ChallengeLevel, 'h Edge list) gomap"

definition Tree_New ::
    "'h \<Rightarrow> ('h, 'a) MetadataReader \<Rightarrow> 'h HistoryChecker \<Rightarrow> uint8 \<Rightarrow> string \<Rightarrow> ('h, 'a) HonestChallengeTree" where
  "Tree_New assertionHash reader checker numBigStepLevels name =
     \<lparr>edges = NewMap, mutualIds = NewMap, topLevelAssertionHash = assertionHash, metadataReader = reader,
      histChecker = checker, validatorName = name, totalChallengeLevels = numBigStepLevels + 2,
      honestRootEdgesByLevel = NewMap\<rparr>"

definition HonestBlockChallengeRootEdge :: "('h, 'a) HonestChallengeTree \<Rightarrow> 'h Edge res" where
  "HonestBlockChallengeRootEdge ht =
     (case Map_TryGet (honestRootEdgesByLevel ht) (totalChallengeLevels ht - 1) of
        Some rootEdges \<Rightarrow>
          if Slice_Len rootEdges \<noteq> 1
          then Inl (ErrMsg ''expected one honest root block challenge edge for challenged assertion %#x'')
          else bindR (Slice_Get rootEdges 0) Unwrap
      | None \<Rightarrow> Inl (ErrMsg ''no honest root edges for block challenge level for assertion %#x''))"

subsection \<open>Adding edges\<close>

text \<open>The part of \<^verbatim>\<open>AddEdge\<close> and \<^verbatim>\<open>AddHonestEdge\<close> that stores an honest edge.\<close>

definition add_root :: "'h Edge \<Rightarrow> ('h, 'a) HonestChallengeTree \<Rightarrow> ('h, 'a) HonestChallengeTree" where
  "add_root eg ht =
     (if ClaimId eg = None then ht
      else
        let reversedChallengeLevel = GetReversedChallengeLevel eg in
        case Map_TryGet (honestRootEdgesByLevel ht) reversedChallengeLevel of
          None \<Rightarrow>
            ht\<lparr>honestRootEdgesByLevel :=
                 Map_Put reversedChallengeLevel (Slice_Push eg NewSlice) (honestRootEdgesByLevel ht)\<rparr>
        | Some rootEdgesAtLevel \<Rightarrow>
            ht\<lparr>honestRootEdgesByLevel :=
                 Map_Put reversedChallengeLevel (Slice_Push eg rootEdgesAtLevel) (honestRootEdgesByLevel ht)\<rparr>)"

definition track :: "'h Edge \<Rightarrow> ('h, 'a) HonestChallengeTree \<Rightarrow> ('h, 'a) HonestChallengeTree" where
  "track eg ht = add_root eg (ht\<lparr>edges := Map_Put (EdgeId eg) eg (edges ht)\<rparr>)"

text \<open>
  The part that records the edge among the edges of its mutual id. The map of a new mutual id is
  stored before the creation block is known.
\<close>

definition ensure_mutuals :: "'h \<Rightarrow> ('h, 'a) HonestChallengeTree \<Rightarrow> ('h, 'a) HonestChallengeTree" where
  "ensure_mutuals mutualId ht =
     (case Map_TryGet (mutualIds ht) mutualId of
        None \<Rightarrow> ht\<lparr>mutualIds := Map_Put mutualId NewMap (mutualIds ht)\<rparr>
      | Some _ \<Rightarrow> ht)"

definition add_mutual :: "'h Edge \<Rightarrow> (('h, 'a) HonestChallengeTree, unit) op" where
  "add_mutual eg ht =
     (let ht' = ensure_mutuals (MutualId eg) ht;
          mutuals = Map_Get NewMap (mutualIds ht') (MutualId eg)
      in case CreatedAtBlock eg of
           Inl e \<Rightarrow> (Inl e, ht')
         | Inr createdAtBlock \<Rightarrow>
             (Inr (), ht'\<lparr>mutualIds := Map_Put (MutualId eg) (Map_Put (EdgeId eg) createdAtBlock mutuals) (mutualIds ht')\<rparr>))"

text \<open>The part of \<^verbatim>\<open>AddEdge\<close> that asks the history checker about the end and the start of the edge.\<close>

definition claimed_assertion :: "'h Edge \<Rightarrow> ('h, 'a) HonestChallengeTree \<Rightarrow> 'h res" where
  "claimed_assertion eg ht =
     (if GetChallengeLevel eg = NewBlockChallengeLevel \<and> ClaimId eg \<noteq> None then Unwrap (ClaimId eg)
      else bindR (HonestBlockChallengeRootEdge ht) (\<lambda>honestLevelZeroEdge.
        if ClaimId honestLevelZeroEdge = None then Inl (ErrMsg ''honest level zero edge has no claim id'')
        else Unwrap (ClaimId honestLevelZeroEdge)))"

definition edge_agreement :: "'h Edge \<Rightarrow> ('h, 'a) HonestChallengeTree \<Rightarrow> Agreement res" where
  "edge_agreement eg ht =
     bindR (claimed_assertion eg ht) (\<lambda>claimedAssertionHash.
     bindR (ReadAssertionCreationInfo (metadataReader ht) claimedAssertionHash) (\<lambda>creationInfo.
       let fromBatch = Batch (GoGlobalStateFromSolidity (sol_GlobalState (BeforeState creationInfo)));
           toBatch = Batch (GoGlobalStateFromSolidity (sol_GlobalState (AfterState creationInfo)));
           (startHeight, startCommit) = StartCommitment eg;
           (endHeight, endCommit) = EndCommitment eg
       in bindR (TopLevelClaimHeights (metadataReader ht) (EdgeId eg)) (\<lambda>startHeights.
            let challengeLevel = GetChallengeLevel eg in
            if challengeLevel \<noteq> NewBlockChallengeLevel \<and> length startHeights = 0
            then Inl (ErrMsg ''start height cannot be zero'')
            else
              let request =
                \<lparr>Req_WasmModuleRoot = WasmModuleRoot creationInfo, FromBatch = fromBatch, ToBatch = toBatch,
                 UpperChallengeOriginHeights = (if challengeLevel = NewBlockChallengeLevel then [] else startHeights),
                 FromHeight = 0, UpToHeight = Some endHeight\<rparr>
              in bindR (histChecker ht challengeLevel request \<lparr>l2_Height = endHeight, MerkleRoot = endCommit\<rparr>) (\<lambda>isHonestEdge.
                 bindR (histChecker ht challengeLevel request \<lparr>l2_Height = startHeight, MerkleRoot = startCommit\<rparr>) (\<lambda>agreesWithStart.
                   Inr \<lparr>AgreesWithStartCommit = agreesWithStart, IsHonestEdge = isHonestEdge\<rparr>)))))"

definition AddEdge :: "'h Edge \<Rightarrow> (('h, 'a) HonestChallengeTree, Agreement) op" where
  "AddEdge eg ht =
     (if Map_TryGet (edges ht) (EdgeId eg) \<noteq> None then (Inl ErrAlreadyBeingTracked, ht)
      else case TopLevelAssertion (metadataReader ht) (EdgeId eg) of
        Inl e \<Rightarrow> (Inl e, ht)
      | Inr assertionHash \<Rightarrow>
          if topLevelAssertionHash ht \<noteq> assertionHash then (Inl ErrMismatchedChallengeAssertionHash, ht)
          else case edge_agreement eg ht of
            Inl e \<Rightarrow> (Inl e, ht)
          | Inr agreement \<Rightarrow>
              let ht' = (if IsHonestEdge agreement then track eg ht else ht) in
              if AgreesWithStartCommit agreement \<or> IsHonestEdge agreement
              then bindM (add_mutual eg) (\<lambda>_. returnM agreement) ht'
              else (Inr agreement, ht'))"

definition AddHonestEdge :: "'h Edge \<Rightarrow> (('h, 'a) HonestChallengeTree, unit) op" where
  "AddHonestEdge eg ht =
     (if Map_TryGet (edges ht) (EdgeId eg) \<noteq> None then (Inr (), ht)
      else add_mutual eg (track eg ht))"

subsection \<open>Local timers\<close>

record 'h rival =
  rival_id :: 'h
  createdAtBlock :: uint64

definition rivalsWithCreationTimes ::
    "'h Edge \<Rightarrow> ('h, 'a) HonestChallengeTree \<Rightarrow> 'h rival list \<times> ('h, 'a) HonestChallengeTree" where
  "rivalsWithCreationTimes eg ht =
     (case Map_TryGet (mutualIds ht) (MutualId eg) of
        None \<Rightarrow> ([], ht\<lparr>mutualIds := Map_Put (MutualId eg) NewMap (mutualIds ht)\<rparr>)
      | Some mutuals \<Rightarrow>
          (snd (Map_ForEach (\<lambda>rivalId t rivals.
             (Inr (), if rivalId = EdgeId eg then rivals else rivals @ [\<lparr>rival_id = rivalId, createdAtBlock = t\<rparr>]))
             mutuals []), ht))"

fun earliest_loop :: "uint64 option \<Rightarrow> 'h rival list \<Rightarrow> uint64 option" where
  "earliest_loop earliest [] = earliest"
| "earliest_loop earliest (r # rs) =
     (case earliest of
        None \<Rightarrow> earliest_loop (Some (createdAtBlock r)) rs
      | Some t \<Rightarrow> earliest_loop (Some (if createdAtBlock r < t then createdAtBlock r else t)) rs)"

definition earliestCreatedRivalBlockNumber ::
    "'h Edge \<Rightarrow> ('h, 'a) HonestChallengeTree \<Rightarrow> uint64 option \<times> ('h, 'a) HonestChallengeTree" where
  "earliestCreatedRivalBlockNumber e ht =
     (let (rivals, ht') = rivalsWithCreationTimes e ht in (earliest_loop None rivals, ht'))"

definition unrivaledAtBlockNum :: "'h Edge \<Rightarrow> uint64 \<Rightarrow> (('h, 'a) HonestChallengeTree, bool) op" where
  "unrivaledAtBlockNum e blockNum ht =
     (case CreatedAtBlock e of
        Inl err \<Rightarrow> (Inl err, ht)
      | Inr created \<Rightarrow>
          if blockNum < created then (Inl (ErrMsg ''edge creation block %d less than specified %d''), ht)
          else
            let (rivals, ht') = rivalsWithCreationTimes e ht in
            if length rivals = 0 then (Inr True, ht')
            else (Inr (\<not> list_ex (\<lambda>r. createdAtBlock r \<le> blockNum) rivals), ht'))"

definition localTimer :: "'h Edge \<Rightarrow> uint64 \<Rightarrow> (('h, 'a) HonestChallengeTree, uint64) op" where
  "localTimer e blockNum ht =
     (case CreatedAtBlock e of
        Inl err \<Rightarrow> (Inl err, ht)
      | Inr created \<Rightarrow>
          if blockNum \<le> created then (Inr 0, ht)
          else bindM (unrivaledAtBlockNum e blockNum) (\<lambda>unrivaled ht1.
            if unrivaled then (Inr (blockNum - created), ht1)
            else
              let (earliest, ht2) = earliestCreatedRivalBlockNumber e ht1 in
              bindM (liftM (Unwrap earliest)) (\<lambda>tRival.
                returnM (if created \<ge> tRival then 0 else tRival - created)) ht2) ht)"

subsection \<open>Path timers\<close>

fun confirmable_loop :: "uint64 \<Rightarrow> uint64 \<Rightarrow> uint64 list \<Rightarrow> bool" where
  "confirmable_loop period acc [] = False"
| "confirmable_loop period acc (timer # timers) =
     (let acc' = acc + timer in if acc' \<ge> period then True else confirmable_loop period acc' timers)"

definition HasConfirmableAncestor :: "('h, 'a) HonestChallengeTree \<Rightarrow> uint64 list \<Rightarrow> uint64 \<Rightarrow> bool res" where
  "HasConfirmableAncestor ht honestAncestorLocalTimers challengePeriodBlocks =
     (if length honestAncestorLocalTimers = 0 then Inr False
      else bindR (AssertionUnrivaledBlocks (metadataReader ht) (topLevelAssertionHash ht)) (\<lambda>assertionUnrivaledNumBlocks.
        Inr (confirmable_loop challengePeriodBlocks assertionUnrivaledNumBlocks honestAncestorLocalTimers)))"

definition ComputeHonestPathTimer ::
    "'h \<Rightarrow> uint64 list \<Rightarrow> uint64 \<Rightarrow> (('h, 'a) HonestChallengeTree, uint64) op" where
  "ComputeHonestPathTimer edgeId ancestorLocalTimers blockNumber ht =
     (case Map_TryGet (edges ht) edgeId of
        None \<Rightarrow> (Inl ErrNotFound, ht)
      | Some edge \<Rightarrow>
          bindM (localTimer edge blockNumber) (\<lambda>edgeLocalTimer.
          bindM (liftM (AssertionUnrivaledBlocks (metadataReader ht) (topLevelAssertionHash ht))) (\<lambda>assertionUnrivaledTimer.
            returnM (foldl (\<lambda>acc timer. acc + timer) (edgeLocalTimer + assertionUnrivaledTimer) ancestorLocalTimers))) ht)"

subsection \<open>Ancestors\<close>

record 'h AncestorsQueryResponse =
  AncestorLocalTimers :: "uint64 list"
  AncestorEdgeIds :: "'h list"

definition findOriginEdge :: "'h \<Rightarrow> 'h Edge list \<Rightarrow> 'h Edge option" where
  "findOriginEdge originId es = find (\<lambda>e. OriginId e = originId) es"

definition honestRootAncestorAtChallengeLevel ::
    "'h Edge \<Rightarrow> ChallengeLevel \<Rightarrow> ('h, 'a) HonestChallengeTree \<Rightarrow> 'h Edge res" where
  "honestRootAncestorAtChallengeLevel childEdge challengeLevel ht =
     (case Map_TryGet (honestRootEdgesByLevel ht) challengeLevel of
        None \<Rightarrow> Inl (ErrMsg ''no honest edges found at challenge level %d'')
      | Some rootEdgesAtLevel \<Rightarrow>
          (case findOriginEdge (OriginId childEdge) rootEdgesAtLevel of
             None \<Rightarrow> Inl (ErrMsg ''no honest root edge with origin id %#x found at challenge level %d'')
           | Some rootAncestor \<Rightarrow> Inr rootAncestor))"

definition getClaimedEdge :: "'h Edge \<Rightarrow> ('h, 'a) HonestChallengeTree \<Rightarrow> 'h Edge res" where
  "getClaimedEdge edge ht =
     (case ClaimId edge of
        None \<Rightarrow> Inl (ErrMsg ''does not claim any edge'')
      | Some claimId \<Rightarrow>
          (case Map_TryGet (edges ht) claimId of
             None \<Rightarrow> Inl (ErrMsg ''claimed edge not found'')
           | Some claimedEdge \<Rightarrow> Inr claimedEdge))"

text \<open>
  The step from the cursor to its child on the way to the wanted edge. A child the chain knows and the
  tree does not track is a nil cursor, on which the next iteration panics.
\<close>

definition child_cursor :: "'h option res \<Rightarrow> go_error \<Rightarrow> ('h, 'a) HonestChallengeTree \<Rightarrow> 'h Edge res" where
  "child_cursor child noChild ht =
     bindR child (\<lambda>c. case c of
       None \<Rightarrow> Inl noChild
     | Some cid \<Rightarrow> (case Map_TryGet (edges ht) cid of None \<Rightarrow> Inl GoPanic | Some e \<Rightarrow> Inr e))"

definition next_cursor :: "'h EdgeReader \<Rightarrow> uint64 \<Rightarrow> 'h Edge \<Rightarrow> ('h, 'a) HonestChallengeTree \<Rightarrow> 'h Edge res" where
  "next_cursor ch wantedEdgeStart cursor ht =
     bindR (Bisect (fst (StartCommitment cursor)) (fst (EndCommitment cursor))) (\<lambda>bisectTo.
       if wantedEdgeStart < bisectTo then child_cursor (LowerChild ch (EdgeId cursor)) ErrNoLowerChildYet ht
       else child_cursor (UpperChild ch (EdgeId cursor)) (ErrMsg ''edge %#x had no upper child'') ht)"

text \<open>
  The loop of \<^verbatim>\<open>findHonestAncestorsWithinChallengeLevel\<close>, which may not end. \<open>ctxErr n\<close> is the value of
  \<^verbatim>\<open>ctx.Err()\<close> at the \<open>n\<close>-th iteration.
\<close>

partial_function (option) find_loop ::
    "(nat \<Rightarrow> go_error option) \<Rightarrow> 'h EdgeReader \<Rightarrow> 'h Edge \<Rightarrow> uint64 \<Rightarrow> 'h Edge \<Rightarrow> uint64 list \<Rightarrow> 'h list \<Rightarrow>
     ('h, 'a) HonestChallengeTree \<Rightarrow> ((uint64 list \<times> 'h list) res \<times> ('h, 'a) HonestChallengeTree) option" where
  "find_loop ctxErr ch queryingFor blockNumber cursor localTimers ancestry ht =
     (case ctxErr (length ancestry) of
        Some err \<Rightarrow> Some (Inl err, ht)
      | None \<Rightarrow>
          if EdgeId cursor = EdgeId queryingFor then Some (Inr (localTimers, ancestry), ht)
          else case localTimer cursor blockNumber ht of
            (Inl err, ht') \<Rightarrow> Some (Inl err, ht')
          | (Inr timer, ht') \<Rightarrow>
              (case next_cursor ch (fst (StartCommitment queryingFor)) cursor ht' of
                 Inl err \<Rightarrow> Some (Inl err, ht')
               | Inr cursor' \<Rightarrow>
                   find_loop ctxErr ch queryingFor blockNumber cursor' (localTimers @ [timer])
                     (ancestry @ [EdgeId cursor]) ht'))"

definition findHonestAncestorsWithinChallengeLevel ::
    "(nat \<Rightarrow> go_error option) \<Rightarrow> 'h EdgeReader \<Rightarrow> 'h Edge \<Rightarrow> 'h Edge \<Rightarrow> uint64 \<Rightarrow>
     ('h, 'a) HonestChallengeTree \<Rightarrow> ((uint64 list \<times> 'h list) res \<times> ('h, 'a) HonestChallengeTree) option" where
  "findHonestAncestorsWithinChallengeLevel ctxErr ch rootEdge queryingFor blockNumber ht =
     find_loop ctxErr ch queryingFor blockNumber rootEdge [] [] ht"

function ancestors_loop ::
    "(ChallengeLevel \<Rightarrow> nat \<Rightarrow> go_error option) \<Rightarrow> 'h EdgeReader \<Rightarrow> uint64 \<Rightarrow> ChallengeLevel \<Rightarrow> 'h Edge \<Rightarrow>
     uint64 list \<Rightarrow> 'h list \<Rightarrow> ('h, 'a) HonestChallengeTree \<Rightarrow>
     ((uint64 list \<times> 'h list) res \<times> ('h, 'a) HonestChallengeTree) option" where
  "ancestors_loop ctxErr ch blockNumber level currentEdge localTimers ancestry ht =
     (if level < totalChallengeLevels ht then
        (case honestRootAncestorAtChallengeLevel currentEdge level ht of
           Inl err \<Rightarrow> Some (Inl err, ht)
         | Inr rootEdge \<Rightarrow>
             (case findHonestAncestorsWithinChallengeLevel (ctxErr level) ch rootEdge currentEdge blockNumber ht of
                None \<Rightarrow> None
              | Some (Inl err, ht1) \<Rightarrow> Some (Inl err, ht1)
              | Some (Inr (ancestorLocalTimers, ancestorsAtLevel), ht1) \<Rightarrow>
                  let ancestry' = ancestry @ Reverse ancestorsAtLevel;
                      localTimers' = localTimers @ Reverse ancestorLocalTimers;
                      level' = level + 1
                  in if level' = totalChallengeLevels ht then Some (Inr (localTimers', ancestry'), ht1)
                     else
                       (case getClaimedEdge rootEdge ht1 of
                          Inl err \<Rightarrow> Some (Inl err, ht1)
                        | Inr nextLevelClaimedEdge \<Rightarrow>
                            (case localTimer nextLevelClaimedEdge blockNumber ht1 of
                               (Inl err, ht2) \<Rightarrow> Some (Inl err, ht2)
                             | (Inr claimEdgeLocalTimer, ht2) \<Rightarrow>
                                 ancestors_loop ctxErr ch blockNumber level' nextLevelClaimedEdge
                                   (localTimers' @ [claimEdgeLocalTimer])
                                   (ancestry' @ [EdgeId nextLevelClaimedEdge]) ht2))))
      else Some (Inr (localTimers, ancestry), ht))"
  by pat_completeness auto


termination
proof (relation "measure (\<lambda>(_, _, _, level, _). 256 - unat level)", goal_cases)
  case (2 ctxErr ch blockNumber level)
  then have "unat (level + 1) = unat level + 1" by (intro unat_Suc8)
  with 2 show ?case using unat_lt8 [of "level + 1"] by simp
qed simp

declare ancestors_loop.simps [simp del]

definition ComputeAncestorsWithTimers ::
    "(ChallengeLevel \<Rightarrow> nat \<Rightarrow> go_error option) \<Rightarrow> 'h EdgeReader \<Rightarrow> 'h \<Rightarrow> uint64 \<Rightarrow>
     ('h, 'a) HonestChallengeTree \<Rightarrow> ('h AncestorsQueryResponse res \<times> ('h, 'a) HonestChallengeTree) option" where
  "ComputeAncestorsWithTimers ctxErr ch edgeId blockNumber ht =
     (case Map_TryGet (edges ht) edgeId of
        None \<Rightarrow> Some (Inl ErrNotFound, ht)
      | Some startEdge \<Rightarrow>
          (case ancestors_loop ctxErr ch blockNumber (GetReversedChallengeLevel startEdge) startEdge [] [] ht of
             None \<Rightarrow> None
           | Some (Inl err, ht') \<Rightarrow> Some (Inl err, ht')
           | Some (Inr (localTimers, ancestry), ht') \<Rightarrow>
               Some (Inr (if length ancestry = 0
                          then \<lparr>AncestorLocalTimers = [], AncestorEdgeIds = ancestry\<rparr>
                          else \<lparr>AncestorLocalTimers = localTimers, AncestorEdgeIds = ancestry\<rparr>), ht')))"

subsection \<open>Reading operations\<close>

text \<open>
  The timers read the edges recorded for a mutual id and may store an empty map for a new mutual id, which
  no operation can tell from a missing one.
\<close>

definition mutuals_of :: "('h, 'a) HonestChallengeTree \<Rightarrow> 'h \<Rightarrow> ('h, uint64) gomap" where
  "mutuals_of ht m = Map_Get NewMap (mutualIds ht) m"

definition same_tree :: "('h, 'a) HonestChallengeTree \<Rightarrow> ('h, 'a) HonestChallengeTree \<Rightarrow> bool" where
  "same_tree ht ht' \<longleftrightarrow> ht\<lparr>mutualIds := []\<rparr> = ht'\<lparr>mutualIds := []\<rparr> \<and> mutuals_of ht = mutuals_of ht'"

lemma same_tree_refl [simp]: "same_tree ht ht"
  by (simp add: same_tree_def)

lemma same_tree_trans: "same_tree ht ht' \<Longrightarrow> same_tree ht' ht'' \<Longrightarrow> same_tree ht ht''"
  by (simp add: same_tree_def)

lemma same_tree_fields:
  assumes "same_tree ht ht'"
  shows "edges ht' = edges ht" "honestRootEdgesByLevel ht' = honestRootEdgesByLevel ht"
    "totalChallengeLevels ht' = totalChallengeLevels ht" "mutuals_of ht' = mutuals_of ht"
    "metadataReader ht' = metadataReader ht" "topLevelAssertionHash ht' = topLevelAssertionHash ht"
    "histChecker ht' = histChecker ht"
  using assms by (cases ht; cases ht'; simp add: same_tree_def)+

lemma mutuals_of_ensure [simp]: "mutuals_of (ensure_mutuals m ht) = mutuals_of ht"
  by (rule ext) (auto simp: mutuals_of_def ensure_mutuals_def Map_Get_TryGet split: option.splits)

lemma same_tree_ensure [simp]: "same_tree ht (ensure_mutuals m ht)"
proof -
  have "(ensure_mutuals m ht)\<lparr>mutualIds := []\<rparr> = ht\<lparr>mutualIds := []\<rparr>"
    by (simp add: ensure_mutuals_def split: option.splits)
  then show ?thesis by (simp add: same_tree_def)
qed

definition rival_blocks :: "('h, 'a) HonestChallengeTree \<Rightarrow> 'h Edge \<Rightarrow> uint64 list" where
  "rival_blocks ht e = map snd (filter (\<lambda>(i, _). i \<noteq> EdgeId e) (mutuals_of ht (MutualId e)))"

lemma same_tree_rival_blocks: "same_tree ht ht' \<Longrightarrow> rival_blocks ht' e = rival_blocks ht e"
  by (simp add: rival_blocks_def same_tree_fields)

lemma rivals_ForEach:
  "snd (Map_ForEach (\<lambda>rivalId t rivals.
     (Inr (), if rivalId = i then rivals else rivals @ [\<lparr>rival_id = rivalId, createdAtBlock = t\<rparr>])) ms acc) =
   acc @ map (\<lambda>(j, t). \<lparr>rival_id = j, createdAtBlock = t\<rparr>) (filter (\<lambda>(j, _). j \<noteq> i) ms)"
  by (induction ms arbitrary: acc) auto

lemma rivalsWithCreationTimes_eq:
  "\<exists>rivals. rivalsWithCreationTimes e ht = (rivals, ensure_mutuals (MutualId e) ht) \<and>
    map createdAtBlock rivals = rival_blocks ht e"
  by (auto simp: rivalsWithCreationTimes_def rival_blocks_def mutuals_of_def ensure_mutuals_def Map_Get_TryGet
      rivals_ForEach NewMap_def comp_def case_prod_unfold split: option.splits)

lemma earliest_loop_Min:
  "earliest_loop (Some t) rs = Some (Min (insert t (createdAtBlock ` set rs)))"
proof (induction rs arbitrary: t)
  case (Cons r rs)
  have "Min (insert (min (createdAtBlock r) t) (createdAtBlock ` set rs)) =
      Min (insert t (insert (createdAtBlock r) (createdAtBlock ` set rs)))"
    by (cases "rs = []") (simp_all add: ac_simps)
  moreover have "(if createdAtBlock r < t then createdAtBlock r else t) = min (createdAtBlock r) t"
    by (auto simp: min_def)
  ultimately show ?case by (simp only: earliest_loop.simps option.case Cons list.set image_insert)
qed simp

text \<open>The block timer as a function of the creation blocks of an edge and of its rivals.\<close>

definition timer_value :: "uint64 \<Rightarrow> uint64 \<Rightarrow> uint64 list \<Rightarrow> uint64" where
  "timer_value c T rs =
     (if T \<le> c then 0 else if \<forall>r\<in>set rs. T < r then T - c
      else if Min (set rs) \<le> c then 0 else Min (set rs) - c)"

lemma localTimer_eq:
  assumes "CreatedAtBlock e = Inr c"
  shows "\<exists>ht'. localTimer e T ht = (Inr (timer_value c T (rival_blocks ht e)), ht') \<and> same_tree ht ht'"
proof (cases "T \<le> c")
  case False
  let ?ht = "ensure_mutuals (MutualId e) ht"
  obtain rivals where r: "rivalsWithCreationTimes e ht = (rivals, ?ht)" "map createdAtBlock rivals = rival_blocks ht e"
    using rivalsWithCreationTimes_eq by blast
  obtain rivals' where r': "rivalsWithCreationTimes e ?ht = (rivals', ensure_mutuals (MutualId e) ?ht)"
    "map createdAtBlock rivals' = rival_blocks ht e"
    using rivalsWithCreationTimes_eq [of e ?ht] same_tree_rival_blocks [OF same_tree_ensure] by metis
  have set: "createdAtBlock ` set rivals = set (rival_blocks ht e)" "createdAtBlock ` set rivals' = set (rival_blocks ht e)"
    using r(2) r'(2) by (metis list.set_map)+
  have same: "same_tree ht (ensure_mutuals (MutualId e) ?ht)" by (meson same_tree_ensure same_tree_trans)
  show ?thesis
  proof (cases "\<forall>t\<in>set (rival_blocks ht e). T < t")
    case True
    then have "\<forall>q\<in>set rivals. \<not> createdAtBlock q \<le> T" unfolding set(1) [symmetric] by (simp add: not_le)
    then have "unrivaledAtBlockNum e T ht = (Inr True, ?ht)"
      using False assms r(1) by (auto simp: unrivaledAtBlockNum_def list_ex_iff)
    with True False assms show ?thesis by (simp add: localTimer_def bindM_def timer_value_def)
  next
    case rivaled: False
    then obtain q where q: "q \<in> set rivals" "createdAtBlock q \<le> T"
      unfolding set(1) [symmetric] by (auto simp: not_less)
    then have un: "unrivaledAtBlockNum e T ht = (Inr False, ?ht)"
      using False assms r(1) by (auto simp: unrivaledAtBlockNum_def list_ex_iff)
    have "rivals' \<noteq> []" using q(1) set by auto
    then have "earliest_loop None rivals' = Some (Min (set (rival_blocks ht e)))"
      unfolding set(2) [symmetric] by (cases rivals') (simp_all add: earliest_loop_Min)
    with r'(1) have "earliestCreatedRivalBlockNumber e ?ht =
        (Some (Min (set (rival_blocks ht e))), ensure_mutuals (MutualId e) ?ht)"
      by (simp add: earliestCreatedRivalBlockNumber_def)
    with un rivaled False assms same show ?thesis
      by (auto simp: localTimer_def bindM_def timer_value_def Unwrap_def op_defs)
  qed
qed (simp add: assms localTimer_def timer_value_def)

lemma localTimer_same_tree: "same_tree ht (snd (localTimer e T ht))"
  using localTimer_eq [of e _ T ht] by (cases "CreatedAtBlock e") (force simp: localTimer_def)+

lemma localTimer_cong: "same_tree ht ht' \<Longrightarrow> fst (localTimer e T ht') = fst (localTimer e T ht)"
  using localTimer_eq [of e _ T ht] localTimer_eq [of e _ T ht'] same_tree_rival_blocks [of ht ht' e]
  by (cases "CreatedAtBlock e") (force simp: localTimer_def)+

lemma timer_value_card:
  "unat (timer_value c T rs) = card {t. unat c \<le> t \<and> t < unat T \<and> (\<forall>r\<in>set rs. t < unat r)}"
proof (cases "T \<le> c")
  case True
  then have "{t. unat c \<le> t \<and> t < unat T \<and> (\<forall>r\<in>set rs. t < unat r)} = {}" by (auto simp: word_le_nat_alt)
  with True show ?thesis by (simp add: timer_value_def)
next
  case False
  show ?thesis
  proof (cases "\<forall>r\<in>set rs. T < r")
    case True
    then have "{t. unat c \<le> t \<and> t < unat T \<and> (\<forall>r\<in>set rs. t < unat r)} = {unat c..<unat T}"
      by (fastforce simp: word_less_nat_alt)
    with True False show ?thesis by (simp add: timer_value_def unat_sub)
  next
    case rivaled: False
    let ?m = "Min (set rs)"
    have fin: "finite (set rs)" "set rs \<noteq> {}" using rivaled by auto
    have m: "?m \<in> set rs" "\<And>r. r \<in> set rs \<Longrightarrow> unat ?m \<le> unat r"
      using Min_in [OF fin] Min_le [OF fin(1)] by (auto simp: word_le_nat_alt)
    moreover obtain r where "r \<in> set rs" "unat r \<le> unat T" using rivaled by (auto simp: word_less_nat_alt not_less)
    ultimately have "unat ?m \<le> unat T" using order_trans by blast
    then have "{t. unat c \<le> t \<and> t < unat T \<and> (\<forall>r\<in>set rs. t < unat r)} = {unat c..<unat ?m}"
      using m by force
    with rivaled False show ?thesis by (auto simp: timer_value_def word_le_nat_alt unat_sub)
  qed
qed

subsection \<open>The invariant of the tree\<close>

text \<open>
  \<open>chain\<close> gives the edge of every edge id. The invariant: the maps store the chain's edges under their
  ids, the creation blocks recorded for a mutual id are those of edges with that mutual id, a tracked
  edge is recorded as soon as its creation block is known, and the root edges of a level are exactly
  the tracked edges of that level that claim something, each once.
\<close>

definition recorded :: "('h, 'a) HonestChallengeTree \<Rightarrow> 'h Edge \<Rightarrow> uint64 \<Rightarrow> bool" where
  "recorded ht e c \<longleftrightarrow> Map_TryGet (mutuals_of ht (MutualId e)) (EdgeId e) = Some c"

definition roots_at :: "('h, 'a) HonestChallengeTree \<Rightarrow> ChallengeLevel \<Rightarrow> 'h Edge list" where
  "roots_at ht l = Map_Get NewSlice (honestRootEdgesByLevel ht) l"

definition tree_ok :: "('h \<Rightarrow> 'h Edge) \<Rightarrow> ('h, 'a) HonestChallengeTree \<Rightarrow> bool" where
  "tree_ok chain ht \<longleftrightarrow>
     (\<forall>i e. Map_TryGet (edges ht) i = Some e \<longrightarrow> EdgeId e = i \<and> chain i = e) \<and>
     (\<forall>m i c. (i, c) \<in> set (mutuals_of ht m) \<longrightarrow>
        EdgeId (chain i) = i \<and> MutualId (chain i) = m \<and> CreatedAtBlock (chain i) = Inr c) \<and>
     (\<forall>i e c. Map_TryGet (edges ht) i = Some e \<and> CreatedAtBlock e = Inr c \<longrightarrow> recorded ht e c) \<and>
     (\<forall>l. distinct (roots_at ht l)) \<and>
     (\<forall>l e. e \<in> set (roots_at ht l) \<longleftrightarrow>
        Map_TryGet (edges ht) (EdgeId e) = Some e \<and> ClaimId e \<noteq> None \<and> GetReversedChallengeLevel e = l)"

inductive tree_step :: "('h \<Rightarrow> 'h Edge) \<Rightarrow> ('h, 'a) HonestChallengeTree \<Rightarrow> ('h, 'a) HonestChallengeTree \<Rightarrow> bool"
  for chain where
  step_AddEdge: "chain (EdgeId e) = e \<Longrightarrow> tree_step chain ht (snd (AddEdge e ht))"
| step_AddHonestEdge: "chain (EdgeId e) = e \<Longrightarrow> tree_step chain ht (snd (AddHonestEdge e ht))"
| step_timer: "tree_step chain ht (snd (localTimer e T ht))"
| step_path_timer: "tree_step chain ht (snd (ComputeHonestPathTimer i timers T ht))"
| step_ancestors: "ComputeAncestorsWithTimers ctxErr ch i T ht = Some (r, ht') \<Longrightarrow> tree_step chain ht ht'"

inductive tree_reach :: "('h \<Rightarrow> 'h Edge) \<Rightarrow> ('h, 'a) HonestChallengeTree \<Rightarrow> ('h, 'a) HonestChallengeTree \<Rightarrow> bool"
  for chain where
  reach_refl: "tree_reach chain ht ht"
| reach_step: "tree_reach chain ht ht' \<Longrightarrow> tree_step chain ht' ht'' \<Longrightarrow> tree_reach chain ht ht''"

lemma tree_okD:
  assumes "tree_ok chain ht"
  shows "Map_TryGet (edges ht) i = Some e \<Longrightarrow> EdgeId e = i \<and> chain i = e"
    "(i, c) \<in> set (mutuals_of ht m) \<Longrightarrow>
       EdgeId (chain i) = i \<and> MutualId (chain i) = m \<and> CreatedAtBlock (chain i) = Inr c"
    "Map_TryGet (edges ht) i = Some e \<Longrightarrow> CreatedAtBlock e = Inr c \<Longrightarrow> recorded ht e c"
    "distinct (roots_at ht l)"
    "e \<in> set (roots_at ht l) \<longleftrightarrow>
       Map_TryGet (edges ht) (EdgeId e) = Some e \<and> ClaimId e \<noteq> None \<and> GetReversedChallengeLevel e = l"
  using assms unfolding tree_ok_def by blast+

lemma tree_okI:
  assumes "\<And>i e. Map_TryGet (edges ht) i = Some e \<Longrightarrow> EdgeId e = i \<and> chain i = e"
    "\<And>i c m. (i, c) \<in> set (mutuals_of ht m) \<Longrightarrow>
       EdgeId (chain i) = i \<and> MutualId (chain i) = m \<and> CreatedAtBlock (chain i) = Inr c"
    "\<And>i e c. Map_TryGet (edges ht) i = Some e \<Longrightarrow> CreatedAtBlock e = Inr c \<Longrightarrow> recorded ht e c"
    "\<And>l. distinct (roots_at ht l)"
    "\<And>e l. e \<in> set (roots_at ht l) \<longleftrightarrow>
       Map_TryGet (edges ht) (EdgeId e) = Some e \<and> ClaimId e \<noteq> None \<and> GetReversedChallengeLevel e = l"
  shows "tree_ok chain ht"
  using assms unfolding tree_ok_def by blast

lemma same_tree_ok: "same_tree ht ht' \<Longrightarrow> tree_ok chain ht' = tree_ok chain ht"
  by (simp add: tree_ok_def recorded_def roots_at_def same_tree_fields)

lemma same_tree_recorded: "same_tree ht ht' \<Longrightarrow> recorded ht' e c = recorded ht e c"
  by (simp add: recorded_def same_tree_fields)

lemma track_fields [simp]:
  "edges (track e ht) = Map_Put (EdgeId e) e (edges ht)" "mutuals_of (track e ht) = mutuals_of ht"
  "metadataReader (track e ht) = metadataReader ht" "totalChallengeLevels (track e ht) = totalChallengeLevels ht"
  by (auto simp: track_def add_root_def Let_def mutuals_of_def split: option.splits)

lemma roots_at_track:
  "roots_at (track e ht) l =
     (if ClaimId e \<noteq> None \<and> GetReversedChallengeLevel e = l then roots_at ht l @ [e] else roots_at ht l)"
  by (auto simp: track_def add_root_def Let_def roots_at_def Map_Get_TryGet Slice_Push_def NewSlice_def split: option.splits)

lemma add_mutual_known:
  assumes "CreatedAtBlock e = Inr c"
  shows "\<exists>ht'. add_mutual e ht = (Inr (), ht') \<and> edges ht' = edges ht \<and>
    honestRootEdgesByLevel ht' = honestRootEdgesByLevel ht \<and>
    mutuals_of ht' = (mutuals_of ht)(MutualId e := Map_Put (EdgeId e) c (mutuals_of ht (MutualId e)))"
proof -
  have "edges (ensure_mutuals m ht) = edges ht" "honestRootEdgesByLevel (ensure_mutuals m ht) = honestRootEdgesByLevel ht" for m
    using same_tree_fields [OF same_tree_ensure] by metis+
  moreover have "mutuals_of (ht'\<lparr>mutualIds := Map_Put m v (mutualIds ht')\<rparr>) = (mutuals_of ht')(m := v)"
    for ht' :: "('a, 'b) HonestChallengeTree" and m v
    by (rule ext) (simp add: mutuals_of_def Map_Get_TryGet)
  ultimately show ?thesis
    using assms by (simp add: add_mutual_def Let_def mutuals_of_def [symmetric])
qed

lemma add_mutual_unknown: "CreatedAtBlock e = Inl err \<Longrightarrow> add_mutual e ht = (Inl err, ensure_mutuals (MutualId e) ht)"
  by (simp add: add_mutual_def Let_def)

lemma in_set_Map_Put: "x \<in> set (Map_Put k v s) \<Longrightarrow> x = (k, v) \<or> x \<in> set s"
  unfolding Map_Put_def by (rule in_set_update)

text \<open>
  Storing an edge keeps the invariant, except that the edge is not recorded yet; recording it then
  restores the whole invariant.
\<close>

lemma add_mutual_ok:
  assumes chain: "chain (EdgeId e) = e" and tracked: "b \<longrightarrow> Map_TryGet (edges ht) (EdgeId e) = None"
    and ok: "tree_ok chain ht"
  shows "tree_ok chain (snd (add_mutual e (if b then track e ht else ht)))"
proof -
  define ht0 where "ht0 = (if b then track e ht else ht)"
  have mo: "mutuals_of ht0 = mutuals_of ht"
    and edges0: "Map_TryGet (edges ht0) i = (if b \<and> i = EdgeId e then Some e else Map_TryGet (edges ht) i)" for i
    by (simp_all add: ht0_def)
  have 1: "EdgeId e' = i \<and> chain i = e'" if "Map_TryGet (edges ht0) i = Some e'" for i e'
    using that tree_okD(1) [OF ok] chain by (auto simp: edges0 split: if_splits)
  have fresh: "e \<notin> set (roots_at ht l)" if b for l
    using that tracked tree_okD(5) [OF ok] by simp
  have roots: "distinct (roots_at ht0 l)" "e' \<in> set (roots_at ht0 l) \<longleftrightarrow>
      Map_TryGet (edges ht0) (EdgeId e') = Some e' \<and> ClaimId e' \<noteq> None \<and> GetReversedChallengeLevel e' = l" for l e'
  proof -
    show "distinct (roots_at ht0 l)" using tree_okD(4) [OF ok] fresh by (simp add: ht0_def roots_at_track)
    show "e' \<in> set (roots_at ht0 l) \<longleftrightarrow>
      Map_TryGet (edges ht0) (EdgeId e') = Some e' \<and> ClaimId e' \<noteq> None \<and> GetReversedChallengeLevel e' = l"
      using tree_okD(5) [OF ok, of e' l] fresh tracked by (auto simp: ht0_def roots_at_track)
  qed
  show ?thesis
  proof (cases "CreatedAtBlock e")
    case (Inl err)
    have "recorded ht0 e' c" if "Map_TryGet (edges ht0) i = Some e'" "CreatedAtBlock e' = Inr c" for i e' c
      using that tree_okD(3) [OF ok] Inl by (auto simp: edges0 recorded_def mo split: if_splits)
    then have "tree_ok chain ht0"
      using 1 roots tree_okD(2) [OF ok] by (intro tree_okI) (auto simp: mo)
    with Inl show ?thesis by (simp add: add_mutual_unknown ht0_def [symmetric] same_tree_ok [OF same_tree_ensure])
  next
    case (Inr c)
    obtain ht1 where ht1: "add_mutual e ht0 = (Inr (), ht1)" "edges ht1 = edges ht0"
      "honestRootEdgesByLevel ht1 = honestRootEdgesByLevel ht0"
      "mutuals_of ht1 = (mutuals_of ht0)(MutualId e := Map_Put (EdgeId e) c (mutuals_of ht0 (MutualId e)))"
      using add_mutual_known [OF Inr, of ht0] by (elim exE conjE)
    have mo1: "mutuals_of ht1 = (mutuals_of ht)(MutualId e := Map_Put (EdgeId e) c (mutuals_of ht (MutualId e)))"
      by (simp only: ht1(4) mo)
    have rec: "recorded ht1 e' c'" if "Map_TryGet (edges ht0) i = Some e'" "CreatedAtBlock e' = Inr c'" for i e' c'
    proof (cases "EdgeId e' = EdgeId e")
      case True
      then have "e' = e" using 1 [OF that(1)] chain by metis
      with that(2) Inr show ?thesis by (simp add: recorded_def mo1)
    next
      case False
      then have "recorded ht e' c'"
        using that tree_okD(3) [OF ok] 1 [OF that(1)] by (auto simp: edges0 split: if_splits)
      with False show ?thesis by (auto simp: recorded_def mo1)
    qed
    have mut: "EdgeId (chain i) = i \<and> MutualId (chain i) = m \<and> CreatedAtBlock (chain i) = Inr c'"
      if "(i, c') \<in> set (mutuals_of ht1 m)" for m i c'
    proof -
      from that consider "(i, c') \<in> set (mutuals_of ht m)" | "m = MutualId e" "i = EdgeId e" "c' = c"
        by (auto simp: mo1 dest!: in_set_Map_Put split: if_splits)
      then show ?thesis
      proof cases
        case 1
        then show ?thesis by (rule tree_okD(2) [OF ok])
      next
        case 2
        then show ?thesis by (simp add: chain Inr)
      qed
    qed
    have roots1: "roots_at ht1 = roots_at ht0" by (rule ext) (simp add: roots_at_def ht1(3))
    have "tree_ok chain ht1"
      by (rule tree_okI [of ht1, unfolded ht1(2) roots1, OF 1 mut rec roots])
    with ht1(1) show ?thesis by (simp add: ht0_def [symmetric])
  qed
qed

lemma AddEdge_cases:
  obtains (keeps) "snd (AddEdge e ht) = ht"
  | (adds) b where "Map_TryGet (edges ht) (EdgeId e) = None"
      "snd (AddEdge e ht) = snd (add_mutual e (if b then track e ht else ht))"
      "b \<longrightarrow> (\<exists>agreement. edge_agreement e ht = Inr agreement \<and> IsHonestEdge agreement)"
proof (cases "edge_agreement e ht")
  case (Inl err)
  then show ?thesis using keeps by (auto simp: AddEdge_def split: sum.splits if_splits)
next
  case (Inr a)
  show ?thesis
  proof (cases "Map_TryGet (edges ht) (EdgeId e) = None \<and>
      TopLevelAssertion (metadataReader ht) (EdgeId e) = Inr (topLevelAssertionHash ht)")
    case True
    then show ?thesis using Inr keeps adds [of "IsHonestEdge a"]
      by (cases "AgreesWithStartCommit a \<or> IsHonestEdge a")
        (auto simp: AddEdge_def Let_def snd_bindM_return split: if_splits)
  next
    case False
    then show ?thesis using keeps by (auto simp: AddEdge_def split: sum.splits if_splits)
  qed
qed

lemma AddEdge_ok: "chain (EdgeId e) = e \<Longrightarrow> tree_ok chain ht \<Longrightarrow> tree_ok chain (snd (AddEdge e ht))"
  by (rule AddEdge_cases [of e ht]) (simp_all add: add_mutual_ok)

lemma AddHonestEdge_ok:
  "chain (EdgeId e) = e \<Longrightarrow> tree_ok chain ht \<Longrightarrow> tree_ok chain (snd (AddHonestEdge e ht))"
  using add_mutual_ok [of chain e True ht] by (simp add: AddHonestEdge_def)

lemma find_loop_same_tree:
  assumes "find_loop ctxErr ch q T cursor timers ancestry ht = Some out"
  shows "same_tree ht (snd out)"
proof (rule find_loop.raw_induct [where P = "\<lambda>ctxErr ch q T cursor timers ancestry ht out. same_tree ht (snd out)", OF _ assms])
  fix f and ctxErr :: "nat \<Rightarrow> go_error option" and ch :: "'a EdgeReader" and q T cursor timers ancestry
    and ht :: "('a, 'b) HonestChallengeTree" and out
  assume IH: "\<And>ctxErr ch q T cursor timers ancestry ht out. f ctxErr ch q T cursor timers ancestry ht = Some out \<Longrightarrow> same_tree ht (snd out)"
    and eq: "(case ctxErr (length ancestry) of
        Some err \<Rightarrow> Some (Inl err, ht)
      | None \<Rightarrow>
          if EdgeId cursor = EdgeId q then Some (Inr (timers, ancestry), ht)
          else case localTimer cursor T ht of
            (Inl err, ht') \<Rightarrow> Some (Inl err, ht')
          | (Inr timer, ht') \<Rightarrow>
              (case next_cursor ch (fst (StartCommitment q)) cursor ht' of
                 Inl err \<Rightarrow> Some (Inl err, ht')
               | Inr cursor' \<Rightarrow> f ctxErr ch q T cursor' (timers @ [timer]) (ancestry @ [EdgeId cursor]) ht')) = Some out"
  obtain x ht1 where l: "localTimer cursor T ht = (x, ht1)" by (cases "localTimer cursor T ht")
  then have 1: "same_tree ht ht1" using localTimer_same_tree [of ht cursor T] by simp
  from eq l consider "snd out = ht" | "snd out = ht1"
    | c t where "f ctxErr ch q T c (timers @ [t]) (ancestry @ [EdgeId cursor]) ht1 = Some out"
    by (auto split: option.splits if_splits sum.splits)
  then show "same_tree ht (snd out)"
    by cases (use 1 IH same_tree_trans [OF 1] in simp_all)
qed

lemma ancestors_loop_same_tree:
  "ancestors_loop ctxErr ch T level e timers ancestry ht = Some out \<Longrightarrow> same_tree ht (snd out)"
proof (induction ctxErr ch T level e timers ancestry ht rule: ancestors_loop.induct)
  case (1 ctxErr ch T level e timers ancestry ht)
  note eq = "1.prems" [unfolded ancestors_loop.simps [of ctxErr ch T level e timers ancestry ht]]
  show ?case
  proof (cases "level < totalChallengeLevels ht")
    case level: True
    show ?thesis
    proof (cases "honestRootAncestorAtChallengeLevel e level ht")
      case root: (Inr root)
      show ?thesis
      proof (cases "findHonestAncestorsWithinChallengeLevel (ctxErr level) ch root e T ht")
        case found: (Some p)
        then have 1: "same_tree ht (snd p)"
          unfolding findHonestAncestorsWithinChallengeLevel_def by (rule find_loop_same_tree)
        show ?thesis
        proof (cases "fst p")
          case (Inl err)
          with eq level root found 1 show ?thesis by (cases p) auto
        next
          case x: (Inr x)
          obtain timers' ids' ht1 where p: "p = (Inr (timers', ids'), ht1)" using x by (cases p; cases x) auto
          have last: "same_tree ht (snd out)" if "out = (y, ht1)" for y using 1 p that by simp
          have "same_tree ht (snd out)"
            if claimed: "getClaimedEdge root ht1 = Inr c" "level + 1 \<noteq> totalChallengeLevels ht" for c
          proof -
            obtain t ht2 where t: "localTimer c T ht1 = (t, ht2)" by (cases "localTimer c T ht1")
            then have 2: "same_tree ht ht2"
              using localTimer_same_tree [of ht1 c T] 1 p same_tree_trans by auto
            show ?thesis
            proof (cases t)
              case (Inl err)
              with eq level root found p claimed t 2 show ?thesis by (auto simp: Let_def)
            next
              case (Inr v)
              have "same_tree ht2 (snd out)"
                using "1.IH" [OF level root found p [symmetric] refl refl refl refl refl claimed(2,1) t [symmetric] Inr]
                  eq level root found p claimed t Inr by (simp add: Let_def)
              with 2 show ?thesis by (rule same_tree_trans)
            qed
          qed
          with eq level root found p last show ?thesis
            by (cases "getClaimedEdge root ht1") (auto simp: Let_def split: if_splits)
        qed
      qed (use eq level root in simp)
    qed (use eq level in auto)
  qed (use eq in auto)
qed

lemma ComputeAncestors_same_tree:
  "ComputeAncestorsWithTimers ctxErr ch i T ht = Some (r, ht') \<Longrightarrow> same_tree ht ht'"
  by (auto simp: ComputeAncestorsWithTimers_def split: option.splits sum.splits prod.splits dest!: ancestors_loop_same_tree)

lemma ComputeHonestPathTimer_same_tree: "same_tree ht (snd (ComputeHonestPathTimer i timers T ht))"
proof (cases "Map_TryGet (edges ht) i")
  case (Some e)
  then show ?thesis using localTimer_same_tree [of ht e T]
    by (auto simp: ComputeHonestPathTimer_def bindM_def op_defs split: prod.splits sum.splits)
qed (simp add: ComputeHonestPathTimer_def)

lemma tree_step_ok:
  assumes "tree_step chain ht ht'" "tree_ok chain ht"
  shows "tree_ok chain ht'"
  using assms
proof cases
  case (step_timer e T)
  then show ?thesis using assms same_tree_ok [OF localTimer_same_tree [of ht e T], of chain] by simp
next
  case (step_path_timer i timers T)
  then show ?thesis using assms same_tree_ok [OF ComputeHonestPathTimer_same_tree [of ht i timers T], of chain] by simp
next
  case (step_ancestors ctxErr ch i T r)
  then show ?thesis using assms same_tree_ok [OF ComputeAncestors_same_tree [OF step_ancestors], of chain] by simp
qed (auto intro: AddEdge_ok AddHonestEdge_ok assms)

lemma tree_reach_ok: "tree_reach chain ht ht' \<Longrightarrow> tree_ok chain ht \<Longrightarrow> tree_ok chain ht'"
  by (induction rule: tree_reach.induct) (auto intro: tree_step_ok)

lemma Tree_New_ok: "tree_ok chain (Tree_New h reader checker n name)"
  by (rule tree_okI) (auto simp: Tree_New_def mutuals_of_def roots_at_def Map_Get_TryGet NewMap_def NewSlice_def Map_TryGet_def)

end
