(* ===== verification/Path_Timers.thy ===== *)
theory Path_Timers
  imports Challenge_Tree
begin

text \<open>
  What the timers of the honest challenge tree mean: local timers count unrivaled blocks, rivals never
  both accumulate time, the sum over an edge's ancestors decides confirmability, and the ancestors that
  the tree computes are the edges on the way from the root of each level.
\<close>

subsection \<open>The tree only grows\<close>

lemma set_Map_Put_same:
  assumes "\<And>x. (k, x) \<in> set s \<Longrightarrow> x = v"
  shows "set (Map_Put k v s) = insert (k, v) (set s)"
  using assms
proof (induction s)
  case (Cons y s)
  then show ?case by (cases y) (auto simp: Map_Put_def)
qed (simp add: Map_Put_def)

definition extends :: "('h, 'a) HonestChallengeTree \<Rightarrow> ('h, 'a) HonestChallengeTree \<Rightarrow> bool" where
  "extends ht ht' \<longleftrightarrow> (\<forall>m. set (mutuals_of ht m) \<subseteq> set (mutuals_of ht' m)) \<and>
     (\<forall>i e. Map_TryGet (edges ht) i = Some e \<longrightarrow> Map_TryGet (edges ht') i = Some e)"

lemma extends_refl [simp]: "extends ht ht"
  by (simp add: extends_def)

lemma extends_trans: "extends ht ht' \<Longrightarrow> extends ht' ht'' \<Longrightarrow> extends ht ht''"
  unfolding extends_def by blast

lemma same_tree_extends: "same_tree ht ht' \<Longrightarrow> extends ht ht'"
  by (simp add: extends_def same_tree_fields)

lemma add_mutual_extends:
  assumes "chain (EdgeId e) = e" "tree_ok chain ht" "b \<longrightarrow> Map_TryGet (edges ht) (EdgeId e) = None"
  shows "extends ht (snd (add_mutual e (if b then track e ht else ht)))"
proof -
  define ht0 where "ht0 = (if b then track e ht else ht)"
  have 0: "extends ht ht0" using assms(3) by (auto simp: ht0_def extends_def)
  have "extends ht0 (snd (add_mutual e ht0))"
  proof (cases "CreatedAtBlock e")
    case (Inr c)
    obtain ht1 where ht1: "add_mutual e ht0 = (Inr (), ht1)" "edges ht1 = edges ht0"
      "mutuals_of ht1 = (mutuals_of ht0)(MutualId e := Map_Put (EdgeId e) c (mutuals_of ht0 (MutualId e)))"
      using add_mutual_known [OF Inr, of ht0] by metis
    have "mutuals_of ht0 = mutuals_of ht" by (simp add: ht0_def)
    then have "x = c" if "(EdgeId e, x) \<in> set (mutuals_of ht0 (MutualId e))" for x
      using that tree_okD(2) [OF assms(2), of "EdgeId e" x "MutualId e"] assms(1) Inr by simp
    then have "set (Map_Put (EdgeId e) c (mutuals_of ht0 (MutualId e))) = insert (EdgeId e, c) (set (mutuals_of ht0 (MutualId e)))"
      by (rule set_Map_Put_same)
    with ht1 show ?thesis by (auto simp: extends_def)
  qed (simp add: add_mutual_unknown same_tree_extends)
  with 0 show ?thesis unfolding ht0_def by (rule extends_trans)
qed

lemma tree_step_extends:
  assumes "tree_step chain ht ht'" "tree_ok chain ht"
  shows "extends ht ht'"
  using assms(1)
proof cases
  case (step_AddEdge e)
  then show ?thesis
    using assms(2) by (cases rule: AddEdge_cases [of e ht]) (simp_all add: add_mutual_extends)
next
  case (step_AddHonestEdge e)
  then show ?thesis
    using add_mutual_extends [of chain e ht True] assms(2) by (simp add: AddHonestEdge_def)
qed (auto intro: same_tree_extends localTimer_same_tree ComputeHonestPathTimer_same_tree ComputeAncestors_same_tree)

lemma tree_reach_extends:
  assumes "tree_reach chain ht ht'" "tree_ok chain ht"
  shows "extends ht ht'"
  using assms
proof (induction rule: tree_reach.induct)
  case (reach_step ht ht' ht'')
  then show ?case using tree_step_extends tree_reach_ok extends_trans by blast
qed simp

lemma recorded_iff_mem:
  assumes "tree_ok chain ht" "chain (EdgeId e) = e" "(EdgeId e, c) \<in> set (mutuals_of ht (MutualId e))"
  shows "CreatedAtBlock e = Inr c"
  using tree_okD(2) [OF assms(1,3)] assms(2) by simp

text \<open>An edge whose start commitment was agreed with is recorded by \<^verbatim>\<open>AddEdge\<close>.\<close>

lemma AddEdge_records:
  assumes "AddEdge e ht = (Inr a, ht')" "AgreesWithStartCommit a \<or> IsHonestEdge a"
  shows "\<exists>c. CreatedAtBlock e = Inr c \<and> (EdgeId e, c) \<in> set (mutuals_of ht' (MutualId e))"
proof -
  from assms obtain ht0 where ht0: "add_mutual e ht0 = (Inr (), ht')"
    by (auto simp: AddEdge_def Let_def bindM_def returnM_def split: if_splits sum.splits prod.splits)
  show ?thesis
  proof (cases "CreatedAtBlock e")
    case (Inl err)
    with ht0 show ?thesis by (simp add: add_mutual_unknown)
  next
    case (Inr c)
    with ht0 add_mutual_known [OF Inr, of ht0]
    have "Map_TryGet (mutuals_of ht' (MutualId e)) (EdgeId e) = Some c" by auto
    then have "(EdgeId e, c) \<in> set (mutuals_of ht' (MutualId e))" unfolding Map_TryGet_def by (rule map_of_SomeD)
    with Inr show ?thesis by blast
  qed
qed

lemma mem_rival_blocks: "r \<in> set (rival_blocks ht e) \<longleftrightarrow> (\<exists>i. (i, r) \<in> set (mutuals_of ht (MutualId e)) \<and> i \<noteq> EdgeId e)"
  by (force simp: rival_blocks_def)

lemma timer_value_zero: "r \<in> set rs \<Longrightarrow> r \<le> c \<Longrightarrow> timer_value c T rs = 0"
proof -
  assume "r \<in> set rs" "r \<le> c"
  then have "{t. unat c \<le> t \<and> t < unat T \<and> (\<forall>r\<in>set rs. t < unat r)} = {}" by (force simp: word_le_nat_alt)
  then have "unat (timer_value c T rs) = 0" unfolding timer_value_card by (simp only: card.empty)
  then show ?thesis by (simp add: unat_eq_zero)
qed

subsection \<open>Properties of local timers\<close>

text \<open>
  C23. In every state that a challenge tree reaches from its creation by adding edges and computing timers,
  its maps are consistent: edges are stored under their ids, creation blocks under the right mutual
  id, tracked edges are recorded among the edges of their mutual id, and the root edges of a level are
  exactly the tracked edges of that level that claim something, each once.
\<close>

theorem tree_invariant:
  assumes "tree_reach chain (Tree_New h reader checker n name) ht"
  shows "tree_ok chain ht"
  using assms Tree_New_ok by (rule tree_reach_ok)

text \<open>
  C19. The local timer of an edge at block \<open>T\<close> is the number of blocks from its creation up to \<open>T\<close> at which
  none of the recorded edges with its mutual id, other than itself, had been created.
\<close>

theorem localTimer_counts_unrivaled_blocks:
  assumes "CreatedAtBlock e = Inr c"
  shows "\<exists>n. fst (localTimer e T ht) = Inr n \<and>
    unat n = card {t. unat c \<le> t \<and> t < unat T \<and>
      (\<forall>(i, r)\<in>set (mutuals_of ht (MutualId e)). i \<noteq> EdgeId e \<longrightarrow> t < unat r)}"
proof -
  have "(\<forall>r\<in>set (rival_blocks ht e). t < unat r) \<longleftrightarrow>
      (\<forall>(i, r)\<in>set (mutuals_of ht (MutualId e)). i \<noteq> EdgeId e \<longrightarrow> t < unat r)" for t
    unfolding Ball_def mem_rival_blocks by auto
  with localTimer_eq [OF assms, of T ht] timer_value_card [of c T "rival_blocks ht e"] show ?thesis by auto
qed

text \<open>
  C20. Two rivals never both accumulate time: once \<^verbatim>\<open>AddEdge\<close> has recorded two different edges with the same
  mutual id, however many other operations ran in between and after, at every block one of the two
  local timers is zero.
\<close>

theorem rivals_never_both_accumulate:
  assumes reach: "tree_reach chain (Tree_New h reader checker n name) ht"
    and chain: "chain (EdgeId e1) = e1" "chain (EdgeId e2) = e2"
    and add1: "AddEdge e1 ht = (Inr a1, ht1)" "AgreesWithStartCommit a1 \<or> IsHonestEdge a1" "tree_reach chain ht1 ht2"
    and add2: "AddEdge e2 ht2 = (Inr a2, ht3)" "AgreesWithStartCommit a2 \<or> IsHonestEdge a2" "tree_reach chain ht3 ht4"
    and rivals: "MutualId e1 = MutualId e2" "EdgeId e1 \<noteq> EdgeId e2"
  shows "fst (localTimer e1 T ht4) = Inr 0 \<or> fst (localTimer e2 T ht4) = Inr 0"
proof -
  have ok: "tree_ok chain ht" using reach Tree_New_ok by (rule tree_reach_ok)
  then have ok1: "tree_ok chain ht1" using AddEdge_ok [where chain = chain and e = e1, OF chain(1)] add1(1) by (metis snd_conv)
  then have ok2: "tree_ok chain ht2" using add1(3) tree_reach_ok by blast
  then have ok3: "tree_ok chain ht3" using AddEdge_ok [where chain = chain and e = e2, OF chain(2)] add2(1) by (metis snd_conv)
  have "tree_step chain ht2 ht3" using step_AddEdge [where e = e2 and ht = ht2] chain(2) add2(1) by force
  then have ext: "extends ht1 ht4"
    using tree_reach_extends [OF add1(3) ok1] tree_step_extends ok2 tree_reach_extends [OF add2(3) ok3] extends_trans by blast
  obtain c1 where c1: "CreatedAtBlock e1 = Inr c1" "(EdgeId e1, c1) \<in> set (mutuals_of ht1 (MutualId e1))"
    using AddEdge_records [OF add1(1,2)] by blast
  obtain c2 where c2: "CreatedAtBlock e2 = Inr c2" "(EdgeId e2, c2) \<in> set (mutuals_of ht3 (MutualId e2))"
    using AddEdge_records [OF add2(1,2)] by blast
  have "(EdgeId e1, c1) \<in> set (mutuals_of ht4 (MutualId e2))"
    using c1(2) ext unfolding extends_def rivals(1) by blast
  moreover have "(EdgeId e2, c2) \<in> set (mutuals_of ht4 (MutualId e1))"
    using c2(2) tree_reach_extends [OF add2(3) ok3] unfolding extends_def rivals(1) by blast
  ultimately have "c1 \<in> set (rival_blocks ht4 e2)" "c2 \<in> set (rival_blocks ht4 e1)"
    using rivals(2) unfolding mem_rival_blocks by (blast, metis)
  then have "timer_value c1 T (rival_blocks ht4 e1) = 0 \<or> timer_value c2 T (rival_blocks ht4 e2) = 0"
    using timer_value_zero [of c2 "rival_blocks ht4 e1" c1 T] timer_value_zero [of c1 "rival_blocks ht4 e2" c2 T] by force
  then show ?thesis using localTimer_eq [OF c1(1), of T ht4] localTimer_eq [OF c2(1), of T ht4] by force
qed

text \<open>
  What a tree learns later never raises the local timer of an edge at a block, and edges created at or
  after the block do not change it.
\<close>

theorem localTimer_stable:
  assumes "tree_ok chain ht" "tree_reach chain ht ht'" "CreatedAtBlock e = Inr c"
  shows "\<exists>n n'. fst (localTimer e T ht) = Inr n \<and> fst (localTimer e T ht') = Inr n' \<and> n' \<le> n \<and>
    ((\<forall>(i, r)\<in>set (mutuals_of ht' (MutualId e)) - set (mutuals_of ht (MutualId e)). T \<le> r) \<longrightarrow> n' = n)"
proof -
  let ?S = "\<lambda>ht. {t. unat c \<le> t \<and> t < unat T \<and> (\<forall>r\<in>set (rival_blocks ht e). t < unat r)}"
  have ext: "extends ht ht'" using tree_reach_extends [OF assms(2,1)] .
  have sub: "set (rival_blocks ht e) \<subseteq> set (rival_blocks ht' e)"
    using ext unfolding extends_def subset_iff mem_rival_blocks by blast
  have "?S ht' \<subseteq> ?S ht" using sub by blast
  then have "unat (timer_value c T (rival_blocks ht' e)) \<le> unat (timer_value c T (rival_blocks ht e))"
    unfolding timer_value_card by (rule card_mono [rotated]) simp
  moreover have "?S ht' = ?S ht"
    if late: "\<forall>(i, r)\<in>set (mutuals_of ht' (MutualId e)) - set (mutuals_of ht (MutualId e)). T \<le> r"
  proof -
    have "t < unat r" if t: "t \<in> ?S ht" and r: "r \<in> set (rival_blocks ht' e)" for t r
    proof (cases "r \<in> set (rival_blocks ht e)")
      case False
      then obtain i where "(i, r) \<in> set (mutuals_of ht' (MutualId e)) - set (mutuals_of ht (MutualId e))"
        using r unfolding mem_rival_blocks by blast
      with late have "T \<le> r" by blast
      with t show ?thesis by (simp add: word_le_nat_alt)
    qed (use t in blast)
    with \<open>?S ht' \<subseteq> ?S ht\<close> show ?thesis by blast
  qed
  then have "timer_value c T (rival_blocks ht' e) = timer_value c T (rival_blocks ht e)"
    if "\<forall>(i, r)\<in>set (mutuals_of ht' (MutualId e)) - set (mutuals_of ht (MutualId e)). T \<le> r"
    using that timer_value_card [of c T "rival_blocks ht' e"] timer_value_card [of c T "rival_blocks ht e"]
    by (metis (no_types, lifting) word_unat_eq_iff)
  ultimately show ?thesis
    using localTimer_eq [OF assms(3), of T ht] localTimer_eq [OF assms(3), of T ht'] by (fastforce simp: word_le_nat_alt)
qed

subsection \<open>Path timers\<close>

lemma confirmable_loop_iff:
  assumes "unat acc + sum_list (map unat timers) < 2 ^ 64"
  shows "confirmable_loop period acc timers \<longleftrightarrow>
    timers \<noteq> [] \<and> unat period \<le> unat acc + sum_list (map unat timers)"
  using assms
proof (induction timers arbitrary: acc)
  case (Cons t ts)
  then have "unat (acc + t) = unat acc + unat t" by (simp add: unat_word_ariths)
  with Cons show ?case by (auto simp: Let_def word_le_nat_alt)
qed simp

lemma foldl_plus_unat:
  assumes "unat (acc :: uint64) + sum_list (map unat timers) < 2 ^ 64"
  shows "unat (foldl (\<lambda>acc timer. acc + timer) acc timers) = unat acc + sum_list (map unat timers)"
  using assms
proof (induction timers arbitrary: acc)
  case (Cons t ts)
  then have "unat (acc + t) = unat acc + unat t" by (simp add: unat_word_ariths)
  with Cons show ?case by simp
qed simp

text \<open>
  As long as the sum fits 64 bits, an edge has a confirmable ancestor exactly when it has ancestors and the
  unrivaled blocks of the challenged assertion plus the local timers of all the ancestors reach the
  challenge period; so stopping at the first prefix that reaches it loses nothing.
\<close>

theorem HasConfirmableAncestor_iff:
  assumes "AssertionUnrivaledBlocks (metadataReader ht) (topLevelAssertionHash ht) = Inr base"
    and "unat base + sum_list (map unat timers) < 2 ^ 64"
  shows "HasConfirmableAncestor ht timers period =
    Inr (timers \<noteq> [] \<and> unat period \<le> unat base + sum_list (map unat timers))"
  using assms confirmable_loop_iff [OF assms(2)] by (simp add: HasConfirmableAncestor_def)

subsection \<open>Ancestors within a level\<close>

text \<open>
  \<open>bisection_tree ch es\<close>: the children of tracked edges, where tracked themselves, split the heights of their
  parent at its bisection point. \<open>descends ch es q e p\<close>: \<open>p\<close> lists the edges from \<open>e\<close> down to the parent of
  \<open>q\<close> along the children.
\<close>

definition heights :: "'h Edge \<Rightarrow> uint64 \<times> uint64" where
  "heights e = (fst (StartCommitment e), fst (EndCommitment e))"

definition bisection_tree :: "'h EdgeReader \<Rightarrow> ('h, 'h Edge) gomap \<Rightarrow> bool" where
  "bisection_tree ch es \<longleftrightarrow>
     (\<forall>i e. Map_TryGet es i = Some e \<longrightarrow> EdgeId e = i \<and>
        unat (fst (heights e)) < unat (snd (heights e)) \<and> unat (snd (heights e)) + 1 < 2 ^ 64 \<and>
        (\<forall>j e'. LowerChild ch i = Inr (Some j) \<and> Map_TryGet es j = Some e' \<longrightarrow>
           (\<exists>m. Bisect (fst (heights e)) (snd (heights e)) = Inr m \<and> heights e' = (fst (heights e), m))) \<and>
        (\<forall>j e'. UpperChild ch i = Inr (Some j) \<and> Map_TryGet es j = Some e' \<longrightarrow>
           (\<exists>m. Bisect (fst (heights e)) (snd (heights e)) = Inr m \<and> heights e' = (m, snd (heights e)))))"

inductive descends :: "'h EdgeReader \<Rightarrow> ('h, 'h Edge) gomap \<Rightarrow> 'h Edge \<Rightarrow> 'h Edge \<Rightarrow> 'h Edge list \<Rightarrow> bool"
  for ch es q where
  here: "descends ch es q q []"
| lower: "LowerChild ch (EdgeId e) = Inr (Some i) \<Longrightarrow> Map_TryGet es i = Some e' \<Longrightarrow> descends ch es q e' p \<Longrightarrow>
    descends ch es q e (e # p)"
| upper: "UpperChild ch (EdgeId e) = Inr (Some i) \<Longrightarrow> Map_TryGet es i = Some e' \<Longrightarrow> descends ch es q e' p \<Longrightarrow>
    descends ch es q e (e # p)"

lemma bisection_treeD:
  assumes "bisection_tree ch es" "Map_TryGet es i = Some e"
  shows "EdgeId e = i" "unat (fst (heights e)) < unat (snd (heights e))" "unat (snd (heights e)) + 1 < 2 ^ 64"
  using assms unfolding bisection_tree_def by blast+

lemma bisection_tree_lower:
  assumes "bisection_tree ch es" "Map_TryGet es (EdgeId e) = Some e"
    "LowerChild ch (EdgeId e) = Inr (Some j)" "Map_TryGet es j = Some e'"
  shows "\<exists>m. Bisect (fst (heights e)) (snd (heights e)) = Inr m \<and> heights e' = (fst (heights e), m) \<and>
    unat (fst (heights e)) < unat m \<and> unat m < unat (snd (heights e))"
proof -
  obtain m where "Bisect (fst (heights e)) (snd (heights e)) = Inr m" "heights e' = (fst (heights e), m)"
    using assms unfolding bisection_tree_def by blast
  with bisect.point_inside [OF bisection_treeD(2,3) [OF assms(1,2)]] show ?thesis by blast
qed

lemma bisection_tree_upper:
  assumes "bisection_tree ch es" "Map_TryGet es (EdgeId e) = Some e"
    "UpperChild ch (EdgeId e) = Inr (Some j)" "Map_TryGet es j = Some e'"
  shows "\<exists>m. Bisect (fst (heights e)) (snd (heights e)) = Inr m \<and> heights e' = (m, snd (heights e)) \<and>
    unat (fst (heights e)) < unat m \<and> unat m < unat (snd (heights e))"
proof -
  obtain m where "Bisect (fst (heights e)) (snd (heights e)) = Inr m" "heights e' = (m, snd (heights e))"
    using assms unfolding bisection_tree_def by blast
  with bisect.point_inside [OF bisection_treeD(2,3) [OF assms(1,2)]] show ?thesis by blast
qed

lemma tracked_key:
  "bisection_tree ch es \<Longrightarrow> Map_TryGet es i = Some e \<Longrightarrow> Map_TryGet es (EdgeId e) = Some e"
  using bisection_treeD(1) by metis

lemma descends_heights:
  assumes "descends ch es q e p" "bisection_tree ch es" "Map_TryGet es (EdgeId e) = Some e"
  shows "Map_TryGet es (EdgeId q) = Some q \<and> unat (fst (heights e)) \<le> unat (fst (heights q)) \<and>
    unat (snd (heights q)) \<le> unat (snd (heights e)) \<and> unat (fst (heights q)) < unat (snd (heights q)) \<and>
    unat (snd (heights q)) - unat (fst (heights q)) + length p \<le> unat (snd (heights e)) - unat (fst (heights e))"
  using assms
proof (induction rule: descends.induct)
  case here
  then show ?case using bisection_treeD(2) by auto
next
  case (lower e i e' p)
  from bisection_tree_lower [OF lower.prems lower(1,2)] lower.IH [OF lower.prems(1) tracked_key [OF lower.prems(1) lower(2)]]
  show ?case by auto
next
  case (upper e i e' p)
  from bisection_tree_upper [OF upper.prems upper(1,2)] upper.IH [OF upper.prems(1) tracked_key [OF upper.prems(1) upper(2)]]
  show ?case by auto
qed

text \<open>The local timer of an edge in a tree as a value.\<close>

definition timer_in :: "('h, 'a) HonestChallengeTree \<Rightarrow> uint64 \<Rightarrow> 'h Edge \<Rightarrow> uint64" where
  "timer_in ht T e = (case fst (localTimer e T ht) of Inr n \<Rightarrow> n | Inl _ \<Rightarrow> 0)"

lemma timer_in_same_tree: "same_tree ht ht' \<Longrightarrow> timer_in ht' T = timer_in ht T"
  by (rule ext) (simp add: timer_in_def localTimer_cong)

lemma localTimer_timer_in:
  assumes "CreatedAtBlock e = Inr c"
  shows "\<exists>ht'. localTimer e T ht = (Inr (timer_in ht T e), ht') \<and> same_tree ht ht'"
  using localTimer_eq [OF assms, of T ht] by (auto simp: timer_in_def)

definition known_creation :: "('h, 'h Edge) gomap \<Rightarrow> bool" where
  "known_creation es \<longleftrightarrow> (\<forall>i e. Map_TryGet es i = Some e \<longrightarrow> (\<exists>c. CreatedAtBlock e = Inr c))"

text \<open>One iteration of the search on the way to an edge below the cursor.\<close>

lemma find_loop_step:
  fixes ht :: "('h, 'a) HonestChallengeTree"
  assumes "EdgeId e \<noteq> EdgeId q" "Map_TryGet (edges ht) (EdgeId e) = Some e" "known_creation (edges ht)"
    and "\<And>ht' :: ('h, 'a) HonestChallengeTree. edges ht' = edges ht \<Longrightarrow> next_cursor ch (fst (StartCommitment q)) e ht' = Inr e'"
  shows "\<exists>ht'. find_loop (\<lambda>_. None) ch q T e timers anc ht =
      find_loop (\<lambda>_. None) ch q T e' (timers @ [timer_in ht T e]) (anc @ [EdgeId e]) ht' \<and> same_tree ht ht'"
proof -
  obtain c where "CreatedAtBlock e = Inr c" using assms(2,3) by (auto simp: known_creation_def)
  then obtain ht' where ht': "localTimer e T ht = (Inr (timer_in ht T e), ht')" "same_tree ht ht'"
    using localTimer_timer_in by blast
  then show ?thesis using assms(1) assms(4) [OF same_tree_fields(1) [OF ht'(2)]]
    by (subst find_loop.simps) (simp, blast)
qed

lemma find_loop_path:
  assumes "descends ch es q e p" "bisection_tree ch es" "known_creation es"
    "Map_TryGet es (EdgeId e) = Some e" "edges ht = es"
  shows "\<exists>ht'. find_loop (\<lambda>_. None) ch q T e timers anc ht =
      Some (Inr (timers @ map (timer_in ht T) p, anc @ map EdgeId p), ht') \<and> same_tree ht ht'"
  using assms
proof (induction arbitrary: timers anc ht rule: descends.induct)
  case here
  then show ?case by (subst find_loop.simps) auto
next
  case (lower e i e' p)
  obtain m where m: "Bisect (fst (heights e)) (snd (heights e)) = Inr m" "heights e' = (fst (heights e), m)"
    "unat m < unat (snd (heights e))"
    using bisection_tree_lower [OF lower.prems(1,3) lower(1,2)] by blast
  have key: "Map_TryGet es (EdgeId e') = Some e'" by (rule tracked_key [OF lower.prems(1) lower(2)])
  note h = descends_heights [OF lower(3) lower.prems(1) key]
  have "EdgeId e \<noteq> EdgeId q"
  proof
    assume "EdgeId e = EdgeId q"
    then have "q = e" using h lower.prems(3) by (metis option.inject)
    with h m show False by simp
  qed
  moreover have "next_cursor ch (fst (StartCommitment q)) e ht' = Inr e'" if "edges ht' = edges ht"
    for ht' :: "('a, 'b) HonestChallengeTree"
    using that m h lower(1,2) lower.prems(4)
    by (simp add: next_cursor_def child_cursor_def heights_def word_less_nat_alt)
  ultimately obtain ht1 where ht1: "find_loop (\<lambda>_. None) ch q T e timers anc ht =
      find_loop (\<lambda>_. None) ch q T e' (timers @ [timer_in ht T e]) (anc @ [EdgeId e]) ht1" "same_tree ht ht1"
    using find_loop_step [of e q ht ch e' T timers anc] lower.prems by blast
  have "edges ht1 = es" using same_tree_fields(1) [OF ht1(2)] lower.prems(4) by simp
  from lower.IH [OF lower.prems(1,2) key this, of "timers @ [timer_in ht T e]" "anc @ [EdgeId e]"]
  obtain ht2 where "find_loop (\<lambda>_. None) ch q T e' (timers @ [timer_in ht T e]) (anc @ [EdgeId e]) ht1 =
      Some (Inr ((timers @ [timer_in ht T e]) @ map (timer_in ht1 T) p, (anc @ [EdgeId e]) @ map EdgeId p), ht2)"
    "same_tree ht1 ht2" by blast
  moreover have "map (timer_in ht1 T) p = map (timer_in ht T) p" by (simp add: timer_in_same_tree [OF ht1(2)])
  ultimately show ?case using ht1 same_tree_trans [OF ht1(2)] by simp
next
  case (upper e i e' p)
  obtain m where m: "Bisect (fst (heights e)) (snd (heights e)) = Inr m" "heights e' = (m, snd (heights e))"
    "unat (fst (heights e)) < unat m"
    using bisection_tree_upper [OF upper.prems(1,3) upper(1,2)] by blast
  have key: "Map_TryGet es (EdgeId e') = Some e'" by (rule tracked_key [OF upper.prems(1) upper(2)])
  note h = descends_heights [OF upper(3) upper.prems(1) key]
  have "EdgeId e \<noteq> EdgeId q"
  proof
    assume "EdgeId e = EdgeId q"
    then have "q = e" using h upper.prems(3) by (metis option.inject)
    with h m show False by simp
  qed
  moreover have "next_cursor ch (fst (StartCommitment q)) e ht' = Inr e'" if "edges ht' = edges ht"
    for ht' :: "('a, 'b) HonestChallengeTree"
    using that m h upper(1,2) upper.prems(4)
    by (simp add: next_cursor_def child_cursor_def heights_def word_less_nat_alt)
  ultimately obtain ht1 where ht1: "find_loop (\<lambda>_. None) ch q T e timers anc ht =
      find_loop (\<lambda>_. None) ch q T e' (timers @ [timer_in ht T e]) (anc @ [EdgeId e]) ht1" "same_tree ht ht1"
    using find_loop_step [of e q ht ch e' T timers anc] upper.prems by blast
  have "edges ht1 = es" using same_tree_fields(1) [OF ht1(2)] upper.prems(4) by simp
  from upper.IH [OF upper.prems(1,2) key this, of "timers @ [timer_in ht T e]" "anc @ [EdgeId e]"]
  obtain ht2 where "find_loop (\<lambda>_. None) ch q T e' (timers @ [timer_in ht T e]) (anc @ [EdgeId e]) ht1 =
      Some (Inr ((timers @ [timer_in ht T e]) @ map (timer_in ht1 T) p, (anc @ [EdgeId e]) @ map EdgeId p), ht2)"
    "same_tree ht1 ht2" by blast
  moreover have "map (timer_in ht1 T) p = map (timer_in ht T) p" by (simp add: timer_in_same_tree [OF ht1(2)])
  ultimately show ?case using ht1 same_tree_trans [OF ht1(2)] by simp
qed

lemma child_cursor_tracked:
  "child_cursor child err ht = Inr e' \<Longrightarrow> \<exists>j. child = Inr (Some j) \<and> Map_TryGet (edges ht) j = Some e'"
  by (auto simp: child_cursor_def bindR_eq_Inr split: option.splits)

lemma next_cursor_shrinks:
  assumes "next_cursor ch w e ht = Inr e'" "bisection_tree ch (edges ht)" "Map_TryGet (edges ht) (EdgeId e) = Some e"
  shows "Map_TryGet (edges ht) (EdgeId e') = Some e' \<and>
    unat (snd (heights e')) - unat (fst (heights e')) < unat (snd (heights e)) - unat (fst (heights e))"
proof -
  from assms(1) consider "child_cursor (LowerChild ch (EdgeId e)) ErrNoLowerChildYet ht = Inr e'"
    | "child_cursor (UpperChild ch (EdgeId e)) (ErrMsg ''edge %#x had no upper child'') ht = Inr e'"
    by (auto simp: next_cursor_def bindR_eq_Inr split: if_splits)
  then show ?thesis
  proof cases
    case 1
    then obtain j where "LowerChild ch (EdgeId e) = Inr (Some j)" "Map_TryGet (edges ht) j = Some e'"
      using child_cursor_tracked by metis
    with bisection_tree_lower [OF assms(2,3)] tracked_key [OF assms(2)] show ?thesis by fastforce
  next
    case 2
    then obtain j where "UpperChild ch (EdgeId e) = Inr (Some j)" "Map_TryGet (edges ht) j = Some e'"
      using child_cursor_tracked by metis
    with bisection_tree_upper [OF assms(2,3)] tracked_key [OF assms(2)] show ?thesis by fastforce
  qed
qed

lemma find_loop_returns:
  assumes "bisection_tree ch (edges ht)" "Map_TryGet (edges ht) (EdgeId e) = Some e"
  shows "\<exists>out. find_loop ctxErr ch q T e timers anc ht = Some out"
  using assms
proof (induction "unat (snd (heights e)) - unat (fst (heights e))" arbitrary: e timers anc ht rule: less_induct)
  case less
  obtain x ht1 where l: "localTimer e T ht = (x, ht1)" by (cases "localTimer e T ht")
  then have ed: "edges ht1 = edges ht" using same_tree_fields(1) [OF localTimer_same_tree [of ht e T]] by simp
  have "\<exists>out. find_loop ctxErr ch q T e' (timers @ [t]) (anc @ [EdgeId e]) ht1 = Some out"
    if "next_cursor ch (fst (StartCommitment q)) e ht1 = Inr e'" for e' t
    using next_cursor_shrinks [OF that] less.hyps [of e' ht1] less.prems unfolding ed by blast
  with l show ?case
    by (subst find_loop.simps) (auto split: option.splits sum.splits)
qed

subsection \<open>Ancestors across levels\<close>

lemma honestRoot_tracked:
  assumes "tree_ok chain ht" "honestRootAncestorAtChallengeLevel e level ht = Inr root"
  shows "Map_TryGet (edges ht) (EdgeId root) = Some root \<and> OriginId root = OriginId e"
proof -
  from assms(2) have "root \<in> set (roots_at ht level)" "OriginId root = OriginId e"
    by (auto simp: honestRootAncestorAtChallengeLevel_def findOriginEdge_def roots_at_def Map_Get_TryGet find_Some_iff
        split: option.splits)
  with tree_okD(5) [OF assms(1)] show ?thesis by blast
qed

lemma ancestors_loop_returns:
  assumes "tree_ok chain ht" "bisection_tree ch (edges ht)"
  shows "\<exists>out. ancestors_loop ctxErr ch T level e timers anc ht = Some out"
  using assms
proof (induction ctxErr ch T level e timers anc ht rule: ancestors_loop.induct)
  case (1 ctxErr ch T level e timers anc ht)
  show ?case
  proof (cases "\<exists>root. level < totalChallengeLevels ht \<and> honestRootAncestorAtChallengeLevel e level ht = Inr root")
    case True
    then obtain root where root: "level < totalChallengeLevels ht" "honestRootAncestorAtChallengeLevel e level ht = Inr root"
      by blast
    obtain y ht1 where found: "findHonestAncestorsWithinChallengeLevel (ctxErr level) ch root e T ht = Some (y, ht1)"
      using find_loop_returns [OF "1.prems"(2)] honestRoot_tracked [OF "1.prems"(1) root(2)]
      unfolding findHonestAncestorsWithinChallengeLevel_def by fastforce
    have same: "same_tree ht ht1"
      using find_loop_same_tree [OF found [unfolded findHonestAncestorsWithinChallengeLevel_def]] by simp
    have "\<exists>out. ancestors_loop ctxErr ch T (level + 1) c ((timers @ Reverse ts) @ [t]) ((anc @ Reverse ids) @ [EdgeId c]) ht2 = Some out"
      if y: "y = Inr (ts, ids)" and c: "level + 1 \<noteq> totalChallengeLevels ht" "getClaimedEdge root ht1 = Inr c"
        and t: "localTimer c T ht1 = (Inr t, ht2)" for ts ids c t ht2
    proof -
      have "same_tree ht ht2" using same localTimer_same_tree [of ht1 c T] t same_tree_trans by auto
      then have "tree_ok chain ht2" "bisection_tree ch (edges ht2)"
        using "1.prems" same_tree_ok same_tree_fields(1) by metis+
      then show ?thesis
        using "1.IH" [OF root found refl y refl refl refl refl c t [symmetric] refl] by blast
    qed
    then show ?thesis
      by (subst ancestors_loop.simps) (auto simp: root found Let_def split: sum.splits prod.splits)
  next
    case False
    then show ?thesis by (subst ancestors_loop.simps) (auto split: sum.splits)
  qed
qed

inductive ancestors :: "'h EdgeReader \<Rightarrow> ('h, 'a) HonestChallengeTree \<Rightarrow> ChallengeLevel \<Rightarrow> 'h Edge \<Rightarrow> 'h Edge list \<Rightarrow> bool"
  for ch ht where
  top_level: "level < totalChallengeLevels ht \<Longrightarrow> level + 1 = totalChallengeLevels ht \<Longrightarrow>
    honestRootAncestorAtChallengeLevel e level ht = Inr root \<Longrightarrow> descends ch (edges ht) e root p \<Longrightarrow>
    ancestors ch ht level e (rev p)"
| next_level: "level < totalChallengeLevels ht \<Longrightarrow> level + 1 \<noteq> totalChallengeLevels ht \<Longrightarrow>
    honestRootAncestorAtChallengeLevel e level ht = Inr root \<Longrightarrow> descends ch (edges ht) e root p \<Longrightarrow>
    getClaimedEdge root ht = Inr claimed \<Longrightarrow> ancestors ch ht (level + 1) claimed rest \<Longrightarrow>
    ancestors ch ht level e (rev p @ claimed # rest)"

lemma same_tree_reads:
  assumes "same_tree ht ht'"
  shows "honestRootAncestorAtChallengeLevel e level ht' = honestRootAncestorAtChallengeLevel e level ht"
    "getClaimedEdge e ht' = getClaimedEdge e ht"
  using same_tree_fields [OF assms]
  by (simp_all add: honestRootAncestorAtChallengeLevel_def getClaimedEdge_def split: option.split)

lemma ancestors_loop_path:
  assumes "ancestors ch ht level e path" "tree_ok chain ht" "bisection_tree ch (edges ht)" "known_creation (edges ht)"
    "same_tree ht ht0"
  shows "\<exists>ht'. ancestors_loop (\<lambda>_ _. None) ch T level e timers anc ht0 =
      Some (Inr (timers @ map (timer_in ht T) path, anc @ map EdgeId path), ht') \<and> same_tree ht ht'"
  using assms
proof (induction arbitrary: timers anc ht0 rule: ancestors.induct)
  case (top_level level e root p)
  note same = top_level.prems(4) note f = same_tree_fields [OF same]
  obtain ht1 where "find_loop (\<lambda>_. None) ch e T root [] [] ht0 = Some (Inr (map (timer_in ht0 T) p, map EdgeId p), ht1)"
      "same_tree ht0 ht1"
    using find_loop_path [OF top_level(4) top_level.prems(2,3), of ht0 T "[]" "[]"]
      honestRoot_tracked [OF top_level.prems(1) top_level(3)] f(1) by auto
  with top_level(1-3) f same_tree_reads [OF same] timer_in_same_tree [OF same] same_tree_trans [OF same]
  show ?case
    by (subst ancestors_loop.simps) (simp add: findHonestAncestorsWithinChallengeLevel_def Reverse_eq rev_map Let_def)
next
  case (next_level level e root p claimed rest)
  note same = next_level.prems(4) note f = same_tree_fields [OF same]
  obtain ht1 where ht1: "find_loop (\<lambda>_. None) ch e T root [] [] ht0 = Some (Inr (map (timer_in ht0 T) p, map EdgeId p), ht1)"
      "same_tree ht0 ht1"
    using find_loop_path [OF next_level(4) next_level.prems(2,3), of ht0 T "[]" "[]"]
      honestRoot_tracked [OF next_level.prems(1) next_level(3)] f(1) by auto
  have same1: "same_tree ht ht1" using same ht1(2) by (rule same_tree_trans)
  obtain c where "CreatedAtBlock claimed = Inr c"
    using next_level(5) next_level.prems(3) by (auto simp: getClaimedEdge_def known_creation_def split: option.splits)
  then obtain ht2 where ht2: "localTimer claimed T ht1 = (Inr (timer_in ht1 T claimed), ht2)" "same_tree ht1 ht2"
    using localTimer_timer_in by blast
  have same2: "same_tree ht ht2" using same1 ht2(2) by (rule same_tree_trans)
  from next_level.IH [OF next_level.prems(1-3) same2, of "timers @ rev (map (timer_in ht T) p) @ [timer_in ht T claimed]"
      "anc @ rev (map EdgeId p) @ [EdgeId claimed]"]
  show ?case
    using next_level(1-3,5) f same_tree_reads [OF same] same_tree_reads [OF same1] ht1(1) ht2(1)
      timer_in_same_tree [OF same] timer_in_same_tree [OF same1]
    by (subst ancestors_loop.simps) (simp add: findHonestAncestorsWithinChallengeLevel_def Reverse_eq rev_map Let_def)
qed

text \<open>
  C21. In a tree whose tracked edges are bisected at their bisection points, the ancestor computation always
  returns, whatever edge, block and context it is called with.
\<close>

theorem ComputeAncestorsWithTimers_returns:
  assumes "tree_reach chain (Tree_New h reader checker n name) ht" "bisection_tree ch (edges ht)"
  shows "\<exists>out. ComputeAncestorsWithTimers ctxErr ch i T ht = Some out"
proof -
  have "tree_ok chain ht" using assms(1) Tree_New_ok by (rule tree_reach_ok)
  then have "\<exists>out. ancestors_loop ctxErr ch T (GetReversedChallengeLevel e) e [] [] ht = Some out" for e
    using assms(2) by (rule ancestors_loop_returns)
  then show ?thesis
    by (cases "Map_TryGet (edges ht) i")
      (force simp: ComputeAncestorsWithTimers_def split: option.split sum.split)+
qed

text \<open>
  C22. \<^verbatim>\<open>ComputeAncestorsWithTimers\<close> returns, from the edge's parent up to the block challenge's root edge, the
  edges on the bisection path from the root of each level and the edges that the roots claim in
  the level above, each with its local timer.
\<close>

theorem ComputeAncestorsWithTimers_path:
  assumes "tree_reach chain (Tree_New h reader checker n name) ht" "bisection_tree ch (edges ht)"
    "known_creation (edges ht)" "Map_TryGet (edges ht) i = Some e" "ancestors ch ht (GetReversedChallengeLevel e) e path"
  shows "\<exists>ht'. ComputeAncestorsWithTimers (\<lambda>_ _. None) ch i T ht =
    Some (Inr \<lparr>AncestorLocalTimers = map (timer_in ht T) path, AncestorEdgeIds = map EdgeId path\<rparr>, ht')"
proof -
  have "tree_ok chain ht" using assms(1) Tree_New_ok by (rule tree_reach_ok)
  from ancestors_loop_path [OF assms(5) this assms(2,3) same_tree_refl, of T "[]" "[]"]
  show ?thesis using assms(4) by (auto simp: ComputeAncestorsWithTimers_def)
qed

subsection \<open>Witnesses\<close>

text \<open>
  A challenge with a block level and one level below it. Edge 9 is the honest root of the block level,
  edge 6 its rival, edges 2 and 3 its children, edge 4 the lower child of edge 2, and edge 5 the honest
  root of the level below, which claims edge 4.
\<close>

definition ex_edge :: "nat \<Rightarrow> ChallengeLevel \<Rightarrow> uint64 \<times> uint64 \<Rightarrow> nat \<Rightarrow> uint64 \<Rightarrow> nat \<times> nat \<times> nat option \<Rightarrow> nat Edge" where
  "ex_edge i level hs commit created links =
     \<lparr>EdgeId = i, GetChallengeLevel = level, GetReversedChallengeLevel = 1 - level, StartCommitment = (fst hs, 0),
      EndCommitment = (snd hs, commit), CreatedAtBlock = Inr created, MutualId = fst links, OriginId = fst (snd links),
      ClaimId = snd (snd links)\<rparr>"

definition ex_chain :: "nat \<Rightarrow> nat Edge" where
  "ex_chain i =
     (if i = 9 then ex_edge 9 0 (0, 4) 7 5 (10, 50, Some 100)
      else if i = 2 then ex_edge 2 0 (0, 2) 7 8 (11, 50, None)
      else if i = 3 then ex_edge 3 0 (2, 4) 7 8 (12, 50, None)
      else if i = 4 then ex_edge 4 0 (0, 1) 7 9 (13, 50, None)
      else if i = 5 then ex_edge 5 1 (0, 4) 7 12 (14, 13, Some 4)
      else ex_edge i 0 (0, 4) 8 7 (10, 50, Some 101))"

definition ex_info :: "(nat, unit) AssertionCreatedInfo" where
  "ex_info =
     \<lparr>ConfirmPeriodBlocks = 10, RequiredStake = 0, ParentAssertionHash = 0,
      BeforeState = \<lparr>sol_GlobalState = \<lparr>Bytes32Vals = (0, 0), U64Vals = (0, 0)\<rparr>, sol_MachineStatus = 1\<rparr>,
      AfterState = \<lparr>sol_GlobalState = \<lparr>Bytes32Vals = (0, 0), U64Vals = (1, 0)\<rparr>, sol_MachineStatus = 1\<rparr>,
      InboxMaxCount = 1, AfterInboxBatchAcc = 0, AssertionHash = 0, WasmModuleRoot = 0, ChallengeManager = (),
      TransactionHash = 0, CreationBlock = 1\<rparr>"

definition ex_reader :: "(nat, unit) MetadataReader" where
  "ex_reader =
     \<lparr>AssertionUnrivaledBlocks = (\<lambda>_. Inr 3), TopLevelAssertion = (\<lambda>_. Inr 99),
      TopLevelClaimHeights = (\<lambda>_. Inr []), ReadAssertionCreationInfo = (\<lambda>_. Inr ex_info)\<rparr>"

text \<open>The checker agrees with the commitments 0 (to the start) and 7 (to the honest ends).\<close>

definition ex_new :: "(nat, unit) HonestChallengeTree" where
  "ex_new = Tree_New 99 ex_reader (\<lambda>_ _ commit. Inr (MerkleRoot commit = 0 \<or> MerkleRoot commit = 7)) 0 ''alice''"

definition ex_children :: "nat EdgeReader" where
  "ex_children =
     \<lparr>HasConfirmedRival = (\<lambda>_. Inr False), HasChildren = (\<lambda>i. Inr (i = 9 \<or> i = 2)),
      LowerChild = (\<lambda>i. Inr (if i = 9 then Some 2 else if i = 2 then Some 4 else None)),
      UpperChild = (\<lambda>i. Inr (if i = 9 then Some 3 else None)), TopLevelAssertionHash = (\<lambda>_. Inr 99),
      TimeUnrivaled = (\<lambda>_. Inr 0), HasRival = (\<lambda>_. Inr False), Status = (\<lambda>_. Inr StatusPending),
      HasLengthOneRival = (\<lambda>_. Inr False), TopLevelClaimHeight = (\<lambda>_. Inr [])\<rparr>"

lemmas ex_defs = ex_new_def Tree_New_def ex_reader_def ex_info_def ex_chain_def ex_edge_def

lemmas ex_ops = AddEdge_def AddHonestEdge_def edge_agreement_def claimed_assertion_def track_def add_root_def add_mutual_def
  ensure_mutuals_def bindM_def op_defs NewBlockChallengeLevel_def Map_TryGet_def Map_Put_def Map_Get_def NewMap_def
  NewSlice_def Slice_Push_def Let_def

definition ex_tree1 :: "(nat, unit) HonestChallengeTree" where
  "ex_tree1 = ex_new\<lparr>edges := [(9, ex_chain 9)], mutualIds := [(10, [(9, 5)])], honestRootEdgesByLevel := [(1, [ex_chain 9])]\<rparr>"

definition ex_tree2 :: "(nat, unit) HonestChallengeTree" where
  "ex_tree2 = ex_tree1\<lparr>mutualIds := [(10, [(9, 5), (6, 7)])]\<rparr>"

definition ex_tree :: "(nat, unit) HonestChallengeTree" where
  "ex_tree = ex_tree1
     \<lparr>edges := [(9, ex_chain 9), (2, ex_chain 2), (4, ex_chain 4), (5, ex_chain 5)],
      mutualIds := [(10, [(9, 5), (6, 7)]), (11, [(2, 8)]), (13, [(4, 9)]), (14, [(5, 12)])],
      honestRootEdgesByLevel := [(1, [ex_chain 9]), (0, [ex_chain 5])]\<rparr>"

lemma ex_add1: "AddEdge (ex_chain 9) ex_new = (Inr \<lparr>AgreesWithStartCommit = True, IsHonestEdge = True\<rparr>, ex_tree1)"
  by (simp add: ex_ops ex_defs ex_tree1_def)

lemma ex_add6: "AddEdge (ex_chain 6) ex_tree1 = (Inr \<lparr>AgreesWithStartCommit = True, IsHonestEdge = False\<rparr>, ex_tree2)"
  by (simp add: ex_ops ex_defs ex_tree1_def ex_tree2_def)

lemma ex_honest:
  "snd (AddHonestEdge (ex_chain 5) (snd (AddHonestEdge (ex_chain 4) (snd (AddHonestEdge (ex_chain 2) ex_tree2))))) = ex_tree"
  by (simp add: ex_ops ex_defs ex_tree1_def ex_tree2_def ex_tree_def)

lemma ex_chain_id: "ex_chain (EdgeId (ex_chain i)) = ex_chain i"
  by (simp add: ex_chain_def ex_edge_def)

lemma ex_reach2: "tree_reach ex_chain ex_new ex_tree2"
  using reach_step [OF reach_step [OF reach_refl step_AddEdge] step_AddEdge, of ex_chain "ex_chain 9" "ex_chain 6" ex_new]
  by (simp add: ex_add1 ex_add6 ex_chain_id)

lemma ex_reach: "tree_reach ex_chain ex_new ex_tree"
  unfolding ex_honest [symmetric] by (intro reach_step [OF _ step_AddHonestEdge] ex_reach2 ex_chain_id)

lemma ex_new_ok: "tree_ok ex_chain ex_new"
  unfolding ex_new_def by (rule Tree_New_ok)

lemma ex_lookup:
  "Map_TryGet (edges ex_tree) i =
     (if i = 9 \<or> i = 2 \<or> i = 4 \<or> i = 5 then Some (ex_chain i) else None)"
  by (auto simp: ex_tree_def Map_TryGet_def)

lemma ex_bisect: "Bisect 0 4 = Inr 2" "Bisect 0 2 = Inr 1"
  by code_simp+

lemma ex_bisection_tree: "bisection_tree ex_children (edges ex_tree)"
  by (auto simp: bisection_tree_def ex_lookup ex_children_def ex_chain_def ex_edge_def heights_def ex_bisect
      split: if_splits)

lemma ex_known_creation: "known_creation (edges ex_tree)"
  by (simp add: known_creation_def ex_lookup ex_chain_def ex_edge_def)

theorem tree_invariant_witness: "tree_ok ex_chain ex_tree"
  by (rule tree_invariant [OF ex_reach [unfolded ex_new_def]])

theorem localTimer_counts_unrivaled_blocks_witness:
  "\<exists>n. fst (localTimer (ex_chain 9) 20 ex_tree) = Inr n \<and>
    unat n = card {t. unat (5 :: uint64) \<le> t \<and> t < unat (20 :: uint64) \<and>
      (\<forall>(i, r)\<in>set (mutuals_of ex_tree (MutualId (ex_chain 9))). i \<noteq> EdgeId (ex_chain 9) \<longrightarrow> t < unat r)}"
  by (rule localTimer_counts_unrivaled_blocks) (simp add: ex_chain_def ex_edge_def)

theorem rivals_never_both_accumulate_witness:
  "fst (localTimer (ex_chain 9) 20 ex_tree2) = Inr 0 \<or> fst (localTimer (ex_chain 6) 20 ex_tree2) = Inr 0"
  by (rule rivals_never_both_accumulate [OF reach_refl [of ex_chain ex_new, unfolded ex_new_def] ex_chain_id ex_chain_id
        ex_add1 [unfolded ex_new_def] _ reach_refl ex_add6 _ reach_refl])
    (simp_all add: ex_chain_def ex_edge_def)

theorem localTimer_stable_witness:
  "\<exists>n n'. fst (localTimer (ex_chain 9) 6 ex_tree1) = Inr n \<and> fst (localTimer (ex_chain 9) 6 ex_tree2) = Inr n' \<and> n' \<le> n \<and>
    ((\<forall>(i, r)\<in>set (mutuals_of ex_tree2 (MutualId (ex_chain 9))) - set (mutuals_of ex_tree1 (MutualId (ex_chain 9))). 6 \<le> r)
       \<longrightarrow> n' = n)"
proof (rule localTimer_stable)
  show "tree_ok ex_chain ex_tree1"
    using AddEdge_ok [of ex_chain "ex_chain 9" ex_new, OF ex_chain_id] by (simp add: ex_add1 ex_new_ok)
  show "tree_reach ex_chain ex_tree1 ex_tree2"
    using reach_step [OF reach_refl step_AddEdge, of ex_chain "ex_chain 6" ex_tree1] by (simp add: ex_add6 ex_chain_id)
  show "CreatedAtBlock (ex_chain 9) = Inr 5" by (simp add: ex_chain_def ex_edge_def)
qed

theorem HasConfirmableAncestor_iff_witness:
  "HasConfirmableAncestor ex_tree [4, 3, 2] 12 = Inr ([4, 3, 2 :: uint64] \<noteq> [] \<and>
     unat (12 :: uint64) \<le> unat (3 :: uint64) + sum_list (map unat [4, 3, 2 :: uint64]))"
  by (rule HasConfirmableAncestor_iff) (simp_all add: ex_tree_def ex_tree1_def ex_defs)

theorem ComputeAncestorsWithTimers_returns_witness:
  "\<exists>out. ComputeAncestorsWithTimers (\<lambda>_ _. None) ex_children 5 20 ex_tree = Some out"
  by (rule ComputeAncestorsWithTimers_returns [OF ex_reach [unfolded ex_new_def] ex_bisection_tree])

theorem ComputeAncestorsWithTimers_path_witness:
  "\<exists>ht'. ComputeAncestorsWithTimers (\<lambda>_ _. None) ex_children 5 20 ex_tree =
    Some (Inr \<lparr>AncestorLocalTimers = map (timer_in ex_tree 20) [ex_chain 4, ex_chain 2, ex_chain 9],
               AncestorEdgeIds = map EdgeId [ex_chain 4, ex_chain 2, ex_chain 9]\<rparr>, ht')"
proof -
  have fields: "totalChallengeLevels ex_tree = 2" "GetReversedChallengeLevel (ex_chain 5) = 0"
    "EdgeId (ex_chain 9) = 9" "EdgeId (ex_chain 2) = 2" "LowerChild ex_children 9 = Inr (Some 2)"
    "LowerChild ex_children 2 = Inr (Some 4)"
    by (simp_all add: ex_tree_def ex_tree1_def ex_defs ex_children_def)
  have "descends ex_children (edges ex_tree) (ex_chain 4) (ex_chain 2) [ex_chain 2]"
    by (rule lower [OF _ _ here, of _ _ 4]) (simp_all add: fields ex_lookup)
  then have "descends ex_children (edges ex_tree) (ex_chain 4) (ex_chain 9) [ex_chain 9, ex_chain 2]"
    by (intro lower [of _ _ 2]) (simp_all add: fields ex_lookup)
  moreover have "honestRootAncestorAtChallengeLevel (ex_chain 4) 1 ex_tree = Inr (ex_chain 9)"
    "honestRootAncestorAtChallengeLevel (ex_chain 5) 0 ex_tree = Inr (ex_chain 5)" "getClaimedEdge (ex_chain 5) ex_tree = Inr (ex_chain 4)"
    by (simp_all add: honestRootAncestorAtChallengeLevel_def getClaimedEdge_def findOriginEdge_def ex_tree_def Map_TryGet_def
        ex_chain_def ex_edge_def)
  ultimately have "ancestors ex_children ex_tree 0 (ex_chain 5) (rev [] @ ex_chain 4 # rev [ex_chain 9, ex_chain 2])"
    using top_level [of 1 ex_tree "ex_chain 4" "ex_chain 9" ex_children "[ex_chain 9, ex_chain 2]"] fields
    by (intro next_level [OF _ _ _ here]) simp_all
  then show ?thesis
    using ComputeAncestorsWithTimers_path [OF ex_reach [unfolded ex_new_def] ex_bisection_tree ex_known_creation,
        of 5 "ex_chain 5" "[ex_chain 4, ex_chain 2, ex_chain 9]" 20] fields by (simp add: ex_lookup)
qed

end
