(* ===== verification/Fsm.thy ===== *)
theory Fsm
  imports Containers
begin

text \<open>
  \<^verbatim>\<open>containers/fsm/fsm.go\<close>: a finite state machine built from a transition table. Events and states are
  compared by the strings their \<^verbatim>\<open>String\<close> methods return, which are arguments (\<open>evs\<close>, \<open>sts\<close>) of the
  operations. The methods hold the lock for their whole body, so each is one atomic step.
\<close>

subsection \<open>The machine\<close>

record ('e, 't) Event =
  Typ :: 'e
  From :: "'t list"
  To :: 't

text \<open>The source event of the start state is the zero value of its type, here \<open>None\<close>.\<close>

record ('e, 't) CurrentState =
  SourceEvent :: "'e option"
  State :: 't

record ('e, 't) transitionMade =
  tm_From :: 't
  tm_To :: 't
  tm_Event :: 'e

record ('e, 't) Fsm =
  trackingTransitions :: bool
  transitionsExecuted :: "('e, 't) transitionMade list"
  curr :: "('e, 't) CurrentState"
  validEvents :: "(string, bool) gomap"
  validStates :: "(string, bool) gomap"
  validTransitions :: "(string \<times> string, 't) gomap"

definition WithTrackedTransitions :: "('e, 't) Fsm \<Rightarrow> ('e, 't) Fsm" where
  "WithTrackedTransitions f = f\<lparr>trackingTransitions := True\<rparr>"

text \<open>The loops of \<^verbatim>\<open>New\<close> over the source states of an event and over the table.\<close>

definition add_from :: "('e \<Rightarrow> string) \<Rightarrow> ('t \<Rightarrow> string) \<Rightarrow> ('e, 't) Event \<Rightarrow> 't \<Rightarrow> ('e, 't) Fsm \<Rightarrow> ('e, 't) Fsm" where
  "add_from evs sts ev from f =
     f\<lparr>validTransitions := Map_Put (evs (Typ ev), sts from) (To ev) (validTransitions f),
       validStates := Map_Put (sts from) True (validStates f)\<rparr>"

definition add_event :: "('e \<Rightarrow> string) \<Rightarrow> ('t \<Rightarrow> string) \<Rightarrow> ('e, 't) Event \<Rightarrow> ('e, 't) Fsm \<Rightarrow> ('e, 't) Fsm" where
  "add_event evs sts ev f =
     (let f' = fold (add_from evs sts ev) (From ev) f
      in f'\<lparr>validEvents := Map_Put (evs (Typ ev)) True (validEvents f')\<rparr>)"

definition Fsm_New ::
    "('e \<Rightarrow> string) \<Rightarrow> ('t \<Rightarrow> string) \<Rightarrow> 't \<Rightarrow> ('e, 't) Event list \<Rightarrow>
     (('e, 't) Fsm \<Rightarrow> ('e, 't) Fsm) list \<Rightarrow> ('e, 't) Fsm res" where
  "Fsm_New evs sts startState transitionTable opts =
     (let f = \<lparr>trackingTransitions = False, transitionsExecuted = [],
               curr = \<lparr>SourceEvent = None, State = startState\<rparr>,
               validEvents = [], validStates = [], validTransitions = []\<rparr>;
          f = fold (\<lambda>opt f. opt f) opts f;
          f = f\<lparr>validTransitions := NewMap, validEvents := NewMap, validStates := NewMap\<rparr>
      in Inr (fold (add_event evs sts) transitionTable f))"

definition CanTransition :: "('e \<Rightarrow> string) \<Rightarrow> ('t \<Rightarrow> string) \<Rightarrow> ('e, 't) Fsm \<Rightarrow> 'e \<Rightarrow> bool" where
  "CanTransition evs sts f event = Map_Has (validTransitions f) (evs event, sts (State (curr f)))"

definition Fsm_Do :: "('e \<Rightarrow> string) \<Rightarrow> ('t \<Rightarrow> string) \<Rightarrow> 'e \<Rightarrow> ('e, 't) Fsm \<Rightarrow> unit res \<times> ('e, 't) Fsm" where
  "Fsm_Do evs sts event f =
     (let src = State (curr f) in
      case Map_TryGet (validTransitions f) (evs event, sts src) of
        None \<Rightarrow>
          (if \<exists>(key, to)\<in>set (validTransitions f). fst key = evs event
           then (Inl ErrFsmInvalidTransition, f)
           else (Inl ErrFsmEventNotFound, f))
      | Some to \<Rightarrow>
          (let f' = f\<lparr>curr := \<lparr>SourceEvent = Some event, State = to\<rparr>\<rparr>
           in (Inr (),
               if trackingTransitions f'
               then f'\<lparr>transitionsExecuted := transitionsExecuted f' @
                        [\<lparr>tm_From = src, tm_To = to, tm_Event = event\<rparr>]\<rparr>
               else f')))"

definition Current :: "('e, 't) Fsm \<Rightarrow> ('e, 't) CurrentState" where
  "Current f = curr f"

subsection \<open>What the table says\<close>

text \<open>The destination for an event in a state: the last entry of the table wins.\<close>

fun table_next :: "('e \<Rightarrow> string) \<Rightarrow> ('t \<Rightarrow> string) \<Rightarrow> ('e, 't) Event list \<Rightarrow> string \<Rightarrow> string \<Rightarrow> 't option" where
  "table_next evs sts [] e s = None"
| "table_next evs sts (ev # tab) e s =
     (case table_next evs sts tab e s of
        Some t \<Rightarrow> Some t
      | None \<Rightarrow> if evs (Typ ev) = e \<and> s \<in> set (map sts (From ev)) then Some (To ev) else None)"

lemma fold_add_from:
  "Map_TryGet (validTransitions (fold (add_from evs sts ev) fs f)) (e, s) =
     (if evs (Typ ev) = e \<and> s \<in> set (map sts fs) then Some (To ev) else Map_TryGet (validTransitions f) (e, s))"
  "curr (fold (add_from evs sts ev) fs f) = curr f"
  "trackingTransitions (fold (add_from evs sts ev) fs f) = trackingTransitions f"
  "transitionsExecuted (fold (add_from evs sts ev) fs f) = transitionsExecuted f"
  by (induction fs arbitrary: f) (auto simp: add_from_def)

lemma fold_add_event:
  "Map_TryGet (validTransitions (fold (add_event evs sts) tab f)) (e, s) =
     (case table_next evs sts tab e s of Some t \<Rightarrow> Some t | None \<Rightarrow> Map_TryGet (validTransitions f) (e, s))"
  "curr (fold (add_event evs sts) tab f) = curr f"
  "trackingTransitions (fold (add_event evs sts) tab f) = trackingTransitions f"
  "transitionsExecuted (fold (add_event evs sts) tab f) = transitionsExecuted f"
  by (induction tab arbitrary: f)
     (auto simp: add_event_def Let_def fold_add_from split: option.splits)

text \<open>A machine that follows a table.\<close>

definition follows :: "('e \<Rightarrow> string) \<Rightarrow> ('t \<Rightarrow> string) \<Rightarrow> ('e, 't) Event list \<Rightarrow> ('e, 't) Fsm \<Rightarrow> bool" where
  "follows evs sts tab f \<longleftrightarrow>
     (\<forall>e s. Map_TryGet (validTransitions f) (e, s) = table_next evs sts tab e s)"

lemma Fsm_New_follows:
  assumes "Fsm_New evs sts start tab opts = Inr f"
    and "\<And>opt g. opt \<in> set opts \<Longrightarrow> State (curr (opt g)) = State (curr g)"
  shows "follows evs sts tab f" "State (curr f) = start"
proof -
  define g where "g = fold (\<lambda>opt f. opt f) opts \<lparr>trackingTransitions = False, transitionsExecuted = [],
               curr = \<lparr>SourceEvent = None, State = start\<rparr>,
               validEvents = [], validStates = [], validTransitions = []\<rparr>"
  have "State (curr (fold (\<lambda>opt f. opt f) opts h)) = State (curr h)" for h
    using assms(2) by (induction opts arbitrary: h) auto
  then have "State (curr g) = start" by (simp add: g_def)
  with assms(1) show "follows evs sts tab f" "State (curr f) = start"
    by (auto simp: Fsm_New_def Let_def follows_def fold_add_event simp flip: g_def split: option.splits)
qed

lemma Fsm_Do_cases:
  assumes "follows evs sts tab f"
  obtains (ok) t f' where "table_next evs sts tab (evs e) (sts (State (curr f))) = Some t"
      "Fsm_Do evs sts e f = (Inr (), f')" "State (curr f') = t" "SourceEvent (curr f') = Some e"
      "follows evs sts tab f'"
    | (error) err where "table_next evs sts tab (evs e) (sts (State (curr f))) = None"
      "Fsm_Do evs sts e f = (Inl err, f)"
proof (cases "table_next evs sts tab (evs e) (sts (State (curr f)))")
  case None
  moreover from this have "\<exists>err. Fsm_Do evs sts e f = (Inl err, f)"
    using assms by (auto simp: Fsm_Do_def follows_def)
  ultimately show ?thesis using error by blast
next
  case (Some t)
  moreover from this have "fst (Fsm_Do evs sts e f) = Inr ()"
    "curr (snd (Fsm_Do evs sts e f)) = \<lparr>SourceEvent = Some e, State = t\<rparr>"
    "follows evs sts tab (snd (Fsm_Do evs sts e f))"
    using assms by (auto simp: Fsm_Do_def follows_def Let_def)
  ultimately show ?thesis by (intro ok [of t "snd (Fsm_Do evs sts e f)"]) (auto simp: prod_eq_iff)
qed

subsection \<open>The contract of a state machine\<close>

text \<open>
  What the users of a machine rely on: an event that the machine's table allows moves it to the
  state the table gives, any other event returns an error and changes nothing.
\<close>

locale state_machine =
  fixes fire :: "'f \<Rightarrow> 'e \<Rightarrow> unit res \<times> 'f" and now :: "'f \<Rightarrow> 't" and nxt :: "'t \<Rightarrow> 'e \<Rightarrow> 't option"
    and ok :: "'f \<Rightarrow> bool"
  assumes allowed: "ok f \<Longrightarrow> nxt (now f) e = Some t \<Longrightarrow> \<exists>f'. fire f e = (Inr (), f') \<and> now f' = t \<and> ok f'"
    and refused: "ok f \<Longrightarrow> nxt (now f) e = None \<Longrightarrow> \<exists>err. fire f e = (Inl err, f)"
begin

lemma fire_ok: "ok f \<Longrightarrow> ok (snd (fire f e))"
  using allowed [of f e] refused [of f e] by (cases "nxt (now f) e") fastforce+

lemma now_fire: "ok f \<Longrightarrow> now (snd (fire f e)) = (case nxt (now f) e of Some t \<Rightarrow> t | None \<Rightarrow> now f)"
  using allowed [of f e] refused [of f e] by (cases "nxt (now f) e") fastforce+

lemma fire_succeeds_iff: "ok f \<Longrightarrow> fst (fire f e) = Inr () \<longleftrightarrow> nxt (now f) e \<noteq> None"
  using allowed [of f e] refused [of f e] by (cases "nxt (now f) e") fastforce+

text \<open>A set of states that the table does not leave is not left by any sequence of events.\<close>

lemma closed_invariant:
  assumes "ok f" "now f \<in> S" "\<And>s e t. s \<in> S \<Longrightarrow> nxt s e = Some t \<Longrightarrow> t \<in> S"
  shows "now (fold (\<lambda>e f. snd (fire f e)) es f) \<in> S \<and> ok (fold (\<lambda>e f. snd (fire f e)) es f)"
  using assms(1,2)
proof (induction es arbitrary: f)
  case (Cons e es)
  have "now (snd (fire f e)) \<in> S"
    using Cons.prems assms(3) by (auto simp: now_fire split: option.splits)
  with Cons show ?case by (simp add: fire_ok)
qed simp

end

interpretation fsm: state_machine "\<lambda>f e. Fsm_Do evs sts e f" "\<lambda>f. State (curr f)"
    "\<lambda>s e. table_next evs sts tab (evs e) (sts s)" "follows evs sts tab" for evs sts tab
proof
  fix f e t
  assume f: "follows evs sts tab f"
  show "\<exists>f'. Fsm_Do evs sts e f = (Inr (), f') \<and> State (curr f') = t \<and> follows evs sts tab f'"
    if "table_next evs sts tab (evs e) (sts (State (curr f))) = Some t"
    using Fsm_Do_cases [OF f, of e] that by fastforce
  show "\<exists>err. Fsm_Do evs sts e f = (Inl err, f)"
    if "table_next evs sts tab (evs e) (sts (State (curr f))) = None"
    using Fsm_Do_cases [OF f, of e] that by fastforce
qed

subsection \<open>Properties\<close>

lemma table_next_some:
  "table_next evs sts tab e s = Some t \<Longrightarrow>
   \<exists>ev\<in>set tab. evs (Typ ev) = e \<and> s \<in> sts ` set (From ev) \<and> To ev = t"
  by (induction tab) (auto split: option.splits if_splits)

lemma table_next_event:
  "(\<exists>s. table_next evs sts tab e s \<noteq> None) \<longleftrightarrow> (\<exists>ev\<in>set tab. evs (Typ ev) = e \<and> From ev \<noteq> [])"
proof
  assume "\<exists>s. table_next evs sts tab e s \<noteq> None"
  then show "\<exists>ev\<in>set tab. evs (Typ ev) = e \<and> From ev \<noteq> []"
    by (metis empty_iff empty_set image_empty not_None_eq table_next_some)
next
  assume "\<exists>ev\<in>set tab. evs (Typ ev) = e \<and> From ev \<noteq> []"
  then show "\<exists>s. table_next evs sts tab e s \<noteq> None"
  proof (induction tab)
    case (Cons ev tab)
    show ?case
    proof (cases "evs (Typ ev) = e \<and> From ev \<noteq> []")
      case True
      then have "sts (hd (From ev)) \<in> set (map sts (From ev))" by simp
      with True show ?thesis by (intro exI [of _ "sts (hd (From ev))"]) (simp split: option.splits)
    next
      case False
      with Cons show ?thesis by (fastforce split: option.splits)
    qed
  qed simp
qed

lemma has_event_key:
  assumes "follows evs sts tab f"
  shows "(\<exists>(key, to)\<in>set (validTransitions f). fst key = e) \<longleftrightarrow> (\<exists>ev\<in>set tab. evs (Typ ev) = e \<and> From ev \<noteq> [])"
proof -
  have "(\<exists>(key, to)\<in>set (validTransitions f). fst key = e) \<longleftrightarrow> (\<exists>s. (e, s) \<in> fst ` set (validTransitions f))"
    by (force simp: image_iff)
  also have "\<dots> \<longleftrightarrow> (\<exists>s. Map_TryGet (validTransitions f) (e, s) \<noteq> None)"
    by (simp add: Map_TryGet_def map_of_eq_None_iff)
  also have "\<dots> \<longleftrightarrow> (\<exists>s. table_next evs sts tab e s \<noteq> None)"
    using assms by (simp add: follows_def)
  finally show ?thesis unfolding table_next_event .
qed


text \<open>A door, as in the comment of \<^verbatim>\<open>New\<close>: event 0 opens it and event 1 closes it.\<close>

definition door_table :: "(nat, bool) Event list" where
  "door_table = [\<lparr>Typ = 0, From = [False], To = True\<rparr>, \<lparr>Typ = 1, From = [True], To = False\<rparr>]"

definition door_event :: "nat \<Rightarrow> string" where
  "door_event n = (if n = 0 then ''open'' else if n = 1 then ''close'' else ''knock'')"

definition door_state :: "bool \<Rightarrow> string" where
  "door_state b = (if b then ''opened'' else ''closed'')"


text \<open>The tracked transitions are a path of table entries.\<close>

fun path_of :: "('e \<Rightarrow> string) \<Rightarrow> ('t \<Rightarrow> string) \<Rightarrow> ('e, 't) Event list \<Rightarrow> 't \<Rightarrow> ('e, 't) transitionMade list \<Rightarrow> 't \<Rightarrow> bool" where
  "path_of evs sts tab s [] t \<longleftrightarrow> s = t"
| "path_of evs sts tab s (m # ms) t \<longleftrightarrow>
     tm_From m = s \<and> table_next evs sts tab (evs (tm_Event m)) (sts s) = Some (tm_To m) \<and>
     path_of evs sts tab (tm_To m) ms t"

lemma path_of_snoc:
  "path_of evs sts tab s (ms @ [m]) t \<longleftrightarrow>
     path_of evs sts tab s ms (tm_From m) \<and>
     table_next evs sts tab (evs (tm_Event m)) (sts (tm_From m)) = Some (tm_To m) \<and> tm_To m = t"
  by (induction ms arbitrary: s) auto

lemma Fsm_Do_path:
  assumes "follows evs sts tab f" "trackingTransitions f"
    "path_of evs sts tab s (transitionsExecuted f) (State (curr f))"
  shows "follows evs sts tab (snd (Fsm_Do evs sts e f)) \<and> trackingTransitions (snd (Fsm_Do evs sts e f)) \<and>
    path_of evs sts tab s (transitionsExecuted (snd (Fsm_Do evs sts e f))) (State (curr (snd (Fsm_Do evs sts e f))))"
  using assms
  by (auto simp: Fsm_Do_def Let_def follows_def path_of_snoc split: option.splits)

text \<open>
  With tracked transitions, after any sequence of events, failing ones included, the recorded
  transitions are a path of the table from the start state to the current state.
\<close>

theorem Fsm_tracked_path:
  assumes "Fsm_New evs sts start tab [WithTrackedTransitions] = Inr f"
  shows "path_of evs sts tab start (transitionsExecuted (fold (\<lambda>e f. snd (Fsm_Do evs sts e f)) es f))
    (State (Current (fold (\<lambda>e f. snd (Fsm_Do evs sts e f)) es f)))"
proof -
  let ?f' = "fold (\<lambda>e f. snd (Fsm_Do evs sts e f)) es f"
  have "follows evs sts tab f" "State (curr f) = start"
    using Fsm_New_follows [OF assms] by (simp_all add: WithTrackedTransitions_def)
  moreover have "trackingTransitions f" "transitionsExecuted f = []"
    using assms by (auto simp: WithTrackedTransitions_def Fsm_New_def fold_add_event)
  ultimately have "follows evs sts tab f \<and> trackingTransitions f \<and>
      path_of evs sts tab start (transitionsExecuted f) (State (curr f))" by simp
  then have "follows evs sts tab ?f' \<and> trackingTransitions ?f' \<and>
      path_of evs sts tab start (transitionsExecuted ?f') (State (curr ?f'))"
  proof (induction es arbitrary: f)
    case (Cons e es)
    have "follows evs sts tab (snd (Fsm_Do evs sts e f)) \<and> trackingTransitions (snd (Fsm_Do evs sts e f)) \<and>
        path_of evs sts tab start (transitionsExecuted (snd (Fsm_Do evs sts e f)))
          (State (curr (snd (Fsm_Do evs sts e f))))"
      using Cons.prems by (intro Fsm_Do_path) auto
    from Cons.IH [OF this] show ?case by simp
  qed simp
  then show ?thesis by (simp add: Current_def)
qed

theorem Fsm_tracked_path_witness:
  "\<exists>f. Fsm_New door_event door_state False door_table [WithTrackedTransitions] = Inr f \<and>
    path_of door_event door_state door_table False
      (transitionsExecuted (fold (\<lambda>e f. snd (Fsm_Do door_event door_state e f)) [0, 0, 1] f))
      (State (Current (fold (\<lambda>e f. snd (Fsm_Do door_event door_state e f)) [0, 0, 1] f)))"
proof -
  obtain f where f: "Fsm_New door_event door_state False door_table [WithTrackedTransitions] = Inr f"
    by (simp add: Fsm_New_def)
  with Fsm_tracked_path [OF f, of "[0, 0, 1]"] show ?thesis by blast
qed

end
