(* ===== verification/Edge_Tracker.thy ===== *)
theory Edge_Tracker
  imports Bisection Fsm State_Provider
begin

text \<open>
  \<^verbatim>\<open>challenge-manager/edge-tracker\<close>: the state machine that drives one edge until it is confirmed. What a
  tracker calls (the chain, the state provider, the chain watcher and the challenge manager) are
  interfaces; every method of them is an operation on an unspecified world \<open>'w\<close>, so a call may return
  anything and change anything. Logging and metrics are left out.
\<close>

subsection \<open>States, actions and the transition table\<close>

text \<open>\<open>EdgeInvalid\<close> stands for the values of the type that are no state.\<close>

datatype State =
    EdgeStarted | EdgeAtOneStepProof | EdgeAddingSubchallengeLeaf | EdgeBisecting | EdgeConfirming | EdgeConfirmed
  | EdgeInvalid uint8

fun State_String :: "State \<Rightarrow> string" where
  "State_String EdgeStarted = ''started''"
| "State_String EdgeAtOneStepProof = ''one_step_proof''"
| "State_String EdgeAddingSubchallengeLeaf = ''adding_subchallenge_leaf''"
| "State_String EdgeBisecting = ''bisecting''"
| "State_String EdgeConfirming = ''confirming''"
| "State_String EdgeConfirmed = ''confirmed''"
| "State_String (EdgeInvalid _) = ''invalid''"

datatype edgeTrackerAction =
    edgeBackToStart | edgeHandleOneStepProof | edgeOpenSubchallengeLeaf | edgeBisect | edgeAwaitConfirmation | edgeConfirm

fun Action_String :: "edgeTrackerAction \<Rightarrow> string" where
  "Action_String edgeBackToStart = ''back_to_start''"
| "Action_String edgeHandleOneStepProof = ''check_one_step_proof''"
| "Action_String edgeOpenSubchallengeLeaf = ''open_subchallenge_leaf''"
| "Action_String edgeBisect = ''bisect''"
| "Action_String edgeAwaitConfirmation = ''await_confirmation''"
| "Action_String edgeConfirm = ''confirm''"

type_synonym tracker_fsm = "(edgeTrackerAction, State) Fsm"

definition transitions :: "(edgeTrackerAction, State) Event list" where
  "transitions =
     [\<lparr>Typ = edgeBackToStart,
       From = [EdgeBisecting, EdgeStarted, EdgeAtOneStepProof, EdgeAddingSubchallengeLeaf], To = EdgeStarted\<rparr>,
      \<lparr>Typ = edgeHandleOneStepProof, From = [EdgeStarted], To = EdgeAtOneStepProof\<rparr>,
      \<lparr>Typ = edgeOpenSubchallengeLeaf, From = [EdgeStarted, EdgeAddingSubchallengeLeaf], To = EdgeAddingSubchallengeLeaf\<rparr>,
      \<lparr>Typ = edgeBisect, From = [EdgeStarted], To = EdgeBisecting\<rparr>,
      \<lparr>Typ = edgeAwaitConfirmation,
       From = [EdgeStarted, EdgeBisecting, EdgeAddingSubchallengeLeaf, EdgeConfirming], To = EdgeConfirming\<rparr>,
      \<lparr>Typ = edgeConfirm, From = [EdgeStarted, EdgeConfirming, EdgeConfirmed, EdgeAtOneStepProof], To = EdgeConfirmed\<rparr>]"

definition newEdgeTrackerFsm :: "State \<Rightarrow> (tracker_fsm \<Rightarrow> tracker_fsm) list \<Rightarrow> tracker_fsm res" where
  "newEdgeTrackerFsm startState fsmOpts = Fsm_New Action_String State_String startState transitions fsmOpts"

subsection \<open>The tracker and what it calls\<close>

record 'h AssociatedAssertionMetadata =
  Meta_FromBatch :: uint64
  Meta_ToBatch :: uint64
  Meta_WasmModuleRoot :: 'h

record 'h Tracker =
  edge :: "'h Edge"
  fsm :: tracker_fsm
  fsmOpts :: "(tracker_fsm \<Rightarrow> tracker_fsm) list"
  actInterval :: int
  tr_validatorName :: string
  associatedAssertionMetadata :: "'h AssociatedAssertionMetadata"

text \<open>
  The interfaces: the edge's methods that read the chain or send a transaction, \<^verbatim>\<open>protocol.Protocol\<close> and its
  \<^verbatim>\<open>SpecChallengeManager\<close>, \<^verbatim>\<open>l2stateprovider.Provider\<close>, \<^verbatim>\<open>ConfirmationMetadataChecker\<close> and \<^verbatim>\<open>ChallengeTracker\<close>.
\<close>

record ('w, 'h, 'a) Environment =
  Edge_HasConfirmedRival :: "'h \<Rightarrow> ('w, bool) op"
  Edge_LowerChild :: "'h \<Rightarrow> ('w, 'h option) op"
  Edge_UpperChild :: "'h \<Rightarrow> ('w, 'h option) op"
  Edge_AssertionHash :: "'h \<Rightarrow> ('w, 'h) op"
  Edge_HasRival :: "'h \<Rightarrow> ('w, bool) op"
  Edge_Status :: "'h \<Rightarrow> ('w, EdgeStatus) op"
  Edge_HasLengthOneRival :: "'h \<Rightarrow> ('w, bool) op"
  Edge_TopLevelClaimHeight :: "'h \<Rightarrow> ('w, uint64 list) op"
  Edge_GetTotalChallengeLevels :: "'h \<Rightarrow> 'w \<Rightarrow> uint8"
  Edge_Bisect :: "'h \<Rightarrow> 'h \<Rightarrow> uint8 list \<Rightarrow> ('w, 'h Edge \<times> 'h Edge) op"
  Edge_ConfirmByTimer :: "'h \<Rightarrow> 'h list \<Rightarrow> ('w, unit) op"
  Edge_ConfirmByClaim :: "'h \<Rightarrow> 'h \<Rightarrow> ('w, unit) op"
  Edge_ConfirmByChildren :: "'h \<Rightarrow> ('w, unit) op"
  Chain_SpecChallengeManager :: "('w, unit) op"
  Chain_ReadAssertionCreationInfo :: "'h \<Rightarrow> ('w, ('h, 'a) AssertionCreatedInfo) op"
  Manager_GetEdge :: "'h \<Rightarrow> ('w, 'h Edge option) op"
  Manager_ChallengePeriodBlocks :: "('w, uint64) op"
  Manager_AddSubChallengeLevelZeroEdge ::
    "'h Edge \<Rightarrow> 'h History \<Rightarrow> 'h History \<Rightarrow> 'h list \<Rightarrow> 'h list \<Rightarrow> uint8 list \<Rightarrow> ('w, 'h Edge) op"
  Manager_ConfirmEdgeByOneStepProof :: "'h \<Rightarrow> 'h OneStepData \<Rightarrow> 'h list \<Rightarrow> 'h list \<Rightarrow> ('w, unit) op"
  Provider_HistoryCommitment :: "'h HistoryCommitmentRequest \<Rightarrow> ('w, 'h History) op"
  Provider_PrefixProof :: "'h HistoryCommitmentRequest \<Rightarrow> uint64 \<Rightarrow> ('w, uint8 list) op"
  Provider_OneStepProofData ::
    "'h \<Rightarrow> uint64 \<Rightarrow> uint64 \<Rightarrow> uint64 list \<Rightarrow> uint64 \<Rightarrow> uint64 \<Rightarrow> ('w, 'h OneStepData \<times> 'h list \<times> 'h list) op"
  Watcher_ConfirmedEdgeWithClaimExists :: "'h \<Rightarrow> 'h \<Rightarrow> 'w \<Rightarrow> 'h option"
  Watcher_ComputeHonestPathTimer :: "'h \<Rightarrow> 'h \<Rightarrow> ('w, uint64 \<times> 'h list \<times> uint64 list) op"
  Watcher_HasConfirmableAncestor :: "'h \<Rightarrow> uint64 list \<Rightarrow> uint64 \<Rightarrow> ('w, bool) op"
  Watcher_AddVerifiedHonestEdge :: "'h Edge \<Rightarrow> ('w, unit) op"
  IsTrackingEdge :: "'h \<Rightarrow> 'w \<Rightarrow> bool"
  MarkTrackedEdge :: "'h \<Rightarrow> 'w \<Rightarrow> 'w"

definition WithActInterval :: "int \<Rightarrow> 'h Tracker \<Rightarrow> 'h Tracker" where
  "WithActInterval d et = et\<lparr>actInterval := d\<rparr>"

definition WithValidatorName :: "string \<Rightarrow> 'h Tracker \<Rightarrow> 'h Tracker" where
  "WithValidatorName name et = et\<lparr>tr_validatorName := name\<rparr>"

definition WithFSMOpts :: "(tracker_fsm \<Rightarrow> tracker_fsm) list \<Rightarrow> 'h Tracker \<Rightarrow> 'h Tracker" where
  "WithFSMOpts opts et = et\<lparr>fsmOpts := opts\<rparr>"

text \<open>
  The machine of a tracker has no meaning before \<^verbatim>\<open>New\<close> sets it; the interval is in nanoseconds.
\<close>

definition empty_fsm :: tracker_fsm where
  "empty_fsm =
     \<lparr>trackingTransitions = False, transitionsExecuted = [], curr = \<lparr>SourceEvent = None, State = EdgeInvalid 0\<rparr>,
      validEvents = [], validStates = [], validTransitions = []\<rparr>"

definition Tracker_New ::
    "'h Edge \<Rightarrow> 'h AssociatedAssertionMetadata \<Rightarrow> ('h Tracker \<Rightarrow> 'h Tracker) list \<Rightarrow> 'h Tracker res" where
  "Tracker_New e assertionCreationInfo opts =
     (let tr = \<lparr>edge = e, fsm = empty_fsm, fsmOpts = [], actInterval = 1000000000, tr_validatorName = [],
                associatedAssertionMetadata = assertionCreationInfo\<rparr>;
          tr = fold (\<lambda>opt tr. opt tr) opts tr
      in if actInterval tr = 0 then Inl (ErrMsg ''edge tracker act interval must be greater than 0'')
         else bindR (newEdgeTrackerFsm EdgeStarted (fsmOpts tr)) (\<lambda>f. Inr (tr\<lparr>fsm := f\<rparr>)))"

text \<open>The tracker of a new edge, with the options the parent passes on.\<close>

definition child_tracker :: "'h Tracker \<Rightarrow> 'h Edge \<Rightarrow> 'h Tracker res" where
  "child_tracker et e =
     Tracker_New e (associatedAssertionMetadata et)
       [WithActInterval (actInterval et), WithValidatorName (tr_validatorName et), WithFSMOpts (fsmOpts et)]"

definition Tracker_CurrentState :: "'h Tracker \<Rightarrow> State" where
  "Tracker_CurrentState et = State (Current (fsm et))"

subsection \<open>Confirmation\<close>

definition CanOneStepProve :: "('w, 'h, 'a) Environment \<Rightarrow> 'h Edge \<Rightarrow> ('w, bool) op" where
  "CanOneStepProve env e w =
     (let start = fst (StartCommitment e); stop = fst (EndCommitment e) in
      if start \<ge> stop then (Inl (ErrMsg ''start height %d cannot be >= end height %d''), w)
      else (Inr (stop - start = 1 \<and> GetChallengeLevel e = Edge_GetTotalChallengeLevels env (EdgeId e) w - 1), w))"

definition ChildrenAreConfirmed :: "('w, 'h, 'a) Environment \<Rightarrow> 'h Edge \<Rightarrow> ('w, bool) op" where
  "ChildrenAreConfirmed env e =
     bindM (Edge_LowerChild env (EdgeId e)) (\<lambda>lower.
     bindM (Edge_UpperChild env (EdgeId e)) (\<lambda>upper.
       case (lower, upper) of
         (Some lowerId, Some upperId) \<Rightarrow>
           bindM (Manager_GetEdge env lowerId) (\<lambda>someLowerEdge.
           bindM (Manager_GetEdge env upperId) (\<lambda>someUpperEdge.
             case (someLowerEdge, someUpperEdge) of
               (Some lowerEdge, Some upperEdge) \<Rightarrow>
                 bindM (Edge_Status env (EdgeId lowerEdge)) (\<lambda>lowerStatus.
                 bindM (Edge_Status env (EdgeId upperEdge)) (\<lambda>upperStatus.
                   returnM (lowerStatus = StatusConfirmed \<and> upperStatus = StatusConfirmed)))
             | _ \<Rightarrow> returnM False))
       | _ \<Rightarrow> returnM False))"

definition confirm_by_time :: "('w, 'h, 'a) Environment \<Rightarrow> 'h Edge \<Rightarrow> 'h \<Rightarrow> ('w, bool) op" where
  "confirm_by_time env e assertionHash =
     bindM (tryM (Watcher_ComputeHonestPathTimer env assertionHash (EdgeId e))) (\<lambda>result.
       case result of
         Inl err \<Rightarrow> if err = ErrNoLowerChildYet then returnM False else failM err
       | Inr (timer, ancestors, _) \<Rightarrow>
           bindM (Manager_ChallengePeriodBlocks env) (\<lambda>chalPeriod.
             if timer \<ge> chalPeriod then
               bindM (Edge_ConfirmByTimer env (EdgeId e) ancestors) (\<lambda>_. returnM True)
             else failM ErrNotYetConfirmable))"

definition tryToConfirm :: "('w, 'h, 'a) Environment \<Rightarrow> 'h Edge \<Rightarrow> ('w, bool) op" where
  "tryToConfirm env e =
     bindM (Edge_Status env (EdgeId e)) (\<lambda>status.
       if status = StatusConfirmed then returnM True
       else
         bindM (Edge_HasConfirmedRival env (EdgeId e)) (\<lambda>hasConfirmedRival.
           if hasConfirmedRival then returnM False
           else
             bindM (Edge_AssertionHash env (EdgeId e)) (\<lambda>assertionHash.
             bindM (Chain_SpecChallengeManager env) (\<lambda>_.
             bindM (ChildrenAreConfirmed env e) (\<lambda>childrenConfirmed.
               if childrenConfirmed then
                 bindM (Edge_ConfirmByChildren env (EdgeId e)) (\<lambda>_. returnM True)
               else
                 bindM (getM (Watcher_ConfirmedEdgeWithClaimExists env assertionHash (EdgeId e))) (\<lambda>claimingEdge.
                   case claimingEdge of
                     Some claiming \<Rightarrow> bindM (Edge_ConfirmByClaim env (EdgeId e) claiming) (\<lambda>_. returnM True)
                   | None \<Rightarrow> confirm_by_time env e assertionHash))))))"

subsection \<open>Challenge moves\<close>

definition history_request ::
    "'h AssociatedAssertionMetadata \<Rightarrow> uint64 list \<Rightarrow> uint64 option \<Rightarrow> 'h HistoryCommitmentRequest" where
  "history_request meta heights upTo =
     \<lparr>Req_WasmModuleRoot = Meta_WasmModuleRoot meta, FromBatch = Meta_FromBatch meta, ToBatch = Meta_ToBatch meta,
      UpperChallengeOriginHeights = heights, FromHeight = 0, UpToHeight = upTo\<rparr>"

definition DetermineBisectionHistoryWithProof ::
    "('w, 'h, 'a) Environment \<Rightarrow> 'h Tracker \<Rightarrow> ('w, 'h History \<times> uint8 list) op" where
  "DetermineBisectionHistoryWithProof env et =
     (let startHeight = fst (StartCommitment (edge et)); endHeight = fst (EndCommitment (edge et));
          meta = associatedAssertionMetadata et
      in bindM (liftM (Bisect startHeight endHeight)) (\<lambda>bisectTo.
           if GetChallengeLevel (edge et) = NewBlockChallengeLevel then
             bindM (Provider_HistoryCommitment env (history_request meta [] (Some bisectTo))) (\<lambda>historyCommit.
             bindM (Provider_PrefixProof env (history_request meta [] (Some endHeight)) bisectTo) (\<lambda>prf.
               returnM (historyCommit, prf)))
           else
             bindM (Edge_TopLevelClaimHeight env (EdgeId (edge et))) (\<lambda>challengeOriginHeights.
             bindM (Provider_HistoryCommitment env (history_request meta challengeOriginHeights (Some bisectTo))) (\<lambda>historyCommit.
             bindM (Provider_PrefixProof env (history_request meta challengeOriginHeights (Some endHeight)) bisectTo) (\<lambda>prf.
               returnM (historyCommit, prf))))))"

definition bisect_edge :: "('w, 'h, 'a) Environment \<Rightarrow> 'h Tracker \<Rightarrow> ('w, 'h Edge \<times> 'h Edge) op" where
  "bisect_edge env et =
     bindM (DetermineBisectionHistoryWithProof env et) (\<lambda>(historyCommit, prf).
     bindM (Edge_Bisect env (EdgeId (edge et)) (Merkle historyCommit) prf) (\<lambda>(firstChild, secondChild).
     bindM (tryM (Watcher_AddVerifiedHonestEdge env firstChild)) (\<lambda>_.
     bindM (tryM (Watcher_AddVerifiedHonestEdge env secondChild)) (\<lambda>_.
       returnM (firstChild, secondChild)))))"

text \<open>
  The commitments of a subchallenge: to its end and start, to the edge above it at its end and start, and
  the prefix proof between the first two.
\<close>

definition subchallenge_commitments ::
    "('w, 'h, 'a) Environment \<Rightarrow> 'h Tracker \<Rightarrow> uint64 list \<Rightarrow> uint64 list \<Rightarrow> uint64 \<Rightarrow> uint64 \<Rightarrow>
     ('w, 'h History \<times> uint8 list \<times> 'h History \<times> 'h History \<times> 'h History) op" where
  "subchallenge_commitments env et heights parentHeights parentEnd parentStart =
     (let meta = associatedAssertionMetadata et in
      bindM (Provider_HistoryCommitment env (history_request meta heights None)) (\<lambda>endHistory.
      bindM (Provider_PrefixProof env (history_request meta heights (Some (Height endHistory))) 0) (\<lambda>startEndPrefixProof.
      bindM (Provider_HistoryCommitment env (history_request meta heights (Some 0))) (\<lambda>startHistory.
      bindM (Provider_HistoryCommitment env (history_request meta parentHeights (Some parentEnd))) (\<lambda>endParentCommitment.
      bindM (Provider_HistoryCommitment env (history_request meta parentHeights (Some parentStart))) (\<lambda>startParentCommitment.
        returnM (endHistory, startEndPrefixProof, startHistory, endParentCommitment, startParentCommitment)))))))"

text \<open>
  The world together with the tracker and the trackers it started (\<^verbatim>\<open>go tracker.Spawn(ctx)\<close>).
\<close>

record ('w, 'h) machine =
  world :: 'w
  self :: "'h Tracker"
  spawned :: "'h Tracker list"

definition on_world :: "('w, 'b) op \<Rightarrow> (('w, 'h) machine, 'b) op" where
  "on_world m s = (case m (world s) of (r, w) \<Rightarrow> (r, s\<lparr>world := w\<rparr>))"

definition go_spawn :: "'h Tracker \<Rightarrow> (('w, 'h) machine, unit) op" where
  "go_spawn tr s = (Inr (), s\<lparr>spawned := spawned s @ [tr]\<rparr>)"

definition openSubchallengeLeaf :: "('w, 'h, 'a) Environment \<Rightarrow> 'h Tracker \<Rightarrow> (('w, 'h) machine, unit) op" where
  "openSubchallengeLeaf env et =
     bindM (on_world (Edge_TopLevelClaimHeight env (EdgeId (edge et)))) (\<lambda>originHeights.
     bindM (liftM (index_at originHeights 0)) (\<lambda>fromBlockChallengeHeight.
       let startHeight = fst (StartCommitment (edge et)); endHeight = fst (EndCommitment (edge et)) in
       bindM (on_world
         (if GetChallengeLevel (edge et) = NewBlockChallengeLevel
          then subchallenge_commitments env et [fromBlockChallengeHeight] []
                 (fromBlockChallengeHeight + 1) fromBlockChallengeHeight
          else subchallenge_commitments env et (originHeights @ [startHeight]) originHeights endHeight startHeight))
         (\<lambda>(endHistory, startEndPrefixProof, startHistory, endParentCommitment, startParentCommitment).
       bindM (on_world (Chain_SpecChallengeManager env)) (\<lambda>_.
       bindM (on_world (Manager_AddSubChallengeLevelZeroEdge env (edge et) startHistory endHistory
                (LastLeafProof startParentCommitment) (LastLeafProof endParentCommitment) startEndPrefixProof)) (\<lambda>addedLeaf.
       bindM (tryM (on_world (Watcher_AddVerifiedHonestEdge env addedLeaf))) (\<lambda>_.
       bindM (liftM (child_tracker et addedLeaf)) (\<lambda>tracker.
         go_spawn tracker)))))))"

definition submitOneStepProof :: "('w, 'h, 'a) Environment \<Rightarrow> 'h Tracker \<Rightarrow> ('w, unit) op" where
  "submitOneStepProof env et =
     bindM (Edge_TopLevelClaimHeight env (EdgeId (edge et))) (\<lambda>challengeOriginHeights.
     bindM (Edge_AssertionHash env (EdgeId (edge et))) (\<lambda>assertionHash.
     bindM (Chain_ReadAssertionCreationInfo env assertionHash) (\<lambda>parentAssertionCreationInfo.
       let pc = fst (StartCommitment (edge et)); meta = associatedAssertionMetadata et in
       bindM (tryM (Provider_OneStepProofData env (WasmModuleRoot parentAssertionCreationInfo) (Meta_FromBatch meta)
                (Meta_ToBatch meta) challengeOriginHeights 0 pc)) (\<lambda>result.
         case result of
           Inl _ \<Rightarrow> failM ErrBadOneStepProof
         | Inr (data, beforeStateInclusionProof, afterStateInclusionProof) \<Rightarrow>
             bindM (Chain_SpecChallengeManager env) (\<lambda>_.
               Manager_ConfirmEdgeByOneStepProof env (EdgeId (edge et)) data beforeStateInclusionProof
                 afterStateInclusionProof)))))"

subsection \<open>Acting\<close>

definition Do :: "edgeTrackerAction \<Rightarrow> (('w, 'h) machine, unit) op" where
  "Do ev s = (case Fsm_Do Action_String State_String ev (fsm (self s)) of
     (r, f) \<Rightarrow> (r, s\<lparr>self := (self s)\<lparr>fsm := f\<rparr>\<rparr>))"

definition choose_move :: "('w, 'h, 'a) Environment \<Rightarrow> 'h Tracker \<Rightarrow> (('w, 'h) machine, unit) op" where
  "choose_move env et =
     bindM (on_world (Edge_HasRival env (EdgeId (edge et)))) (\<lambda>hasRival.
       if \<not> hasRival then Do edgeBackToStart
       else
         bindM (tryM (on_world (Edge_HasLengthOneRival env (EdgeId (edge et))))) (\<lambda>atOneStepFork.
           case atOneStepFork of
             Inl _ \<Rightarrow> Do edgeBackToStart
           | Inr fork \<Rightarrow> if fork then Do edgeOpenSubchallengeLeaf else Do edgeBisect))"

definition act_started :: "('w, 'h, 'a) Environment \<Rightarrow> 'h Tracker \<Rightarrow> (('w, 'h) machine, unit) op" where
  "act_started env et =
     bindM (tryM (on_world (CanOneStepProve env (edge et)))) (\<lambda>canOsp.
       case canOsp of
         Inl _ \<Rightarrow> Do edgeBackToStart
       | Inr can \<Rightarrow>
           if can then Do edgeHandleOneStepProof
           else
             bindM (tryM (on_world (tryToConfirm env (edge et)))) (\<lambda>wasConfirmed.
               if wasConfirmed = Inr True then Do edgeConfirm else choose_move env et))"

definition act_bisecting :: "('w, 'h, 'a) Environment \<Rightarrow> 'h Tracker \<Rightarrow> (('w, 'h) machine, unit) op" where
  "act_bisecting env et =
     bindM (tryM (on_world (bisect_edge env et))) (\<lambda>children.
       case children of
         Inl _ \<Rightarrow> Do edgeBackToStart
       | Inr (lowerChild, upperChild) \<Rightarrow>
           bindM (tryM (liftM (child_tracker et lowerChild))) (\<lambda>first.
             case first of
               Inl _ \<Rightarrow> Do edgeBackToStart
             | Inr firstTracker \<Rightarrow>
                 bindM (tryM (liftM (child_tracker et upperChild))) (\<lambda>second.
                   case second of
                     Inl _ \<Rightarrow> Do edgeBackToStart
                   | Inr secondTracker \<Rightarrow>
                       bindM (go_spawn firstTracker) (\<lambda>_.
                       bindM (go_spawn secondTracker) (\<lambda>_.
                         Do edgeAwaitConfirmation)))))"

definition Act :: "('w, 'h, 'a) Environment \<Rightarrow> (('w, 'h) machine, unit) op" where
  "Act env =
     bindM (getM self) (\<lambda>et.
       case State (Current (fsm et)) of
         EdgeStarted \<Rightarrow> act_started env et
       | EdgeAtOneStepProof \<Rightarrow>
           bindM (tryM (on_world (submitOneStepProof env et))) (\<lambda>result.
             case result of Inl _ \<Rightarrow> Do edgeBackToStart | Inr _ \<Rightarrow> Do edgeConfirm)
       | EdgeAddingSubchallengeLeaf \<Rightarrow>
           bindM (tryM (openSubchallengeLeaf env et)) (\<lambda>result.
             case result of Inl _ \<Rightarrow> Do edgeBackToStart | Inr _ \<Rightarrow> Do edgeAwaitConfirmation)
       | EdgeBisecting \<Rightarrow> act_bisecting env et
       | EdgeConfirming \<Rightarrow>
           bindM (tryM (on_world (tryToConfirm env (edge et)))) (\<lambda>wasConfirmed.
             if wasConfirmed \<noteq> Inr True then Do edgeAwaitConfirmation else Do edgeConfirm)
       | EdgeConfirmed \<Rightarrow> Do edgeConfirm
       | EdgeInvalid _ \<Rightarrow> failM (ErrMsg ''invalid state: %s''))"

definition despawn_check :: "('w, 'h, 'a) Environment \<Rightarrow> 'h Tracker \<Rightarrow> ('w, bool) op" where
  "despawn_check env et =
     bindM (Edge_HasConfirmedRival env (EdgeId (edge et))) (\<lambda>hasConfirmedRival.
       if hasConfirmedRival then returnM True
       else
         bindM (Edge_AssertionHash env (EdgeId (edge et))) (\<lambda>assertionHash.
         bindM (Watcher_ComputeHonestPathTimer env assertionHash (EdgeId (edge et))) (\<lambda>(_, _, ancestorLocalTimers).
         bindM (Chain_SpecChallengeManager env) (\<lambda>_.
         bindM (Manager_ChallengePeriodBlocks env) (\<lambda>challengePeriodBlocks.
           Watcher_HasConfirmableAncestor env assertionHash ancestorLocalTimers challengePeriodBlocks)))))"

text \<open>Every error of the checks is logged and answered with \<open>False\<close>.\<close>

definition ShouldDespawn :: "('w, 'h, 'a) Environment \<Rightarrow> 'h Tracker \<Rightarrow> ('w, bool) op" where
  "ShouldDespawn env et =
     (if State (Current (fsm et)) = EdgeConfirmed then returnM True
      else bindM (tryM (despawn_check env et)) (\<lambda>r. returnM (r = Inr True)))"

text \<open>
  The loop of \<^verbatim>\<open>Spawn\<close> over what its \<^verbatim>\<open>select\<close> receives, a tick of the timer or the end of the context.
  \<open>Running\<close> is the loop at the end of the given wake-ups.
\<close>

datatype wakeup = Tick | CtxDone

datatype outcome = Running | Despawned | Cancelled | Panicked | AlreadyTracked

fun Spawn_loop :: "('w, 'h, 'a) Environment \<Rightarrow> wakeup list \<Rightarrow> ('w, 'h) machine \<Rightarrow> outcome \<times> ('w, 'h) machine" where
  "Spawn_loop env [] s = (Running, s)"
| "Spawn_loop env (CtxDone # ws) s = (Cancelled, s)"
| "Spawn_loop env (Tick # ws) s =
     (case on_world (ShouldDespawn env (self s)) s of
        (Inl _, s') \<Rightarrow> (Panicked, s')
      | (Inr True, s') \<Rightarrow> (Despawned, s')
      | (Inr False, s') \<Rightarrow>
          (case Act env s' of
             (r, s'') \<Rightarrow> if r = Inl GoPanic then (Panicked, s'') else Spawn_loop env ws s''))"

definition Spawn :: "('w, 'h, 'a) Environment \<Rightarrow> wakeup list \<Rightarrow> ('w, 'h) machine \<Rightarrow> outcome \<times> ('w, 'h) machine" where
  "Spawn env ws s =
     (let i = EdgeId (edge (self s)) in
      if IsTrackingEdge env i (world s) then (AlreadyTracked, s)
      else Spawn_loop env ws (s\<lparr>world := MarkTrackedEdge env i (world s)\<rparr>))"

end
