(* ===== verification/Tracker_Safety.thy ===== *)
theory Tracker_Safety
  imports Edge_Tracker
begin

text \<open>
  What an edge tracker guarantees in any environment: it only takes transitions of its table, reports
  itself confirmed only right after a successful confirmation, spawns trackers for exactly the children
  of a bisection, and stops once its edge is confirmed.
\<close>

subsection \<open>The transition table\<close>

definition tracker_next :: "State \<Rightarrow> edgeTrackerAction \<Rightarrow> State option" where
  "tracker_next s ev = table_next Action_String State_String transitions (Action_String ev) (State_String s)"

lemma tracker_next_simps [simp]:
  "tracker_next s edgeBackToStart =
     (if s \<in> {EdgeBisecting, EdgeStarted, EdgeAtOneStepProof, EdgeAddingSubchallengeLeaf} then Some EdgeStarted else None)"
  "tracker_next s edgeHandleOneStepProof = (if s = EdgeStarted then Some EdgeAtOneStepProof else None)"
  "tracker_next s edgeOpenSubchallengeLeaf =
     (if s \<in> {EdgeStarted, EdgeAddingSubchallengeLeaf} then Some EdgeAddingSubchallengeLeaf else None)"
  "tracker_next s edgeBisect = (if s = EdgeStarted then Some EdgeBisecting else None)"
  "tracker_next s edgeAwaitConfirmation =
     (if s \<in> {EdgeStarted, EdgeBisecting, EdgeAddingSubchallengeLeaf, EdgeConfirming} then Some EdgeConfirming else None)"
  "tracker_next s edgeConfirm =
     (if s \<in> {EdgeStarted, EdgeConfirming, EdgeConfirmed, EdgeAtOneStepProof} then Some EdgeConfirmed else None)"
  by (cases s; simp add: tracker_next_def transitions_def)+

definition state_of :: "('w, 'h) machine \<Rightarrow> State" where
  "state_of s = State (curr (fsm (self s)))"

definition tracker_ok :: "'h Tracker \<Rightarrow> bool" where
  "tracker_ok et \<longleftrightarrow> follows Action_String State_String transitions (fsm et) \<and>
     (\<forall>b. State (curr (fsm et)) \<noteq> EdgeInvalid b)"

text \<open>Two states of one tracker: all but the machine is the same.\<close>

definition same_tracker :: "'h Tracker \<Rightarrow> 'h Tracker \<Rightarrow> bool" where
  "same_tracker et et' \<longleftrightarrow> edge et' = edge et \<and> fsmOpts et' = fsmOpts et \<and> actInterval et' = actInterval et \<and>
     tr_validatorName et' = tr_validatorName et \<and> associatedAssertionMetadata et' = associatedAssertionMetadata et"

text \<open>\<open>moves s s' t\<close>: only the state of the tracker's machine changed, to \<open>t\<close>.\<close>

definition moves :: "('w, 'h) machine \<Rightarrow> ('w, 'h) machine \<Rightarrow> State \<Rightarrow> bool" where
  "moves s s' t \<longleftrightarrow> world s' = world s \<and> spawned s' = spawned s \<and> same_tracker (self s) (self s') \<and>
     state_of s' = t \<and> tracker_ok (self s')"

lemma Do_allowed:
  assumes "tracker_ok (self s)" "tracker_next (state_of s) ev = Some t"
  shows "\<exists>s'. Do ev s = (Inr (), s') \<and> moves s s' t"
proof -
  have t: "table_next Action_String State_String transitions (Action_String ev) (State_String (State (curr (fsm (self s))))) = Some t"
    using assms(2) by (simp add: tracker_next_def state_of_def)
  obtain f where f: "Fsm_Do Action_String State_String ev (fsm (self s)) = (Inr (), f)" "State (curr f) = t"
      "follows Action_String State_String transitions f"
    using fsm.allowed [OF _ t] assms(1) unfolding tracker_ok_def by blast
  moreover have "\<forall>b. t \<noteq> EdgeInvalid b" using assms(2) by (cases ev) (auto split: if_splits)
  ultimately show ?thesis by (simp add: Do_def moves_def state_of_def tracker_ok_def same_tracker_def)
qed

subsection \<open>Calls leave the tracker alone\<close>

lemma on_world_cases:
  obtains r w where "on_world m s = (r, s\<lparr>world := w\<rparr>)" "m (world s) = (r, w)"
  by (cases "m (world s)") (auto simp: on_world_def)

text \<open>
  The handler of a call whose error is handled: the call ends with a result and a new world, unless it
  panics.
\<close>

lemma bindM_try_world_cases:
  assumes "bindM (tryM (on_world m)) k s = (x, s')"
  obtains (panic) w where "x = Inl GoPanic" "s' = s\<lparr>world := w\<rparr>" "m (world s) = (Inl GoPanic, w)"
    | (result) r w where "m (world s) = (r, w)" "r \<noteq> Inl GoPanic" "k r (s\<lparr>world := w\<rparr>) = (x, s')"
proof -
  obtain r w where rw: "m (world s) = (r, w)" by (cases "m (world s)")
  show ?thesis
  proof (cases "r = Inl GoPanic")
    case True
    with assms rw show ?thesis by (intro panic) (auto simp: bindM_def tryM_def on_world_def)
  next
    case False
    with assms rw show ?thesis by (intro result [of r w]) (auto simp: bindM_def tryM_def on_world_def)
  qed
qed

lemma bindM_world_cases:
  assumes "bindM (on_world m) k s = (x, s')"
  obtains (error) err w where "x = Inl err" "s' = s\<lparr>world := w\<rparr>" "m (world s) = (Inl err, w)"
    | (result) r w where "m (world s) = (Inr r, w)" "k r (s\<lparr>world := w\<rparr>) = (x, s')"
proof (cases "m (world s)")
  case (Pair r w)
  then show ?thesis using assms error result by (cases r) (auto simp: bindM_def on_world_def)
qed

lemma state_of_world [simp]: "state_of (s\<lparr>world := w\<rparr>) = state_of s"
  by (simp add: state_of_def)

lemma Do_after_call:
  assumes "tracker_ok (self s)" "tracker_next (state_of s) ev = Some t" "Do ev (s\<lparr>world := w\<rparr>) = (x, s')"
  shows "x = Inr () \<and> world s' = w \<and> spawned s' = spawned s \<and> same_tracker (self s) (self s') \<and>
     state_of s' = t \<and> tracker_ok (self s')"
  using Do_allowed [of "s\<lparr>world := w\<rparr>" ev t] assms by (auto simp: moves_def)

subsection \<open>What a confirmation is\<close>

text \<open>
  \<open>confirmation env e w\<close>: the world \<open>w\<close> is the one right after the chain reported the edge as confirmed or
  accepted one of the four ways to confirm it, each tried only under its condition.
\<close>

inductive confirmation :: "('w, 'h, 'a) Environment \<Rightarrow> 'h Edge \<Rightarrow> 'w \<Rightarrow> bool" for env e where
  already: "Edge_Status env (EdgeId e) w = (Inr StatusConfirmed, w') \<Longrightarrow> confirmation env e w'"
| by_children: "ChildrenAreConfirmed env e w0 = (Inr True, w) \<Longrightarrow>
    Edge_ConfirmByChildren env (EdgeId e) w = (Inr (), w') \<Longrightarrow> confirmation env e w'"
| by_claim: "Watcher_ConfirmedEdgeWithClaimExists env assertionHash (EdgeId e) w = Some claiming \<Longrightarrow>
    Edge_ConfirmByClaim env (EdgeId e) claiming w = (Inr (), w') \<Longrightarrow> confirmation env e w'"
| by_timer: "Watcher_ComputeHonestPathTimer env assertionHash (EdgeId e) w0 = (Inr (timer, anc, timers), w1) \<Longrightarrow>
    Manager_ChallengePeriodBlocks env w1 = (Inr period, w2) \<Longrightarrow> period \<le> timer \<Longrightarrow>
    Edge_ConfirmByTimer env (EdgeId e) anc w2 = (Inr (), w') \<Longrightarrow> confirmation env e w'"
| by_one_step_proof: "Manager_ConfirmEdgeByOneStepProof env (EdgeId e) data before_proof after_proof w = (Inr (), w') \<Longrightarrow>
    confirmation env e w'"

lemma confirm_by_time_sound:
  assumes "confirm_by_time env e assertionHash w = (Inr True, w')"
  shows "confirmation env e w'"
proof -
  from assms obtain timer anc timers w1 period w2 where
    "Watcher_ComputeHonestPathTimer env assertionHash (EdgeId e) w = (Inr (timer, anc, timers), w1)"
    "Manager_ChallengePeriodBlocks env w1 = (Inr period, w2)" "period \<le> timer"
    "Edge_ConfirmByTimer env (EdgeId e) anc w2 = (Inr (), w')"
    by (auto simp: confirm_by_time_def tryM_def op_defs elim!: bindM_Inr_E split: sum.splits prod.splits if_splits)
  then show ?thesis by (rule by_timer)
qed

lemma tryToConfirm_sound:
  assumes "tryToConfirm env e w = (Inr True, w')"
  shows "confirmation env e w'"
proof -
  from assms consider "Edge_Status env (EdgeId e) w = (Inr StatusConfirmed, w')"
    | w0 w1 where "ChildrenAreConfirmed env e w0 = (Inr True, w1)" "Edge_ConfirmByChildren env (EdgeId e) w1 = (Inr (), w')"
    | assertionHash w1 claiming where "Watcher_ConfirmedEdgeWithClaimExists env assertionHash (EdgeId e) w1 = Some claiming"
        "Edge_ConfirmByClaim env (EdgeId e) claiming w1 = (Inr (), w')"
    | assertionHash w1 where "confirm_by_time env e assertionHash w1 = (Inr True, w')"
    by (auto simp: tryToConfirm_def op_defs elim!: bindM_Inr_E split: option.splits if_splits)
  then show ?thesis
    by cases (blast intro: already by_children by_claim confirm_by_time_sound)+
qed

lemma submitOneStepProof_sound:
  assumes "submitOneStepProof env et w = (Inr r, w')"
  shows "confirmation env (edge et) w'"
proof -
  from assms obtain d p q w1 where
    "Manager_ConfirmEdgeByOneStepProof env (EdgeId (edge et)) d p q w1 = (Inr (), w')"
    by (auto simp: submitOneStepProof_def tryM_def op_defs Let_def elim!: bindM_Inr_E split: sum.splits prod.splits if_splits)
  then show ?thesis by (rule by_one_step_proof)
qed

subsection \<open>The specification of a tracker\<close>

text \<open>
  What one call of \<^verbatim>\<open>Act\<close> may do, without the machine and its table: the result, the next state, the trackers
  started, and the condition for each. A child tracker starts with the parent's settings.
\<close>

definition fresh_child :: "'h Tracker \<Rightarrow> 'h Edge \<Rightarrow> 'h Tracker \<Rightarrow> bool" where
  "fresh_child et e tr \<longleftrightarrow> child_tracker et e = Inr tr"

definition steps_to :: "('w, 'h) machine \<Rightarrow> ('w, 'h) machine \<Rightarrow> State \<Rightarrow> 'h Tracker list \<Rightarrow> bool" where
  "steps_to s s' t new \<longleftrightarrow> spawned s' = spawned s @ new \<and> same_tracker (self s) (self s') \<and>
     state_of s' = t \<and> tracker_ok (self s')"

inductive act_spec :: "('w, 'h, 'a) Environment \<Rightarrow> ('w, 'h) machine \<Rightarrow> unit res \<Rightarrow> ('w, 'h) machine \<Rightarrow> bool"
  for env s where
  panics: "self s' = self s \<Longrightarrow> spawned s' = spawned s \<Longrightarrow> act_spec env s (Inl GoPanic) s'"
| rival_unknown: "state_of s = EdgeStarted \<Longrightarrow> self s' = self s \<Longrightarrow> spawned s' = spawned s \<Longrightarrow>
    Edge_HasRival env (EdgeId (edge (self s))) w = (Inl err, world s') \<Longrightarrow> act_spec env s (Inl err) s'"
| retries: "state_of s \<in> {EdgeStarted, EdgeAtOneStepProof, EdgeAddingSubchallengeLeaf, EdgeBisecting} \<Longrightarrow>
    steps_to s s' EdgeStarted [] \<Longrightarrow> act_spec env s (Inr ()) s'"
| one_step_proof: "state_of s = EdgeStarted \<Longrightarrow> CanOneStepProve env (edge (self s)) (world s) = (Inr True, world s') \<Longrightarrow>
    steps_to s s' EdgeAtOneStepProof [] \<Longrightarrow> act_spec env s (Inr ()) s'"
| one_step_fork: "state_of s = EdgeStarted \<Longrightarrow> Edge_HasRival env (EdgeId (edge (self s))) w = (Inr True, w') \<Longrightarrow>
    Edge_HasLengthOneRival env (EdgeId (edge (self s))) w' = (Inr True, world s') \<Longrightarrow>
    steps_to s s' EdgeAddingSubchallengeLeaf [] \<Longrightarrow> act_spec env s (Inr ()) s'"
| to_bisect: "state_of s = EdgeStarted \<Longrightarrow> Edge_HasRival env (EdgeId (edge (self s))) w = (Inr True, w') \<Longrightarrow>
    Edge_HasLengthOneRival env (EdgeId (edge (self s))) w' = (Inr False, world s') \<Longrightarrow>
    steps_to s s' EdgeBisecting [] \<Longrightarrow> act_spec env s (Inr ()) s'"
| bisected: "state_of s = EdgeBisecting \<Longrightarrow> bisect_edge env (self s) (world s) = (Inr (lowerChild, upperChild), world s') \<Longrightarrow>
    fresh_child (self s) lowerChild tr1 \<Longrightarrow> fresh_child (self s) upperChild tr2 \<Longrightarrow>
    steps_to s s' EdgeConfirming [tr1, tr2] \<Longrightarrow> act_spec env s (Inr ()) s'"
| opened: "state_of s = EdgeAddingSubchallengeLeaf \<Longrightarrow> fresh_child (self s) leaf tr \<Longrightarrow>
    steps_to s s' EdgeConfirming [tr] \<Longrightarrow> act_spec env s (Inr ()) s'"
| waits: "state_of s = EdgeConfirming \<Longrightarrow> steps_to s s' EdgeConfirming [] \<Longrightarrow> act_spec env s (Inr ()) s'"
| confirms: "state_of s \<in> {EdgeStarted, EdgeAtOneStepProof, EdgeConfirming} \<Longrightarrow>
    confirmation env (edge (self s)) (world s') \<Longrightarrow> steps_to s s' EdgeConfirmed [] \<Longrightarrow> act_spec env s (Inr ()) s'"
| stays_confirmed: "state_of s = EdgeConfirmed \<Longrightarrow> world s' = world s \<Longrightarrow> steps_to s s' EdgeConfirmed [] \<Longrightarrow>
    act_spec env s (Inr ()) s'"

lemma Do_steps:
  assumes "tracker_ok (self s)" "tracker_next (state_of s) ev = Some t" "Do ev (s\<lparr>world := w\<rparr>) = (x, s')"
  shows "x = Inr ()" "world s' = w" "steps_to s s' t []"
  using Do_after_call [OF assms] by (simp_all add: steps_to_def)

lemma choose_move_spec:
  assumes ok: "tracker_ok (self s)" and st: "state_of s = EdgeStarted"
    and run: "choose_move env (self s) (s\<lparr>world := w1\<rparr>) = (x, s')"
  shows "act_spec env s x s'"
  using run unfolding choose_move_def
proof (cases rule: bindM_world_cases)
  case (error err w2)
  then show ?thesis using rival_unknown [OF st, of s' env w1 err] by simp
next
  case rival: (result has w2)
  show ?thesis
  proof (cases has)
    case False
    then have "Do edgeBackToStart (s\<lparr>world := w2\<rparr>) = (x, s')" using rival(2) by simp
    from Do_steps [OF ok _ this, of EdgeStarted] st show ?thesis using retries [of s s' env] by simp
  next
    case True
    then have has: "Edge_HasRival env (EdgeId (edge (self s))) w1 = (Inr True, w2)" using rival(1) by simp
    from rival(2) True have "bindM (tryM (on_world (Edge_HasLengthOneRival env (EdgeId (edge (self s)))))) (\<lambda>atOneStepFork.
        case atOneStepFork of Inl _ \<Rightarrow> Do edgeBackToStart
        | Inr fork \<Rightarrow> if fork then Do edgeOpenSubchallengeLeaf else Do edgeBisect) (s\<lparr>world := w2\<rparr>) = (x, s')" by simp
    then show ?thesis
    proof (cases rule: bindM_try_world_cases)
      case panic
      then show ?thesis by (simp add: panics)
    next
      case (result r w3)
      consider "r = Inr True" | "r = Inr False" | err where "r = Inl err" by (cases r) auto
      then show ?thesis
      proof cases
        case 1
        with result(3) have "Do edgeOpenSubchallengeLeaf (s\<lparr>world := w3\<rparr>) = (x, s')" by simp
        from Do_steps [OF ok _ this, of EdgeAddingSubchallengeLeaf] st 1 result(1) one_step_fork [OF st has, of s'] show ?thesis by simp
      next
        case 2
        with result(3) have "Do edgeBisect (s\<lparr>world := w3\<rparr>) = (x, s')" by simp
        from Do_steps [OF ok _ this, of EdgeBisecting] st 2 result(1) to_bisect [OF st has, of s'] show ?thesis by simp
      next
        case 3
        with result(3) have "Do edgeBackToStart (s\<lparr>world := w3\<rparr>) = (x, s')" by simp
        from Do_steps [OF ok _ this, of EdgeStarted] st show ?thesis using retries [of s s' env] by simp
      qed
    qed
  qed
qed

lemma act_started_spec:
  assumes ok: "tracker_ok (self s)" and st: "state_of s = EdgeStarted" and run: "act_started env (self s) s = (x, s')"
  shows "act_spec env s x s'"
  using run unfolding act_started_def
proof (cases rule: bindM_try_world_cases)
  case panic
  then show ?thesis by (simp add: panics)
next
  case (result r w)
  consider "r = Inr True" | "r = Inr False" | err where "r = Inl err" by (cases r) auto
  then show ?thesis
  proof cases
    case 1
    with result(3) have "Do edgeHandleOneStepProof (s\<lparr>world := w\<rparr>) = (x, s')" by simp
    from Do_steps [OF ok _ this, of EdgeAtOneStepProof] st 1 result(1) one_step_proof [OF st, of env s'] show ?thesis by simp
  next
    case 3
    with result(3) have "Do edgeBackToStart (s\<lparr>world := w\<rparr>) = (x, s')" by simp
    from Do_steps [OF ok _ this, of EdgeStarted] st show ?thesis using retries [of s s' env] by simp
  next
    case 2
    with result(3) have "bindM (tryM (on_world (tryToConfirm env (edge (self s))))) (\<lambda>wasConfirmed.
        if wasConfirmed = Inr True then Do edgeConfirm else choose_move env (self s)) (s\<lparr>world := w\<rparr>) = (x, s')" by simp
    then show ?thesis
    proof (cases rule: bindM_try_world_cases)
      case panic
      then show ?thesis by (simp add: panics)
    next
      case confirm: (result r1 w1)
      show ?thesis
      proof (cases "r1 = Inr True")
        case True
        with confirm(3) have "Do edgeConfirm (s\<lparr>world := w1\<rparr>) = (x, s')" by simp
        from Do_steps [OF ok _ this, of EdgeConfirmed] st True confirm(1)
          tryToConfirm_sound [of env "edge (self s)" w w1] confirms [of s env s'] show ?thesis by simp
      next
        case False
        with confirm(3) have "choose_move env (self s) (s\<lparr>world := w1\<rparr>) = (x, s')" by simp
        with ok st show ?thesis by (rule choose_move_spec)
      qed
    qed
  qed
qed

lemma act_bisecting_spec:
  assumes ok: "tracker_ok (self s)" and st: "state_of s = EdgeBisecting" and run: "act_bisecting env (self s) s = (x, s')"
  shows "act_spec env s x s'"
  using run unfolding act_bisecting_def
proof (cases rule: bindM_try_world_cases)
  case panic
  then show ?thesis by (simp add: panics)
next
  case (result r w)
  have retry: ?thesis if "Do edgeBackToStart (s\<lparr>world := w\<rparr>) = (x, s')"
    using Do_steps [OF ok _ that, of EdgeStarted] st retries [of s s' env] by simp
  have panic: ?thesis if "(Inl GoPanic, s\<lparr>world := w\<rparr>) = (x, s')"
    using that by (auto intro: panics)
  show ?thesis
  proof (cases r)
    case (Inl err)
    with result(3) retry show ?thesis by simp
  next
    case (Inr children)
    obtain l u where lu: "children = (l, u)" by (cases children)
    show ?thesis
    proof (cases "\<exists>t1 t2. child_tracker (self s) l = Inr t1 \<and> child_tracker (self s) u = Inr t2")
      case False
      with result(3) Inr lu retry panic show ?thesis
        by (auto simp: bindM_def tryM_def liftM_def split: sum.splits if_splits)
    next
      case True
      then obtain t1 t2 where t: "child_tracker (self s) l = Inr t1" "child_tracker (self s) u = Inr t2" by blast
      let ?s = "s\<lparr>spawned := spawned s @ [t1, t2]\<rparr>"
      have "Do edgeAwaitConfirmation (s\<lparr>world := w, spawned := spawned s @ [t1, t2]\<rparr>) = (x, s')"
        using result(3) Inr lu t by (simp add: bindM_def tryM_def liftM_def go_spawn_def)
      moreover have "s\<lparr>world := w, spawned := spawned s @ [t1, t2]\<rparr> = ?s\<lparr>world := w\<rparr>" by simp
      ultimately have "Do edgeAwaitConfirmation (?s\<lparr>world := w\<rparr>) = (x, s')" by (simp only:)
      from Do_steps [OF _ _ this, of EdgeConfirming] ok st have "x = Inr ()" "world s' = w" "steps_to ?s s' EdgeConfirming []"
        by (simp_all add: state_of_def)
      then show ?thesis
        using bisected [of s env l u s' t1 t2] st result(1) Inr lu t by (simp add: fresh_child_def steps_to_def)
    qed
  qed
qed

lemma openSubchallengeLeaf_cases:
  assumes "openSubchallengeLeaf env et s = (r, s1)"
  shows "self s1 = self s \<and> (case r of
      Inl err \<Rightarrow> spawned s1 = spawned s
    | Inr _ \<Rightarrow> \<exists>leaf tr. child_tracker et leaf = Inr tr \<and> spawned s1 = spawned s @ [tr])"
  using assms unfolding openSubchallengeLeaf_def Let_def
  by (auto simp: bindM_def tryM_def on_world_def liftM_def go_spawn_def split: prod.splits sum.splits if_splits)

lemma machine_eq:
  fixes s :: "('w, 'h) machine"
  shows "self s1 = self s \<Longrightarrow> spawned s1 = new \<Longrightarrow> s1 = s\<lparr>spawned := new, world := world s1\<rparr>"
  by (cases s; cases s1) simp

lemma Act_spec:
  assumes ok: "tracker_ok (self s)" and run: "Act env s = (x, s')"
  shows "act_spec env s x s'"
proof (cases "state_of s")
  case EdgeStarted
  then have "act_started env (self s) s = (x, s')" using run by (simp add: Act_def state_of_def Current_def)
  with ok EdgeStarted show ?thesis by (rule act_started_spec)
next
  case EdgeBisecting
  then have "act_bisecting env (self s) s = (x, s')" using run by (simp add: Act_def state_of_def Current_def)
  with ok EdgeBisecting show ?thesis by (rule act_bisecting_spec)
next
  case EdgeAtOneStepProof
  then have "bindM (tryM (on_world (submitOneStepProof env (self s))))
      (\<lambda>result. case result of Inl _ \<Rightarrow> Do edgeBackToStart | Inr _ \<Rightarrow> Do edgeConfirm) s = (x, s')"
    using run by (simp add: Act_def state_of_def Current_def)
  then show ?thesis
  proof (cases rule: bindM_try_world_cases)
    case panic
    then show ?thesis by (simp add: panics)
  next
    case (result r w)
    show ?thesis
    proof (cases r)
      case (Inl err)
      with result(3) have "Do edgeBackToStart (s\<lparr>world := w\<rparr>) = (x, s')" by simp
      from Do_steps [OF ok _ this, of EdgeStarted] EdgeAtOneStepProof show ?thesis using retries [of s s' env] by simp
    next
      case (Inr y)
      with result(3) have "Do edgeConfirm (s\<lparr>world := w\<rparr>) = (x, s')" by simp
      from Do_steps [OF ok _ this, of EdgeConfirmed] EdgeAtOneStepProof Inr result(1)
        submitOneStepProof_sound [of env "self s" "world s" y w] confirms [of s env s'] show ?thesis by simp
    qed
  qed
next
  case EdgeConfirming
  then have "bindM (tryM (on_world (tryToConfirm env (edge (self s)))))
      (\<lambda>wasConfirmed. if wasConfirmed \<noteq> Inr True then Do edgeAwaitConfirmation else Do edgeConfirm) s = (x, s')"
    using run by (simp add: Act_def state_of_def Current_def)
  then show ?thesis
  proof (cases rule: bindM_try_world_cases)
    case panic
    then show ?thesis by (simp add: panics)
  next
    case (result r w)
    show ?thesis
    proof (cases "r = Inr True")
      case False
      with result(3) have "Do edgeAwaitConfirmation (s\<lparr>world := w\<rparr>) = (x, s')" by simp
      from Do_steps [OF ok _ this, of EdgeConfirming] EdgeConfirming show ?thesis using waits [of s s' env] by simp
    next
      case True
      with result(3) have "Do edgeConfirm (s\<lparr>world := w\<rparr>) = (x, s')" by simp
      from Do_steps [OF ok _ this, of EdgeConfirmed] EdgeConfirming True result(1)
        tryToConfirm_sound [of env "edge (self s)" "world s" w] confirms [of s env s'] show ?thesis by simp
    qed
  qed
next
  case EdgeAddingSubchallengeLeaf
  obtain r s1 where opn: "openSubchallengeLeaf env (self s) s = (r, s1)" by (cases "openSubchallengeLeaf env (self s) s")
  have bind: "(if r = Inl GoPanic then (Inl GoPanic, s1)
      else (case r of Inl _ \<Rightarrow> Do edgeBackToStart | Inr _ \<Rightarrow> Do edgeAwaitConfirmation) s1) = (x, s')"
    using run EdgeAddingSubchallengeLeaf opn
    by (auto simp: Act_def state_of_def Current_def bindM_def tryM_def getM_def split: if_splits sum.splits)
  note cases = openSubchallengeLeaf_cases [OF opn]
  show ?thesis
  proof (cases r)
    case (Inl err)
    then have s1: "self s1 = self s" "spawned s1 = spawned s" "s1 = s\<lparr>world := world s1\<rparr>"
      using cases machine_eq [of s1 s "spawned s"] by simp_all
    show ?thesis
    proof (cases "err = GoPanic")
      case True
      with bind s1 Inl show ?thesis by (auto intro: panics)
    next
      case False
      with bind s1(3) Inl have "Do edgeBackToStart (s\<lparr>world := world s1\<rparr>) = (x, s')" by simp
      from Do_steps [OF ok _ this, of EdgeStarted] EdgeAddingSubchallengeLeaf show ?thesis using retries [of s s' env] by simp
    qed
  next
    case (Inr y)
    with cases obtain leaf tr where o: "child_tracker (self s) leaf = Inr tr" "self s1 = self s" "spawned s1 = spawned s @ [tr]"
      by auto
    let ?s = "s\<lparr>spawned := spawned s @ [tr]\<rparr>"
    from bind Inr machine_eq [OF o(2,3)] have "Do edgeAwaitConfirmation (?s\<lparr>world := world s1\<rparr>) = (x, s')" by simp
    from Do_steps [OF _ _ this, of EdgeConfirming] ok EdgeAddingSubchallengeLeaf
    have "x = Inr ()" "steps_to ?s s' EdgeConfirming []" by (simp_all add: state_of_def)
    then show ?thesis using opened [OF EdgeAddingSubchallengeLeaf, of leaf tr s' env] o by (simp add: fresh_child_def steps_to_def)
  qed
next
  case EdgeConfirmed
  then have "Do edgeConfirm (s\<lparr>world := world s\<rparr>) = (x, s')" using run by (simp add: Act_def state_of_def Current_def)
  from Do_steps [OF ok _ this, of EdgeConfirmed] EdgeConfirmed show ?thesis using stays_confirmed [of s s' env] by simp
next
  case (EdgeInvalid b)
  then show ?thesis using ok by (simp add: tracker_ok_def state_of_def)
qed

subsection \<open>Runs of a tracker\<close>

text \<open>
  A tracker starts as \<^verbatim>\<open>New\<close> makes it, with machine options that do not change the state; then it acts, while
  other goroutines may change the world at any time.
\<close>

definition keeps_state :: "(tracker_fsm \<Rightarrow> tracker_fsm) list \<Rightarrow> bool" where
  "keeps_state opts \<longleftrightarrow> (\<forall>opt\<in>set opts. \<forall>f. State (curr (opt f)) = State (curr f))"

inductive tracker_reach :: "('w, 'h, 'a) Environment \<Rightarrow> ('w, 'h) machine \<Rightarrow> bool" for env where
  start: "Tracker_New e meta opts = Inr et \<Longrightarrow> keeps_state (fsmOpts et) \<Longrightarrow>
    tracker_reach env \<lparr>world = w, self = et, spawned = []\<rparr>"
| others: "tracker_reach env s \<Longrightarrow> tracker_reach env (s\<lparr>world := w\<rparr>)"
| act: "tracker_reach env s \<Longrightarrow> Act env s = (x, s') \<Longrightarrow> tracker_reach env s'"

lemma Tracker_New_ok:
  assumes "Tracker_New e meta opts = Inr et" "keeps_state (fsmOpts et)"
  shows "tracker_ok et \<and> State (curr (fsm et)) = EdgeStarted"
proof -
  obtain tr f where "newEdgeTrackerFsm EdgeStarted (fsmOpts tr) = Inr f" "et = tr\<lparr>fsm := f\<rparr>"
    using assms(1) by (auto simp: Tracker_New_def Let_def bindR_eq_Inr split: if_splits)
  then have "Fsm_New Action_String State_String EdgeStarted transitions (fsmOpts et) = Inr (fsm et)"
    by (simp add: newEdgeTrackerFsm_def)
  from Fsm_New_follows [OF this] assms(2) show ?thesis by (auto simp: keeps_state_def tracker_ok_def)
qed

lemma child_tracker_fields:
  assumes "child_tracker et e = Inr tr"
  shows "edge tr = e" "fsmOpts tr = fsmOpts et" "actInterval tr = actInterval et"
    "associatedAssertionMetadata tr = associatedAssertionMetadata et" "tr_validatorName tr = tr_validatorName et"
  using assms by (auto simp: child_tracker_def Tracker_New_def WithActInterval_def WithValidatorName_def WithFSMOpts_def
      Let_def bindR_eq_Inr split: if_splits)

lemma child_tracker_ok:
  assumes "child_tracker et e = Inr tr" "keeps_state (fsmOpts et)"
  shows "tracker_ok tr \<and> State (curr (fsm tr)) = EdgeStarted"
  using Tracker_New_ok [OF assms(1) [unfolded child_tracker_def]] child_tracker_fields(2) [OF assms(1)] assms(2) by simp

definition started_like :: "'h Tracker \<Rightarrow> 'h Tracker \<Rightarrow> bool" where
  "started_like et tr \<longleftrightarrow> tracker_ok tr \<and> State (curr (fsm tr)) = EdgeStarted \<and> actInterval tr = actInterval et \<and>
     associatedAssertionMetadata tr = associatedAssertionMetadata et \<and> tr_validatorName tr = tr_validatorName et"

definition machine_ok :: "('w, 'h) machine \<Rightarrow> bool" where
  "machine_ok s \<longleftrightarrow> tracker_ok (self s) \<and> keeps_state (fsmOpts (self s)) \<and> (\<forall>tr\<in>set (spawned s). started_like (self s) tr)"

lemma started_like_same: "same_tracker et et' \<Longrightarrow> started_like et' tr = started_like et tr"
  by (simp add: started_like_def same_tracker_def)

lemma fresh_child_started: "fresh_child et e tr \<Longrightarrow> keeps_state (fsmOpts et) \<Longrightarrow> started_like et tr"
  using child_tracker_ok child_tracker_fields by (auto simp: fresh_child_def started_like_def)

lemma steps_to_ok:
  assumes "steps_to s s' t new" "machine_ok s" "\<forall>tr\<in>set new. started_like (self s) tr"
  shows "machine_ok s'"
proof -
  from assms(1) have s': "same_tracker (self s) (self s')" "tracker_ok (self s')" "spawned s' = spawned s @ new"
    by (simp_all add: steps_to_def)
  then have "fsmOpts (self s') = fsmOpts (self s)" by (simp add: same_tracker_def)
  with s'(2,3) assms(2,3) started_like_same [OF s'(1)] show ?thesis by (auto simp: machine_ok_def)
qed

lemma Act_machine_ok:
  assumes "machine_ok s" "Act env s = (x, s')"
  shows "machine_ok s'"
proof -
  have ks: "keeps_state (fsmOpts (self s))" and "tracker_ok (self s)" using assms(1) by (simp_all add: machine_ok_def)
  from Act_spec [OF this(2) assms(2)] show ?thesis
  proof cases
    case (bisected lowerChild upperChild tr1 tr2)
    then show ?thesis using steps_to_ok assms(1) fresh_child_started ks by (metis empty_iff insert_iff list.set)
  next
    case (opened leaf tr)
    then show ?thesis using steps_to_ok assms(1) fresh_child_started ks by (metis empty_iff insert_iff list.set)
  qed (use assms(1) steps_to_ok [of s s' _ "[]"] in \<open>auto simp: machine_ok_def\<close>)
qed

lemma tracker_reach_ok: "tracker_reach env s \<Longrightarrow> machine_ok s"
proof (induction rule: tracker_reach.induct)
  case (start e meta opts et w)
  then show ?case using Tracker_New_ok [OF start] by (simp add: machine_ok_def)
next
  case (others s w)
  then show ?case by (simp add: machine_ok_def)
next
  case (act s x s')
  then show ?case using Act_machine_ok by blast
qed

subsection \<open>Properties\<close>


text \<open>
  C25. A tracker enters the confirmed state only in the world right after the chain reported its edge as confirmed or
  accepted a confirmation of it: by confirmed children, by the edge that claims it, by a path timer of
  at least the challenge period, or by a one step proof.
\<close>

theorem tracker_confirmed_sound:
  assumes "tracker_reach env s" "Act env s = (x, s')" "state_of s \<noteq> EdgeConfirmed" "state_of s' = EdgeConfirmed"
  shows "confirmation env (edge (self s)) (world s')"
proof -
  have "act_spec env s x s'" using Act_spec [of s env x s'] tracker_reach_ok [OF assms(1)] assms(2) by (simp add: machine_ok_def)
  then show ?thesis using assms(3,4) by cases (auto simp: steps_to_def state_of_def)
qed

text \<open>
  C26. Every tracker that a tracker starts begins in the start state with its parent's interval, name and assertion
  metadata, and follows the transition table; after a bisection exactly the two children are
  tracked, and the parent awaits confirmation.
\<close>

theorem tracker_spawns_children:
  assumes "tracker_reach env s" "Act env s = (Inr (), s')"
  shows "(\<forall>tr\<in>set (spawned s'). started_like (self s') tr) \<and>
    (state_of s = EdgeBisecting \<and> state_of s' = EdgeConfirming \<longrightarrow>
       (\<exists>lowerChild upperChild tr1 tr2.
          bisect_edge env (self s) (world s) = (Inr (lowerChild, upperChild), world s') \<and>
          spawned s' = spawned s @ [tr1, tr2] \<and> edge tr1 = lowerChild \<and> edge tr2 = upperChild))"
proof
  have ok: "machine_ok s" using tracker_reach_ok [OF assms(1)] .
  then show "\<forall>tr\<in>set (spawned s'). started_like (self s') tr" using Act_machine_ok [OF _ assms(2)] by (simp add: machine_ok_def)
  have "act_spec env s (Inr ()) s'" using Act_spec [OF _ assms(2)] ok by (simp add: machine_ok_def)
  then show "state_of s = EdgeBisecting \<and> state_of s' = EdgeConfirming \<longrightarrow>
       (\<exists>lowerChild upperChild tr1 tr2.
          bisect_edge env (self s) (world s) = (Inr (lowerChild, upperChild), world s') \<and>
          spawned s' = spawned s @ [tr1, tr2] \<and> edge tr1 = lowerChild \<and> edge tr2 = upperChild)"
  proof cases
    case (bisected lowerChild upperChild tr1 tr2)
    then show ?thesis using child_tracker_fields(1) unfolding fresh_child_def steps_to_def by blast
  qed (auto simp: steps_to_def)
qed

text \<open>The distance of a state from the confirmed state once the edge is confirmed on the chain.\<close>

fun rank :: "State \<Rightarrow> nat" where
  "rank EdgeConfirmed = 0"
| "rank EdgeStarted = 1"
| "rank EdgeConfirming = 1"
| "rank _ = 2"

lemma tryToConfirm_confirmed:
  "Edge_Status env (EdgeId e) w = (Inr StatusConfirmed, w') \<Longrightarrow> tryToConfirm env e w = (Inr True, w')"
  by (simp add: tryToConfirm_def bindM_def returnM_def)

lemma Act_rank:
  assumes ok: "tracker_ok (self s)" and act: "Act env s = (x, s')" and x: "x \<noteq> Inl GoPanic"
    and status: "\<forall>w. Edge_Status env (EdgeId (edge (self s))) w = (Inr StatusConfirmed, w)"
    and no_osp: "\<forall>w. fst (CanOneStepProve env (edge (self s)) w) = Inr False"
    and pos: "0 < rank (state_of s)"
  shows "rank (state_of s') < rank (state_of s) \<and> edge (self s') = edge (self s) \<and> tracker_ok (self s')"
proof -
  have osp: "CanOneStepProve env (edge (self s)) w = (Inr False, w)" for w
    using no_osp by (auto simp: CanOneStepProve_def Let_def split: if_splits)
  have confirm: "tryToConfirm env (edge (self s)) w = (Inr True, w)" for w
    by (rule tryToConfirm_confirmed) (simp add: status)
  show ?thesis
  proof (cases "state_of s = EdgeStarted \<or> state_of s = EdgeConfirming")
    case True
    then have "Act env s = Do edgeConfirm (s\<lparr>world := world s\<rparr>)"
      using osp confirm
      by (auto simp: Act_def act_started_def state_of_def Current_def bindM_def getM_def tryM_def on_world_def)
    with act have "Do edgeConfirm (s\<lparr>world := world s\<rparr>) = (x, s')" by simp
    from Do_after_call [OF ok _ this, of EdgeConfirmed] True show ?thesis by (auto simp: same_tracker_def)
  next
    case False
    from Act_spec [OF ok act] show ?thesis
      by cases (use False pos x in \<open>auto simp: steps_to_def same_tracker_def\<close>)
  qed
qed

lemma Spawn_loop_stops:
  assumes "tracker_ok (self s)" "rank (state_of s) < n"
    and "\<forall>w. Edge_Status env (EdgeId (edge (self s))) w = (Inr StatusConfirmed, w)"
    and "\<forall>w. fst (CanOneStepProve env (edge (self s)) w) = Inr False"
  shows "fst (Spawn_loop env (replicate n Tick @ ws) s) \<in> {Despawned, Panicked}"
  using assms
proof (induction n arbitrary: s)
  case (Suc n)
  obtain r s1 where sd: "on_world (ShouldDespawn env (self s)) s = (r, s1)" by (cases "on_world (ShouldDespawn env (self s)) s")
  then have s1: "self s1 = self s" by (auto simp: on_world_def split: prod.splits)
  show ?case
  proof (cases "r = Inr False")
    case True
    then have "state_of s \<noteq> EdgeConfirmed"
      using sd by (auto simp: on_world_def ShouldDespawn_def state_of_def Current_def returnM_def split: prod.splits)
    then have pos: "0 < rank (state_of s1)" using s1 by (cases "state_of s") (auto simp: state_of_def)
    obtain x s2 where act: "Act env s1 = (x, s2)" by (cases "Act env s1")
    show ?thesis
    proof (cases "x = Inl GoPanic")
      case False
      have "rank (state_of s2) < rank (state_of s1) \<and> edge (self s2) = edge (self s1) \<and> tracker_ok (self s2)"
        by (rule Act_rank [OF _ act False]) (use Suc.prems s1 pos in \<open>simp_all add: state_of_def\<close>)
      moreover have "rank (state_of s1) \<le> n" using Suc.prems(2) s1 by (simp add: state_of_def)
      ultimately show ?thesis using Suc.IH [of s2] Suc.prems s1 sd True act False by simp
    qed (use sd True act in simp)
  qed (use sd in \<open>auto split: sum.splits bool.splits\<close>)
qed simp

text \<open>
  Once the edge of a tracker is confirmed on the chain and cannot be one step proven, its loop ends within
  three ticks (unless a call panics), from whichever state it is in.
\<close>

theorem confirmed_edge_stops_tracker:
  assumes "tracker_reach env s"
    and "\<forall>w. Edge_Status env (EdgeId (edge (self s))) w = (Inr StatusConfirmed, w)"
    and "\<forall>w. fst (CanOneStepProve env (edge (self s)) w) = Inr False"
  shows "fst (Spawn_loop env (Tick # Tick # Tick # ws) s) \<in> {Despawned, Panicked}"
proof -
  have "rank (state_of s) < 3" by (cases "state_of s") simp_all
  with Spawn_loop_stops [of s 3 env ws] tracker_reach_ok [OF assms(1)] assms(2,3) show ?thesis
    by (simp add: machine_ok_def numeral_3_eq_3)
qed

subsection \<open>Witnesses\<close>

text \<open>
  An environment whose world says whether edge 7 is confirmed. The edge has a rival and is bisected into
  the edges 8 and 9.
\<close>

definition ex_node :: "nat \<Rightarrow> uint64 \<Rightarrow> uint64 \<Rightarrow> nat Edge" where
  "ex_node i lo hi =
     \<lparr>EdgeId = i, GetChallengeLevel = 0, GetReversedChallengeLevel = 1, StartCommitment = (lo, 0),
      EndCommitment = (hi, 0), CreatedAtBlock = Inr 1, MutualId = i, OriginId = 0, ClaimId = None\<rparr>"

definition ex_history :: "nat History" where
  "ex_history = \<lparr>Height = 2, Merkle = 0, FirstLeaf = 0, LastLeafProof = [], FirstLeafProof = [], LastLeaf = 0\<rparr>"

definition ex_env :: "(bool, nat, unit) Environment" where
  "ex_env =
     \<lparr>Edge_HasConfirmedRival = (\<lambda>_. returnM False), Edge_LowerChild = (\<lambda>_. returnM None),
      Edge_UpperChild = (\<lambda>_. returnM None), Edge_AssertionHash = (\<lambda>_. returnM 0), Edge_HasRival = (\<lambda>_. returnM True),
      Edge_Status = (\<lambda>_. getM (\<lambda>confirmed. if confirmed then StatusConfirmed else StatusPending)),
      Edge_HasLengthOneRival = (\<lambda>_. returnM False), Edge_TopLevelClaimHeight = (\<lambda>_. returnM [0]),
      Edge_GetTotalChallengeLevels = (\<lambda>_ _. 2),
      Edge_Bisect = (\<lambda>_ _ _. returnM (ex_node 8 0 2, ex_node 9 2 4)),
      Edge_ConfirmByTimer = (\<lambda>_ _ _. (Inr (), True)), Edge_ConfirmByClaim = (\<lambda>_ _. failM (ErrMsg ''no'')),
      Edge_ConfirmByChildren = (\<lambda>_. failM (ErrMsg ''no'')), Chain_SpecChallengeManager = returnM (),
      Chain_ReadAssertionCreationInfo = (\<lambda>_. failM (ErrMsg ''no'')), Manager_GetEdge = (\<lambda>_. returnM None),
      Manager_ChallengePeriodBlocks = returnM 100,
      Manager_AddSubChallengeLevelZeroEdge = (\<lambda>_ _ _ _ _ _. failM (ErrMsg ''no'')),
      Manager_ConfirmEdgeByOneStepProof = (\<lambda>_ _ _ _. failM (ErrMsg ''no'')),
      Provider_HistoryCommitment = (\<lambda>_. returnM ex_history), Provider_PrefixProof = (\<lambda>_ _. returnM []),
      Provider_OneStepProofData = (\<lambda>_ _ _ _ _ _. failM (ErrMsg ''no'')),
      Watcher_ConfirmedEdgeWithClaimExists = (\<lambda>_ _ _. None),
      Watcher_ComputeHonestPathTimer = (\<lambda>_ _. returnM (50, [], [])),
      Watcher_HasConfirmableAncestor = (\<lambda>_ _ _. returnM False), Watcher_AddVerifiedHonestEdge = (\<lambda>_. returnM ()),
      IsTrackingEdge = (\<lambda>_ _. False), MarkTrackedEdge = (\<lambda>_ w. w)\<rparr>"

definition ex_meta :: "nat AssociatedAssertionMetadata" where
  "ex_meta = \<lparr>Meta_FromBatch = 0, Meta_ToBatch = 1, Meta_WasmModuleRoot = 0\<rparr>"

definition ex_machine :: "bool \<Rightarrow> (bool, nat) machine" where
  "ex_machine confirmed =
     \<lparr>world = confirmed,
      self = (case Tracker_New (ex_node 7 0 4) ex_meta [] of Inr et \<Rightarrow> et
              | Inl _ \<Rightarrow> \<lparr>edge = ex_node 7 0 4, fsm = empty_fsm, fsmOpts = [], actInterval = 0, tr_validatorName = [],
                          associatedAssertionMetadata = ex_meta\<rparr>),
      spawned = []\<rparr>"

lemma ex_tracker: "\<exists>et. Tracker_New (ex_node 7 0 4) ex_meta [] = Inr et \<and> edge et = ex_node 7 0 4 \<and> fsmOpts et = []"
  by (simp add: Tracker_New_def Let_def newEdgeTrackerFsm_def Fsm_New_def)

lemma ex_machine_reach: "tracker_reach ex_env (ex_machine confirmed)"
proof -
  obtain et where et: "Tracker_New (ex_node 7 0 4) ex_meta [] = Inr et" "fsmOpts et = []" using ex_tracker by blast
  then show ?thesis using start [OF et(1)] by (simp add: ex_machine_def keeps_state_def)
qed

lemma ex_machine_edge: "edge (self (ex_machine confirmed)) = ex_node 7 0 4"
  using ex_tracker by (auto simp: ex_machine_def)

lemma ex_machine_state: "tracker_ok (self (ex_machine confirmed)) \<and> state_of (ex_machine confirmed) = EdgeStarted"
proof -
  obtain et where et: "Tracker_New (ex_node 7 0 4) ex_meta [] = Inr et" "fsmOpts et = []" using ex_tracker by blast
  then show ?thesis using Tracker_New_ok [OF et(1)] by (simp add: ex_machine_def keeps_state_def state_of_def)
qed

lemma ex_no_osp: "CanOneStepProve ex_env (ex_node 7 0 4) w = (Inr False, w)"
  by (simp add: CanOneStepProve_def ex_node_def ex_env_def)


lemma ex_act_confirms:
  "\<exists>s'. Act ex_env (ex_machine True) = (Inr (), s') \<and> state_of s' = EdgeConfirmed"
proof -
  have "tryToConfirm ex_env (ex_node 7 0 4) True = (Inr True, True)"
    by (rule tryToConfirm_confirmed) (simp add: ex_env_def getM_def)
  then have "Act ex_env (ex_machine True) = Do edgeConfirm ((ex_machine True)\<lparr>world := True\<rparr>)"
    using ex_machine_state [of True] ex_no_osp
    by (simp add: Act_def act_started_def state_of_def Current_def bindM_def getM_def tryM_def on_world_def ex_machine_edge)
      (simp add: ex_machine_def)
  moreover obtain s' where "Do edgeConfirm ((ex_machine True)\<lparr>world := True\<rparr>) = (Inr (), s')"
      "moves ((ex_machine True)\<lparr>world := True\<rparr>) s' EdgeConfirmed"
    using Do_allowed [of "(ex_machine True)\<lparr>world := True\<rparr>" edgeConfirm EdgeConfirmed] ex_machine_state [of True] by auto
  ultimately show ?thesis by (auto simp: moves_def)
qed

theorem tracker_confirmed_sound_witness:
  "\<exists>s'. Act ex_env (ex_machine True) = (Inr (), s') \<and> confirmation ex_env (ex_node 7 0 4) (world s')"
  using ex_act_confirms tracker_confirmed_sound [OF ex_machine_reach, of True "Inr ()"] ex_machine_state [of True]
  by (auto simp: ex_machine_edge)

lemma ex_not_confirmed: "tryToConfirm ex_env (ex_node 7 0 4) False = (Inl ErrNotYetConfirmable, False)"
  by (simp add: tryToConfirm_def confirm_by_time_def ChildrenAreConfirmed_def ex_env_def bindM_def tryM_def op_defs
      word_le_nat_alt)

lemma ex_choose_move: "choose_move ex_env et s = Do edgeBisect s"
  by (simp add: choose_move_def ex_env_def on_world_def bindM_def tryM_def returnM_def)

lemma ex_bisecting:
  "\<exists>s1. tracker_reach ex_env s1 \<and> tracker_ok (self s1) \<and> state_of s1 = EdgeBisecting \<and>
     same_tracker (self (ex_machine False)) (self s1)"
proof -
  let ?s = "(ex_machine False)\<lparr>world := False\<rparr>"
  have "world (ex_machine False) = False" by (simp add: ex_machine_def)
  then have "Act ex_env (ex_machine False) = Do edgeBisect ?s"
    using ex_machine_state [of False]
    by (simp add: Act_def act_started_def ex_choose_move state_of_def Current_def bindM_def getM_def tryM_def on_world_def
        ex_machine_edge ex_no_osp ex_not_confirmed)
  moreover obtain s1 where s1: "Do edgeBisect ?s = (Inr (), s1)" "moves ?s s1 EdgeBisecting"
    using Do_allowed [of ?s edgeBisect EdgeBisecting] ex_machine_state [of False] by auto
  ultimately have "tracker_reach ex_env s1" using act [OF ex_machine_reach [of False]] by metis
  with s1(2) show ?thesis by (auto simp: moves_def)
qed

lemma ex_children:
  assumes "same_tracker (self (ex_machine False)) et"
  shows "bisect_edge ex_env et w = (Inr (ex_node 8 0 2, ex_node 9 2 4), w) \<and> (\<exists>tr. child_tracker et e = Inr tr)"
proof -
  have "Bisect 0 4 = Inr 2" by code_simp
  moreover have et: "edge et = ex_node 7 0 4" "actInterval et \<noteq> 0"
    using assms ex_machine_edge [of False] by (auto simp: same_tracker_def ex_machine_def Tracker_New_def newEdgeTrackerFsm_def
        Fsm_New_def Let_def)
  ultimately show ?thesis
    by (simp add: bisect_edge_def DetermineBisectionHistoryWithProof_def ex_env_def ex_node_def bindM_def tryM_def op_defs
        NewBlockChallengeLevel_def child_tracker_def Tracker_New_def newEdgeTrackerFsm_def Fsm_New_def Let_def
        WithActInterval_def WithValidatorName_def WithFSMOpts_def)
qed

lemma ex_act_bisects:
  assumes "tracker_ok (self s1)" "state_of s1 = EdgeBisecting" "same_tracker (self (ex_machine False)) (self s1)"
  shows "\<exists>s'. Act ex_env s1 = (Inr (), s') \<and> state_of s' = EdgeConfirming"
proof -
  obtain t1 t2 where t: "child_tracker (self s1) (ex_node 8 0 2) = Inr t1" "child_tracker (self s1) (ex_node 9 2 4) = Inr t2"
    using ex_children [OF assms(3)] by blast
  let ?s = "s1\<lparr>world := world s1, spawned := spawned s1 @ [t1, t2]\<rparr>"
  have "Act ex_env s1 = Do edgeAwaitConfirmation ?s"
    using assms(2) ex_children [OF assms(3)] t
    by (simp add: Act_def act_bisecting_def state_of_def Current_def bindM_def getM_def tryM_def on_world_def liftM_def go_spawn_def)
  moreover have "state_of ?s = EdgeBisecting" using assms(2) by (simp add: state_of_def)
  ultimately show ?thesis
    using Do_allowed [of ?s edgeAwaitConfirmation EdgeConfirming] assms(1) by (auto simp: moves_def)
qed

theorem tracker_spawns_children_witness:
  "\<exists>s s' tr1 tr2. tracker_reach ex_env s \<and> Act ex_env s = (Inr (), s') \<and> spawned s' = spawned s @ [tr1, tr2] \<and>
     edge tr1 = ex_node 8 0 2 \<and> edge tr2 = ex_node 9 2 4"
proof -
  obtain s1 where s1: "tracker_reach ex_env s1" "tracker_ok (self s1)" "state_of s1 = EdgeBisecting"
    "same_tracker (self (ex_machine False)) (self s1)" using ex_bisecting by blast
  moreover obtain s' where "Act ex_env s1 = (Inr (), s')" "state_of s' = EdgeConfirming"
    using ex_act_bisects [OF s1(2-4)] by blast
  ultimately show ?thesis
    using tracker_spawns_children [OF s1(1)] ex_children [OF s1(4), of "world s1"] by fastforce
qed

theorem confirmed_edge_stops_tracker_witness:
  "fst (Spawn_loop (ex_env\<lparr>Edge_Status := (\<lambda>_. returnM StatusConfirmed)\<rparr>) [Tick, Tick, Tick] (ex_machine True))
     \<in> {Despawned, Panicked}"
proof (rule confirmed_edge_stops_tracker)
  obtain et where et: "Tracker_New (ex_node 7 0 4) ex_meta [] = Inr et" "fsmOpts et = []" using ex_tracker by blast
  then show "tracker_reach (ex_env\<lparr>Edge_Status := (\<lambda>_. returnM StatusConfirmed)\<rparr>) (ex_machine True)"
    using start [OF et(1)] by (simp add: ex_machine_def keeps_state_def)
qed (simp_all add: returnM_def ex_machine_edge CanOneStepProve_def ex_node_def ex_env_def)

end
