(* ===== verification/Evm.thy ===== *)
theory Evm
  imports Bold_Prelude
begin

text \<open>
  Shared vocabulary of the Solidity contracts under \<^verbatim>\<open>contracts/src\<close>: 256-bit integers with checked
  arithmetic, reverts as values, packed encodings as the input of the hash function, and what a
  transaction knows of its environment.

  A function of a contract returns \<open>Inl\<close> the reason of a revert or \<open>Inr\<close> its result; one that changes the
  storage returns the new storage with the result, so a revert undoes everything.
\<close>

subsection \<open>Types\<close>

type_synonym uint256 = "256 word"
type_synonym address = "160 word"
type_synonym bytes = "uint8 list"

text \<open>
  An argument of \<^verbatim>\<open>abi.encodePacked\<close>. The hash function \<^verbatim>\<open>keccak256(abi.encodePacked(...))\<close> is a function of
  such a list; hashes of 32-byte values alone, as the Merkle trees take, are \<open>keccak_of\<close>.
\<close>

datatype 'h packed = Bytes32 'h | Uint8 uint8 | Uint64 uint64 | Uint256 uint256 | Address address | Text string

definition keccak_of :: "('h packed list \<Rightarrow> 'h) \<Rightarrow> 'h list \<Rightarrow> 'h" where
  "keccak_of keccak256 xs = keccak256 (map Bytes32 xs)"

subsection \<open>Reverts\<close>

datatype EdgeStatus_sol = Pending | Confirmed

datatype EdgeType = Block | BigStep | SmallStep

text \<open>
  A custom error is its name with its arguments; besides, there are \<^verbatim>\<open>require\<close> with its message, \<^verbatim>\<open>Panic\<close>
  (checked arithmetic, a failed \<^verbatim>\<open>assert\<close>, an index out of range), an argument that \<^verbatim>\<open>abi.decode\<close> refuses,
  and the revert of a contract that is called.
\<close>

datatype 'h revert = Custom string "'h packed list" | Require string | Panic | AbiDecode | CallReverted string

definition status_code :: "EdgeStatus_sol \<Rightarrow> uint8" where
  "status_code s = (case s of Pending \<Rightarrow> 0 | Confirmed \<Rightarrow> 1)"

text \<open>The errors of \<^verbatim>\<open>ChallengeErrors.sol\<close>.\<close>

abbreviation EdgeNotExists :: "'h \<Rightarrow> 'h revert" where
  "EdgeNotExists x0 \<equiv> Custom ''EdgeNotExists'' [Bytes32 x0]"

abbreviation EdgeAlreadyExists :: "'h \<Rightarrow> 'h revert" where
  "EdgeAlreadyExists x0 \<equiv> Custom ''EdgeAlreadyExists'' [Bytes32 x0]"

abbreviation AssertionHashEmpty :: "'h revert" where
  "AssertionHashEmpty \<equiv> Custom ''AssertionHashEmpty'' []"

abbreviation AssertionHashMismatch :: "'h \<Rightarrow> 'h \<Rightarrow> 'h revert" where
  "AssertionHashMismatch x0 x1 \<equiv> Custom ''AssertionHashMismatch'' [Bytes32 x0, Bytes32 x1]"

abbreviation AssertionNotPending :: "'h revert" where
  "AssertionNotPending \<equiv> Custom ''AssertionNotPending'' []"

abbreviation AssertionNoSibling :: "'h revert" where
  "AssertionNoSibling \<equiv> Custom ''AssertionNoSibling'' []"

abbreviation EmptyEdgeSpecificProof :: "'h revert" where
  "EmptyEdgeSpecificProof \<equiv> Custom ''EmptyEdgeSpecificProof'' []"

abbreviation EmptyStartMachineStatus :: "'h revert" where
  "EmptyStartMachineStatus \<equiv> Custom ''EmptyStartMachineStatus'' []"

abbreviation EmptyEndMachineStatus :: "'h revert" where
  "EmptyEndMachineStatus \<equiv> Custom ''EmptyEndMachineStatus'' []"

abbreviation ClaimEdgeNotPending :: "'h revert" where
  "ClaimEdgeNotPending \<equiv> Custom ''ClaimEdgeNotPending'' []"

abbreviation ClaimEdgeNotLengthOneRival :: "'h \<Rightarrow> 'h revert" where
  "ClaimEdgeNotLengthOneRival x0 \<equiv> Custom ''ClaimEdgeNotLengthOneRival'' [Bytes32 x0]"

abbreviation ClaimEdgeInvalidLevel :: "uint8 \<Rightarrow> uint8 \<Rightarrow> 'h revert" where
  "ClaimEdgeInvalidLevel x0 x1 \<equiv> Custom ''ClaimEdgeInvalidLevel'' [Uint8 x0, Uint8 x1]"

abbreviation NotPowerOfTwo :: "uint256 \<Rightarrow> 'h revert" where
  "NotPowerOfTwo x0 \<equiv> Custom ''NotPowerOfTwo'' [Uint256 x0]"

abbreviation InvalidEndHeight :: "uint256 \<Rightarrow> uint256 \<Rightarrow> 'h revert" where
  "InvalidEndHeight x0 x1 \<equiv> Custom ''InvalidEndHeight'' [Uint256 x0, Uint256 x1]"

abbreviation EmptyPrefixProof :: "'h revert" where
  "EmptyPrefixProof \<equiv> Custom ''EmptyPrefixProof'' []"

abbreviation EdgeTypeNotBlock :: "uint8 \<Rightarrow> 'h revert" where
  "EdgeTypeNotBlock x0 \<equiv> Custom ''EdgeTypeNotBlock'' [Uint8 x0]"

abbreviation EdgeTypeNotSmallStep :: "uint8 \<Rightarrow> 'h revert" where
  "EdgeTypeNotSmallStep x0 \<equiv> Custom ''EdgeTypeNotSmallStep'' [Uint8 x0]"

abbreviation EmptyFirstRival :: "'h revert" where
  "EmptyFirstRival \<equiv> Custom ''EmptyFirstRival'' []"

abbreviation HeightDiffLtTwo :: "uint256 \<Rightarrow> uint256 \<Rightarrow> 'h revert" where
  "HeightDiffLtTwo x0 x1 \<equiv> Custom ''HeightDiffLtTwo'' [Uint256 x0, Uint256 x1]"

abbreviation EdgeNotPending :: "'h \<Rightarrow> EdgeStatus_sol \<Rightarrow> 'h revert" where
  "EdgeNotPending x0 x1 \<equiv> Custom ''EdgeNotPending'' [Bytes32 x0, Uint8 (status_code x1)]"

abbreviation EdgeUnrivaled :: "'h \<Rightarrow> 'h revert" where
  "EdgeUnrivaled x0 \<equiv> Custom ''EdgeUnrivaled'' [Bytes32 x0]"

abbreviation EdgeNotConfirmed :: "'h \<Rightarrow> EdgeStatus_sol \<Rightarrow> 'h revert" where
  "EdgeNotConfirmed x0 x1 \<equiv> Custom ''EdgeNotConfirmed'' [Bytes32 x0, Uint8 (status_code x1)]"

abbreviation EdgeLevelInvalid :: "'h \<Rightarrow> 'h \<Rightarrow> uint8 \<Rightarrow> uint8 \<Rightarrow> 'h revert" where
  "EdgeLevelInvalid x0 x1 x2 x3 \<equiv> Custom ''EdgeLevelInvalid'' [Bytes32 x0, Bytes32 x1, Uint8 x2, Uint8 x3]"

abbreviation EdgeClaimMismatch :: "'h \<Rightarrow> 'h \<Rightarrow> 'h revert" where
  "EdgeClaimMismatch x0 x1 \<equiv> Custom ''EdgeClaimMismatch'' [Bytes32 x0, Bytes32 x1]"

abbreviation OriginIdMutualIdMismatch :: "'h \<Rightarrow> 'h \<Rightarrow> 'h revert" where
  "OriginIdMutualIdMismatch x0 x1 \<equiv> Custom ''OriginIdMutualIdMismatch'' [Bytes32 x0, Bytes32 x1]"

abbreviation EdgeNotAncestor :: "'h \<Rightarrow> 'h \<Rightarrow> 'h \<Rightarrow> 'h \<Rightarrow> 'h \<Rightarrow> 'h revert" where
  "EdgeNotAncestor x0 x1 x2 x3 x4 \<equiv> Custom ''EdgeNotAncestor'' [Bytes32 x0, Bytes32 x1, Bytes32 x2, Bytes32 x3, Bytes32 x4]"

abbreviation InsufficientConfirmationBlocks :: "uint64 \<Rightarrow> uint64 \<Rightarrow> 'h revert" where
  "InsufficientConfirmationBlocks x0 x1 \<equiv> Custom ''InsufficientConfirmationBlocks'' [Uint256 (ucast x0), Uint256 (ucast x1)]"

abbreviation EdgeNotLengthOne :: "uint256 \<Rightarrow> 'h revert" where
  "EdgeNotLengthOne x0 \<equiv> Custom ''EdgeNotLengthOne'' [Uint256 x0]"

abbreviation EmptyOriginId :: "'h revert" where
  "EmptyOriginId \<equiv> Custom ''EmptyOriginId'' []"

abbreviation InvalidHeights :: "uint256 \<Rightarrow> uint256 \<Rightarrow> 'h revert" where
  "InvalidHeights x0 x1 \<equiv> Custom ''InvalidHeights'' [Uint256 x0, Uint256 x1]"

abbreviation EmptyStartRoot :: "'h revert" where
  "EmptyStartRoot \<equiv> Custom ''EmptyStartRoot'' []"

abbreviation EmptyEndRoot :: "'h revert" where
  "EmptyEndRoot \<equiv> Custom ''EmptyEndRoot'' []"

abbreviation EmptyStaker :: "'h revert" where
  "EmptyStaker \<equiv> Custom ''EmptyStaker'' []"

abbreviation EmptyClaimId :: "'h revert" where
  "EmptyClaimId \<equiv> Custom ''EmptyClaimId'' []"

abbreviation ChildrenAlreadySet :: "'h \<Rightarrow> 'h \<Rightarrow> 'h \<Rightarrow> 'h revert" where
  "ChildrenAlreadySet x0 x1 x2 \<equiv> Custom ''ChildrenAlreadySet'' [Bytes32 x0, Bytes32 x1, Bytes32 x2]"

abbreviation EdgeNotLayerZero :: "'h \<Rightarrow> address \<Rightarrow> 'h \<Rightarrow> 'h revert" where
  "EdgeNotLayerZero x0 x1 x2 \<equiv> Custom ''EdgeNotLayerZero'' [Bytes32 x0, Address x1, Bytes32 x2]"

abbreviation EdgeAlreadyRefunded :: "'h \<Rightarrow> 'h revert" where
  "EdgeAlreadyRefunded x0 \<equiv> Custom ''EdgeAlreadyRefunded'' [Bytes32 x0]"

abbreviation EmptyAssertionChain :: "'h revert" where
  "EmptyAssertionChain \<equiv> Custom ''EmptyAssertionChain'' []"

abbreviation EmptyOneStepProofEntry :: "'h revert" where
  "EmptyOneStepProofEntry \<equiv> Custom ''EmptyOneStepProofEntry'' []"

abbreviation EmptyChallengePeriod :: "'h revert" where
  "EmptyChallengePeriod \<equiv> Custom ''EmptyChallengePeriod'' []"

abbreviation EmptyStakeReceiver :: "'h revert" where
  "EmptyStakeReceiver \<equiv> Custom ''EmptyStakeReceiver'' []"

abbreviation RivalEdgeConfirmed :: "'h \<Rightarrow> 'h \<Rightarrow> 'h revert" where
  "RivalEdgeConfirmed x0 x1 \<equiv> Custom ''RivalEdgeConfirmed'' [Bytes32 x0, Bytes32 x1]"

abbreviation ZeroBigStepLevels :: "'h revert" where
  "ZeroBigStepLevels \<equiv> Custom ''ZeroBigStepLevels'' []"

abbreviation BigStepLevelsTooMany :: "uint8 \<Rightarrow> 'h revert" where
  "BigStepLevelsTooMany x0 \<equiv> Custom ''BigStepLevelsTooMany'' [Uint8 x0]"

abbreviation LevelTooHigh :: "uint8 \<Rightarrow> uint8 \<Rightarrow> 'h revert" where
  "LevelTooHigh x0 x1 \<equiv> Custom ''LevelTooHigh'' [Uint8 x0, Uint8 x1]"

definition require :: "bool \<Rightarrow> string \<Rightarrow> 'h revert + unit" where
  "require b msg = (if b then Inr () else Inl (Require msg))"

definition revert_if :: "bool \<Rightarrow> 'h revert \<Rightarrow> 'h revert + unit" where
  "revert_if b e = (if b then Inl e else Inr ())"

lemma require_simps [simp]:
  "require b msg = Inr u \<longleftrightarrow> b" "require True msg = Inr ()" "require False msg = Inl (Require msg)"
  by (simp_all add: require_def)

lemma revert_if_simps [simp]:
  "revert_if b e = Inr u \<longleftrightarrow> \<not> b" "revert_if True e = Inl e" "revert_if False e = Inr ()"
  by (simp_all add: revert_if_def)

subsection \<open>Checked arithmetic\<close>

definition checked_add :: "'w::len word \<Rightarrow> 'w word \<Rightarrow> 'h revert + 'w word" where
  "checked_add a b = (if unat a + unat b < 2 ^ LENGTH('w) then Inr (a + b) else Inl Panic)"

definition checked_sub :: "'w::len word \<Rightarrow> 'w word \<Rightarrow> 'h revert + 'w word" where
  "checked_sub a b = (if b \<le> a then Inr (a - b) else Inl Panic)"

text \<open>\<^verbatim>\<open>2 ** i\<close>\<close>

definition checked_power2 :: "nat \<Rightarrow> 'h revert + uint256" where
  "checked_power2 i = (if i < 256 then Inr (2 ^ i) else Inl Panic)"

lemma checked_add_Inr:
  fixes a b :: "'w::len word"
  shows "checked_add a b = Inr c \<longleftrightarrow> unat a + unat b < 2 ^ LENGTH('w) \<and> c = a + b"
  by (auto simp: checked_add_def)

text \<open>The overflow check without conversions, for evaluation.\<close>

lemma checked_add_code [code]:
  fixes a b :: "'w::len word"
  shows "checked_add a b = (if a \<le> a + b then Inr (a + b) else Inl Panic)"
proof -
  have lt: "unat a < 2 ^ LENGTH('w)" "unat b < 2 ^ LENGTH('w)" by (rule unsigned_less)+
  have "a \<le> a + b \<longleftrightarrow> unat a + unat b < 2 ^ LENGTH('w)"
  proof (cases "unat a + unat b < 2 ^ LENGTH('w)")
    case True
    then show ?thesis by (simp add: word_le_nat_alt unat_word_ariths)
  next
    case False
    have "(unat a + unat b - 2 ^ LENGTH('w)) mod 2 ^ LENGTH('w) = unat a + unat b - 2 ^ LENGTH('w)"
      using lt by (intro mod_less) linarith
    with False have "unat (a + b) = unat a + unat b - 2 ^ LENGTH('w)" by (simp add: unat_word_ariths le_mod_geq)
    then have "unat (a + b) < unat a" using False lt by linarith
    with False show ?thesis by (simp add: word_le_nat_alt)
  qed
  then show ?thesis by (simp add: checked_add_def)
qed

lemma checked_sub_Inr: "checked_sub a b = Inr c \<longleftrightarrow> b \<le> a \<and> c = a - b"
  by (auto simp: checked_sub_def)

lemma unat_checked_add:
  fixes a b :: "'w::len word"
  shows "checked_add a b = Inr c \<Longrightarrow> unat c = unat a + unat b"
  by (simp add: checked_add_Inr unat_word_ariths)

lemma unat_checked_sub: "checked_sub a b = Inr c \<Longrightarrow> unat c = unat a - unat b"
  by (simp add: checked_sub_Inr unat_sub)

subsection \<open>Facts on 256-bit words\<close>

lemma unat_lt256: "unat (x :: uint256) < 2 ^ 256"
  using unsigned_less [of x] by simp

lemma unat_of_nat256: "n < 2 ^ 256 \<Longrightarrow> unat (of_nat n :: uint256) = n"
  by (simp add: unsigned_of_nat take_bit_nat_eq_self)

lemma unat_ucast64 [simp]: "unat (ucast (x :: uint64) :: uint256) = unat x"
  using unat_lt64 [of x] by (simp add: unsigned_ucast_eq take_bit_nat_eq_self)

lemma eq_of_unat256: "unat (x :: uint256) = n \<Longrightarrow> x = of_nat n"
  by auto

end
