(* ===== verification/Sol_Merkle.thy ===== *)
theory Sol_Merkle
  imports Evm Prefix_Correctness Inclusion_Proofs
begin

text \<open>
  The Merkle libraries of the challenge contracts: \<^verbatim>\<open>UintUtilsLib.sol\<close>, \<^verbatim>\<open>ArrayUtilsLib.sol\<close>, \<^verbatim>\<open>MerkleTreeLib.sol\<close>
  and \<^verbatim>\<open>MerkleLib.sol\<close>. They are related to the Go implementation of the same algorithms: the two accept
  the same proofs, except that the contract refuses expansions with trailing zeros. So the contract's
  verifier inherits the soundness of the Go one, and proofs made by the Go code pass the contract.
\<close>

subsection \<open>Bits\<close>

definition msb_step :: "uint256 \<Rightarrow> nat \<Rightarrow> uint256 \<times> uint256 \<Rightarrow> uint256 \<times> uint256" where
  "msb_step bound k = (\<lambda>(x, msb). if x \<ge> bound then (drop_bit k x, msb + of_nat k) else (x, msb))"

definition mostSignificantBit :: "uint256 \<Rightarrow> 'h revert + uint256" where
  "mostSignificantBit x =
     bindR (require (x \<noteq> 0) ''Zero has no significant bits'') (\<lambda>_.
       let s = (x, 0);
           s = msb_step 0x100000000000000000000000000000000 128 s;
           s = msb_step 0x10000000000000000 64 s;
           s = msb_step 0x100000000 32 s;
           s = msb_step 0x10000 16 s;
           s = msb_step 0x100 8 s;
           s = msb_step 0x10 4 s;
           s = msb_step 0x4 2 s;
           (x, msb) = s
       in Inr (if x \<ge> 0x2 then msb + 1 else msb))"

definition leastSignificantBit :: "uint256 \<Rightarrow> 'h revert + uint256" where
  "leastSignificantBit x =
     bindR (require (x > 0) ''Zero has no significant bits'') (\<lambda>_.
       let isolated = ((x - 1) AND x) XOR x in mostSignificantBit isolated)"

subsection \<open>Arrays\<close>

definition array_append :: "'a list \<Rightarrow> 'a \<Rightarrow> 'a list" where
  "array_append arr newItem = arr @ [newItem]"

definition array_slice :: "'a list \<Rightarrow> nat \<Rightarrow> nat \<Rightarrow> 'h revert + 'a list" where
  "array_slice arr startIndex endIndex =
     bindR (require (startIndex < endIndex) ''Start not less than end'') (\<lambda>_.
     bindR (require (endIndex \<le> length arr) ''End not less or equal than length'') (\<lambda>_.
       Inr (map (\<lambda>i. arr ! i) [startIndex..<endIndex])))"

definition array_concat :: "'a list \<Rightarrow> 'a list \<Rightarrow> 'a list" where
  "array_concat arr1 arr2 = arr1 @ arr2"

subsection \<open>Trees\<close>

definition MAX_LEVEL_sol :: nat where
  "MAX_LEVEL_sol = 64"

fun root_loop :: "('h::zero list \<Rightarrow> 'h) \<Rightarrow> 'h \<Rightarrow> 'h list \<Rightarrow> 'h" where
  "root_loop keccak accum [] = accum"
| "root_loop keccak accum (val # rest) =
     root_loop keccak
       (if accum = 0 then
          (if val \<noteq> 0 then
             (if rest \<noteq> [] then keccak [val, 0] else val)
           else accum)
        else if val \<noteq> 0 then keccak [val, accum]
        else keccak [accum, 0]) rest"

definition merkle_root_sol :: "('h::zero list \<Rightarrow> 'h) \<Rightarrow> 'h list \<Rightarrow> 'h revert + 'h" where
  "merkle_root_sol keccak me =
     bindR (require (length me > 0) ''Empty merkle expansion'') (\<lambda>_.
     bindR (require (length me \<le> MAX_LEVEL_sol) ''Merkle expansion too large'') (\<lambda>_.
       Inr (root_loop keccak 0 me)))"

fun treeSize_loop :: "nat \<Rightarrow> uint256 \<Rightarrow> 'h::zero list \<Rightarrow> 'h revert + uint256" where
  "treeSize_loop i acc [] = Inr acc"
| "treeSize_loop i acc (m # me) =
     (if m \<noteq> 0
      then bindR (checked_power2 i) (\<lambda>p. bindR (checked_add acc p) (\<lambda>s. treeSize_loop (Suc i) s me))
      else treeSize_loop (Suc i) acc me)"

definition treeSize :: "'h::zero list \<Rightarrow> 'h revert + uint256" where
  "treeSize me = treeSize_loop 0 0 me"

text \<open>
  The loop of \<^verbatim>\<open>appendCompleteSubTree\<close> from index \<open>i\<close> on: the entries of \<^verbatim>\<open>next\<close> that it writes (or leaves zero)
  and the hash left to propagate.
\<close>

fun appendCompleteSubTree_loop ::
    "('h::zero list \<Rightarrow> 'h) \<Rightarrow> uint256 \<Rightarrow> nat \<Rightarrow> 'h \<Rightarrow> 'h list \<Rightarrow> 'h revert + ('h list \<times> 'h)" where
  "appendCompleteSubTree_loop keccak level i accumHash [] = Inr ([], accumHash)"
| "appendCompleteSubTree_loop keccak level i accumHash (m # me) =
     (if i < unat level then
        bindR (require (m = 0) ''Append above least significant bit'') (\<lambda>_.
        bindR (appendCompleteSubTree_loop keccak level (Suc i) accumHash me) (\<lambda>(next, accum). Inr (0 # next, accum)))
      else if accumHash = 0 then
        bindR (appendCompleteSubTree_loop keccak level (Suc i) accumHash me) (\<lambda>(next, accum). Inr (m # next, accum))
      else if m = 0 then
        bindR (appendCompleteSubTree_loop keccak level (Suc i) 0 me) (\<lambda>(next, accum). Inr (accumHash # next, accum))
      else
        bindR (appendCompleteSubTree_loop keccak level (Suc i) (keccak [m, accumHash]) me)
          (\<lambda>(next, accum). Inr (0 # next, accum)))"

text \<open>The array \<^verbatim>\<open>next\<close> of the given length after the loop and the last change.\<close>

definition fill_last :: "nat \<Rightarrow> 'h::zero list \<Rightarrow> 'h \<Rightarrow> 'h list" where
  "fill_last nextLength written accumHash =
     (let next = written @ replicate (nextLength - length written) 0
      in if accumHash \<noteq> 0 then next[length next - 1 := accumHash] else next)"

definition appendCompleteSubTree ::
    "('h::zero list \<Rightarrow> 'h) \<Rightarrow> 'h list \<Rightarrow> uint256 \<Rightarrow> 'h \<Rightarrow> 'h revert + 'h list" where
  "appendCompleteSubTree keccak me level subtreeRoot =
     bindR (require (unat level < MAX_LEVEL_sol) ''Level too high'') (\<lambda>_.
     bindR (require (subtreeRoot \<noteq> 0) ''Cannot append empty subtree'') (\<lambda>_.
     bindR (require (length me \<le> MAX_LEVEL_sol) ''Merkle expansion too large'') (\<lambda>_.
       if length me = 0 then Inr ((replicate (unat level + 1) 0)[unat level := subtreeRoot])
       else
         bindR (require (unat level < length me) ''Level greater than highest level of current expansion'') (\<lambda>_.
         bindR (treeSize me) (\<lambda>meSize.
         bindR (checked_power2 (unat level)) (\<lambda>p.
         bindR (checked_add meSize p) (\<lambda>postSize.
         bindR (mostSignificantBit postSize) (\<lambda>postMsb.
         bindR (mostSignificantBit meSize) (\<lambda>meMsb.
           let nextLength = (if postMsb > meMsb then length me + 1 else length me) in
           bindR (require (nextLength \<le> MAX_LEVEL_sol) ''Append creates oversize tree'') (\<lambda>_.
           bindR (appendCompleteSubTree_loop keccak level 0 subtreeRoot me) (\<lambda>(written, accumHash).
             let next = fill_last nextLength written accumHash
             in bindR (require (next ! (length next - 1) \<noteq> 0) ''Last entry zero'') (\<lambda>_. Inr next))))))))))))"

definition appendLeaf_sol :: "('h::zero list \<Rightarrow> 'h) \<Rightarrow> 'h list \<Rightarrow> 'h \<Rightarrow> 'h revert + 'h list" where
  "appendLeaf_sol keccak me leaf = appendCompleteSubTree keccak me 0 (keccak [leaf])"

definition maximumAppendBetween :: "uint256 \<Rightarrow> uint256 \<Rightarrow> 'h revert + uint256" where
  "maximumAppendBetween startSize endSize =
     bindR (require (startSize < endSize) ''Start not less than end'') (\<lambda>_.
     bindR (mostSignificantBit (startSize XOR endSize)) (\<lambda>msb.
     bindR (checked_add msb 1) (\<lambda>shift.
     bindR (checked_sub (push_bit (unat shift) 1) 1) (\<lambda>mask'.
       let y = startSize AND mask'; z = endSize AND mask' in
       if y \<noteq> 0 then leastSignificantBit y
       else if z \<noteq> 0 then mostSignificantBit z
       else Inl (Require ''Both y and z cannot be zero'')))))"

subsection \<open>Proofs\<close>

text \<open>
  The loop of \<^verbatim>\<open>verifyPrefixProof\<close>; the proof elements from \<^verbatim>\<open>proofIndex\<close> on are the last argument, and the
  ones that are left over are returned.
\<close>

fun verifyPrefixProof_loop ::
    "('h::zero list \<Rightarrow> 'h) \<Rightarrow> uint256 \<Rightarrow> 'h list \<Rightarrow> uint256 \<Rightarrow> 'h list \<Rightarrow> 'h revert + ('h list \<times> 'h list)" where
  "verifyPrefixProof_loop keccak postSize exp size' pf =
     (if size' < postSize then
        bindR (maximumAppendBetween size' postSize) (\<lambda>level.
          case pf of
            [] \<Rightarrow> Inl (Require ''Index out of range'')
          | p # rest \<Rightarrow>
              bindR (appendCompleteSubTree keccak exp level p) (\<lambda>exp.
                let numLeaves = push_bit (unat level) 1 in
                bindR (checked_add size' numLeaves) (\<lambda>size'.
                  if size' \<le> postSize then verifyPrefixProof_loop keccak postSize exp size' rest
                  else Inl Panic)))
      else Inr (exp, pf))"

declare verifyPrefixProof_loop.simps [simp del]

definition verifyPrefixProof_sol ::
    "('h::zero list \<Rightarrow> 'h) \<Rightarrow> 'h \<Rightarrow> uint256 \<Rightarrow> 'h \<Rightarrow> uint256 \<Rightarrow> 'h list \<Rightarrow> 'h list \<Rightarrow> 'h revert + unit" where
  "verifyPrefixProof_sol keccak preRoot preSize postRoot postSize preExpansion pf =
     bindR (require (preSize > 0) ''Pre-size cannot be 0'') (\<lambda>_.
     bindR (merkle_root_sol keccak preExpansion) (\<lambda>r.
     bindR (require (r = preRoot) ''Pre expansion root mismatch'') (\<lambda>_.
     bindR (treeSize preExpansion) (\<lambda>ts.
     bindR (require (ts = preSize) ''Pre size does not match expansion'') (\<lambda>_.
     bindR (require (preSize < postSize) ''Pre size not less than post size'') (\<lambda>_.
     bindR (array_slice preExpansion 0 (length preExpansion)) (\<lambda>exp.
     bindR (verifyPrefixProof_loop keccak postSize exp preSize pf) (\<lambda>(exp, rest).
     bindR (merkle_root_sol keccak exp) (\<lambda>r.
     bindR (require (r = postRoot) ''Post expansion root not equal post'') (\<lambda>_.
       require (rest = []) ''Incomplete proof usage''))))))))))"

function generateRoot_loop :: "('h list \<Rightarrow> 'h) \<Rightarrow> 'h list \<Rightarrow> 'h revert + 'h" where
  "generateRoot_loop keccak prevLayer =
     (if length prevLayer > 1 then
        generateRoot_loop keccak
          (map (\<lambda>i. if 2 * i + 1 < length prevLayer then keccak [prevLayer ! (2 * i), prevLayer ! (2 * i + 1)]
                    else prevLayer ! (2 * i)) [0..<(length prevLayer + 1) div 2])
      else case prevLayer of [] \<Rightarrow> Inl Panic | h # _ \<Rightarrow> Inr h)"
  by pat_completeness auto
termination
  by (relation "measure (\<lambda>(keccak, prevLayer). length prevLayer)") auto

declare generateRoot_loop.simps [simp del]

definition generateRoot :: "('h list \<Rightarrow> 'h) \<Rightarrow> 'h list \<Rightarrow> 'h revert + 'h" where
  "generateRoot keccak hashes = generateRoot_loop keccak hashes"

fun calculateRoot_loop :: "('h list \<Rightarrow> 'h) \<Rightarrow> uint256 \<Rightarrow> nat \<Rightarrow> 'h \<Rightarrow> 'h list \<Rightarrow> 'h" where
  "calculateRoot_loop keccak route i h [] = h"
| "calculateRoot_loop keccak route i h (node # nodes) =
     calculateRoot_loop keccak route (Suc i)
       (if route AND push_bit i 1 = 0 then keccak [h, node] else keccak [node, h]) nodes"

definition calculateRoot_sol :: "('h list \<Rightarrow> 'h) \<Rightarrow> 'h list \<Rightarrow> uint256 \<Rightarrow> 'h \<Rightarrow> 'h revert + 'h" where
  "calculateRoot_sol keccak nodes route item =
     (if length nodes > 256 then Inl (Custom ''MerkleProofTooLong'' [Uint256 (of_nat (length nodes)), Uint256 256])
      else Inr (calculateRoot_loop keccak route 0 item nodes))"

definition verifyInclusionProof :: "('h list \<Rightarrow> 'h) \<Rightarrow> 'h \<Rightarrow> 'h \<Rightarrow> uint256 \<Rightarrow> 'h list \<Rightarrow> 'h revert + unit" where
  "verifyInclusionProof keccak rootHash leaf index pf =
     bindR (calculateRoot_sol keccak pf index (keccak [leaf])) (\<lambda>calculatedRoot.
       require (rootHash = calculatedRoot) ''Invalid inclusion proof'')"

subsection \<open>The significant bits\<close>

lemma bit_len_div: "bit_len (n div 2 ^ k) = bit_len n - k"
proof (induction k arbitrary: n)
  case (Suc k)
  have "n div 2 ^ Suc k = n div 2 div 2 ^ k" by (simp only: power_Suc div_mult2_eq)
  moreover have "bit_len (n div 2) = bit_len n - 1" by (cases "n = 0") (simp_all add: bit_len_pos)
  ultimately show ?case using Suc [of "n div 2"] by simp
qed simp

lemma msb_step_bit_len:
  fixes x :: uint256
  assumes "0 < unat x" "bit_len (unat x) \<le> 2 * k" "unat b = 2 ^ k"
  obtains x' a' where "msb_step b k (x, of_nat a) = (x', of_nat a')" "0 < unat x'" "bit_len (unat x') \<le> k"
    "a' + bit_len (unat x') = a + bit_len (unat x)"
proof (cases "b \<le> x")
  case True
  then have ge: "2 ^ k \<le> unat x" using assms(3) by (simp add: word_le_nat_alt)
  have d: "unat (drop_bit k x) = unat x div 2 ^ k"
    unfolding unat_drop_bit_eq by (rule drop_bit_eq_div)
  have "k < bit_len (unat x)" using bit_len_less_iff [of "unat x" k] ge by linarith
  moreover have "0 < unat x div 2 ^ k" using ge by (simp add: div_greater_zero_iff)
  ultimately show ?thesis using True assms(2) d
    by (intro that [of "drop_bit k x" "a + k"]) (simp_all add: msb_step_def bit_len_div)
next
  case False
  then have "unat x < 2 ^ k" using assms(3) by (simp add: word_le_nat_alt not_le)
  then have "bit_len (unat x) \<le> k" by (simp add: bit_len_less_iff)
  with False assms(1) show ?thesis by (intro that [of x a]) (simp_all add: msb_step_def)
qed

lemma mostSignificantBit_bit_len:
  assumes "0 < unat x"
  shows "mostSignificantBit x = Inr (of_nat (bit_len (unat x) - 1))"
proof -
  have "bit_len (unat x) \<le> 2 * 128" using unat_lt256 [of x] unfolding bit_len_less_iff by simp
  from msb_step_bit_len [OF assms this, of "0x100000000000000000000000000000000" 0]
  obtain x1 a1 where 1: "msb_step 0x100000000000000000000000000000000 128 (x, 0) = (x1, of_nat a1)"
      "0 < unat x1" "bit_len (unat x1) \<le> 2 * 64" "a1 + bit_len (unat x1) = bit_len (unat x)" by auto
  from msb_step_bit_len [OF 1(2,3), of "0x10000000000000000" a1]
  obtain x2 a2 where 2: "msb_step 0x10000000000000000 64 (x1, of_nat a1) = (x2, of_nat a2)"
      "0 < unat x2" "bit_len (unat x2) \<le> 2 * 32" "a2 + bit_len (unat x2) = bit_len (unat x)" using 1(4) by auto
  from msb_step_bit_len [OF 2(2,3), of "0x100000000" a2]
  obtain x3 a3 where 3: "msb_step 0x100000000 32 (x2, of_nat a2) = (x3, of_nat a3)"
      "0 < unat x3" "bit_len (unat x3) \<le> 2 * 16" "a3 + bit_len (unat x3) = bit_len (unat x)" using 2(4) by auto
  from msb_step_bit_len [OF 3(2,3), of "0x10000" a3]
  obtain x4 a4 where 4: "msb_step 0x10000 16 (x3, of_nat a3) = (x4, of_nat a4)"
      "0 < unat x4" "bit_len (unat x4) \<le> 2 * 8" "a4 + bit_len (unat x4) = bit_len (unat x)" using 3(4) by auto
  from msb_step_bit_len [OF 4(2,3), of "0x100" a4]
  obtain x5 a5 where 5: "msb_step 0x100 8 (x4, of_nat a4) = (x5, of_nat a5)"
      "0 < unat x5" "bit_len (unat x5) \<le> 2 * 4" "a5 + bit_len (unat x5) = bit_len (unat x)" using 4(4) by auto
  from msb_step_bit_len [OF 5(2,3), of "0x10" a5]
  obtain x6 a6 where 6: "msb_step 0x10 4 (x5, of_nat a5) = (x6, of_nat a6)"
      "0 < unat x6" "bit_len (unat x6) \<le> 2 * 2" "a6 + bit_len (unat x6) = bit_len (unat x)" using 5(4) by auto
  from msb_step_bit_len [OF 6(2,3), of "0x4" a6]
  obtain x7 a7 where 7: "msb_step 0x4 2 (x6, of_nat a6) = (x7, of_nat a7)"
      "0 < unat x7" "bit_len (unat x7) \<le> 2" "a7 + bit_len (unat x7) = bit_len (unat x)" using 6(4) by auto
  have last: "(if x7 \<ge> 0x2 then a7 + 1 else a7) = bit_len (unat x) - 1"
    using 7(2-4) bit_len_less_iff [of "unat x7" 1] bit_len_pos [of "unat x7"] by (auto simp: word_le_nat_alt)
  have "x \<noteq> 0" using assms by auto
  then show ?thesis
    using 1(1) 2(1) 3(1) 4(1) 5(1) 6(1) 7(1) last [symmetric] by (simp add: mostSignificantBit_def Let_def)
qed

lemma isolate_lowest_bit: "0 < n \<Longrightarrow> ((n - 1) AND n) XOR n = (2 :: nat) ^ low_zeros n"
proof (induction n rule: low_zeros.induct)
  case (1 n)
  show ?case
  proof (cases "odd n")
    case True
    then obtain m where n: "n = 2 * m + 1" by (auto elim: oddE)
    have "(n - 1) AND n = 2 * m" unfolding n by (subst and_rec) simp
    moreover have "2 * m XOR n = 1" unfolding n by (subst xor_rec) simp
    ultimately show ?thesis using True by (simp add: low_zeros.simps [of n])
  next
    case False
    then obtain m where n: "n = 2 * m" by (auto elim: evenE)
    have "0 < m" using "1.prems" n by simp
    then have half: "(2 * m - Suc 0) div 2 = m - Suc 0" by linarith
    have "(n - 1) AND n = 2 * ((m - 1) AND m)" unfolding n using half by (subst and_rec) simp
    moreover have "2 * ((m - 1) AND m) XOR 2 * m = 2 * (((m - 1) AND m) XOR m)" by (subst xor_rec) auto
    moreover have "low_zeros n = Suc (low_zeros m)" unfolding n using \<open>0 < m\<close> by (subst low_zeros.simps) simp
    ultimately show ?thesis using "1.IH" False n \<open>0 < m\<close> by simp
  qed
qed

lemma leastSignificantBit_low_zeros:
  assumes "0 < unat x"
  shows "leastSignificantBit x = Inr (of_nat (low_zeros (unat x)))"
proof -
  have "unat (x - 1) = unat x - 1" using assms by (metis unat_0 unat_minus_one neq0_conv)
  then have i: "unat (((x - 1) AND x) XOR x) = 2 ^ low_zeros (unat x)"
    by (simp add: unsigned_xor_eq unsigned_and_eq isolate_lowest_bit [OF assms, simplified])
  then have "bit_len (unat (((x - 1) AND x) XOR x)) = Suc (low_zeros (unat x))" by (simp add: bit_len_eqI)
  with i mostSignificantBit_bit_len [of "((x - 1) AND x) XOR x"] assms show ?thesis
    by (simp add: leastSignificantBit_def word_less_nat_alt)
qed

subsection \<open>Levels to append\<close>

lemma unat_and_low_mask256: "unat (x AND (push_bit m 1 - 1) :: uint256) = unat x mod 2 ^ m"
proof -
  have "x AND (push_bit m 1 - 1) = take_bit m x"
    by (simp add: take_bit_eq_mask mask_eq_exp_minus_1)
  then show ?thesis by (simp only: unsigned_take_bit_eq take_bit_nat_def)
qed

lemma unat_shift1_256: "l < 256 \<Longrightarrow> unat (push_bit l 1 :: uint256) = 2 ^ l"
  using unat_of_nat256 [of "2 ^ l"] power_strict_increasing_iff [of "2::nat" l 256] by simp

lemma maximumAppendBetween_level:
  fixes s e :: uint256
  assumes l: "append_level (unat s) (unat e) l" and e64: "unat e < 2 ^ 64"
  shows "maximumAppendBetween s e = (Inr (of_nat l) :: 'h revert + uint256)"
proof -
  have lt: "unat s < unat e" using append_level_less [OF l] .
  define m where "m = bit_len (unat s XOR unat e) - 1"
  obtain c r t where s: "unat s = c * 2 ^ Suc m + r" and e: "unat e = c * 2 ^ Suc m + 2 ^ m + t"
    and rt: "r < 2 ^ m" "t < 2 ^ m"
    using highest_differing_bit [OF lt m_def] by blast
  have x: "unat (s XOR e) = unat s XOR unat e" by (simp add: unsigned_xor_eq)
  have "(2::nat) ^ m < 2 ^ 64" using e e64 by linarith
  then have m64: "m < 64" by (simp only: power_strict_increasing_iff)
  have "s \<noteq> e" using lt by auto
  then have "s XOR e \<noteq> 0" by (auto simp: bit_eq_iff bit_simps intro!: bit_word_eqI)
  then have "0 < unat (s XOR e)" by (metis gr0I unat_eq_0)
  from mostSignificantBit_bit_len [OF this]
  have msb: "mostSignificantBit (s XOR e) = (Inr (of_nat m) :: 'h revert + uint256)" unfolding x m_def .
  have "unat (of_nat m :: uint256) = m" using m64 by (intro unat_of_nat256) simp
  moreover have m1: "unat (of_nat m + 1 :: uint256) = Suc m"
    using unat_of_nat256 [of "Suc m"] m64 by (simp add: add.commute)
  ultimately have add: "checked_add (of_nat m :: uint256) 1 = (Inr (of_nat m + 1) :: 'h revert + uint256)"
    using m64 by (simp add: checked_add_def)
  define msk :: uint256 where "msk = push_bit (Suc m) 1 - 1"
  have sub: "checked_sub (push_bit (Suc m) 1 :: uint256) 1 = (Inr msk :: 'h revert + uint256)"
    using unat_shift1_256 [of "Suc m"] m64
    by (simp add: checked_sub_def word_le_nat_alt msk_def del: push_bit_of_1 push_bit_Suc)
  have y: "unat (s AND msk) = r" unfolding msk_def unat_and_low_mask256 s using rt by simp
  have e': "unat e = c * 2 ^ Suc m + (2 ^ m + t)" using e by simp
  have z: "unat (e AND msk) = 2 ^ m + t"
    unfolding msk_def unat_and_low_mask256 e' mod_mult_self3 using rt by simp
  have start: "maximumAppendBetween s e =
      (if s AND msk \<noteq> 0 then leastSignificantBit (s AND msk) else if e AND msk \<noteq> 0 then mostSignificantBit (e AND msk)
       else (Inl (Require ''Both y and z cannot be zero'') :: 'h revert + uint256))"
    using lt by (simp only: maximumAppendBetween_def word_less_nat_alt msb add m1 sub Let_def bindR_simps require_simps)
  show ?thesis
  proof (cases "r = 0")
    case True
    have "append_level (unat s) (unat e) m" using True rt s e by (intro append_level_high) auto
    then have "l = m" by (rule append_level_unique [OF l])
    moreover have "bit_len (2 ^ m + t) = Suc m" using rt by (intro bit_len_eqI) auto
    moreover have "s AND msk = 0" "e AND msk \<noteq> 0" using y z True by (auto simp: unat_eq_0)
    ultimately show ?thesis using start mostSignificantBit_bit_len [of "e AND msk"] z by simp
  next
    case False
    have "append_level (unat s) (unat e) (low_zeros r)" using False by (intro append_level_low [OF s e _ rt]) simp
    then have "l = low_zeros r" by (rule append_level_unique [OF l])
    moreover have "s AND msk \<noteq> 0" using y False by auto
    ultimately show ?thesis using start leastSignificantBit_low_zeros [of "s AND msk"] y False by simp
  qed
qed

subsection \<open>Sizes and roots\<close>

lemma treeSize_loop_tree_size:
  assumes "i + length me \<le> 64" "unat acc + 2 ^ i * tree_size me < bound" "bound = 2 ^ 256"
  shows "treeSize_loop i acc me = (Inr (acc + of_nat (2 ^ i * tree_size me)) :: 'h::zero revert + uint256)"
  using assms(1,2)
proof (induction me arbitrary: i acc)
  case (Cons m me)
  have double: "2 ^ i * (2 * n) = 2 ^ Suc i * n" for n :: nat by simp
  show ?case
  proof (cases "m = 0")
    case True
    then show ?thesis using Cons.IH [of "Suc i" acc] Cons.prems by (simp add: double)
  next
    case False
    then have ts: "2 ^ i * tree_size (m # me) = 2 ^ i + 2 ^ Suc i * tree_size me" by (simp add: distrib_left)
    have "unat (2 ^ i :: uint256) = 2 ^ i" using unat_shift1_256 [of i] Cons.prems(1) by simp
    moreover have "unat acc + 2 ^ i < 2 ^ 256" using Cons.prems(2) ts assms(3) by linarith
    ultimately have p: "checked_add acc (2 ^ i) = (Inr (acc + 2 ^ i) :: 'h revert + uint256)" "unat (acc + 2 ^ i) = unat acc + 2 ^ i"
      by (simp_all add: checked_add_def unat_word_ariths)
    moreover have "unat (acc + 2 ^ i) + 2 ^ Suc i * tree_size me < bound" using Cons.prems(2) ts p(2) by linarith
    ultimately have "treeSize_loop (Suc i) (acc + 2 ^ i) me =
        (Inr (acc + 2 ^ i + of_nat (2 ^ Suc i * tree_size me)) :: 'h revert + uint256)"
      using Cons.IH [of "Suc i" "acc + 2 ^ i"] Cons.prems(1) by simp
    moreover have "acc + of_nat (2 ^ i * tree_size (m # me)) = acc + 2 ^ i + of_nat (2 ^ Suc i * tree_size me)"
      unfolding ts by simp
    ultimately show ?thesis using False Cons.prems(1) p(1) by (simp add: checked_power2_def)
  qed
qed simp

lemma tree_size_less_64: "length me \<le> 64 \<Longrightarrow> tree_size me < 2 ^ 64"
proof -
  assume "length me \<le> 64"
  then have "(2::nat) ^ length me \<le> 2 ^ 64" by (simp only: power_increasing)
  with tree_size_less [of me] show ?thesis by linarith
qed

lemma treeSize_eq: "length me \<le> 64 \<Longrightarrow> treeSize me = Inr (of_nat (tree_size me))"
  using treeSize_loop_tree_size [of 0 me 0 "2 ^ 256"] tree_size_less_64 [of me] by (simp add: treeSize_def)

lemma root_loop_eq: "root_loop keccak accum me = Root_loop keccak accum me"
  by (induction keccak accum me rule: root_loop.induct) simp_all

lemma merkle_root_sol_eq: "merkle_root_sol keccak me = Inr r \<longleftrightarrow> Root keccak me = Inr r"
  by (auto simp: merkle_root_sol_def Root_def root_loop_eq MAX_LEVEL_sol_def MAX_LEVEL_def bindR_eq_Inr)

lemma bit_len_tree_size: "me \<noteq> [] \<Longrightarrow> last me \<noteq> 0 \<Longrightarrow> bit_len (tree_size me) = length me"
proof (induction me)
  case (Cons m me)
  show ?case
  proof (cases "me = []")
    case False
    then have "0 < tree_size me" using Cons.prems tree_size_pos by auto
    then have "bit_len (of_bool (m \<noteq> 0) + 2 * tree_size me) = Suc (bit_len (tree_size me))"
      by (subst bit_len_pos) auto
    with Cons False show ?thesis by simp
  qed (use Cons in \<open>simp add: bit_len_pos\<close>)
qed simp

subsection \<open>Appending agrees with the Go code\<close>

lemma append_loop_eq:
  "appendCompleteSubTree_loop keccak level i a me = Inr x \<longleftrightarrow> Append_loop keccak (unat level) i a me = Inr x"
proof (induction me arbitrary: i a x)
  case (Cons m me)
  have "bindR (appendCompleteSubTree_loop keccak level j b me) (\<lambda>(nx, c). Inr (y # nx, c)) = Inr x \<longleftrightarrow>
      bindR (Append_loop keccak (unat level) j b me) (\<lambda>(nx, c). Inr (y # nx, c)) = Inr x" for j b y
    by (simp add: bindR_eq_Inr Cons.IH)
  then show ?case by (auto simp: bindR_eq_Inr [of "require _ _"])
qed simp

lemma Append_loop_length: "Append_loop keccak level i a me = Inr (nx, a') \<Longrightarrow> length nx = length me"
  by (induction me arbitrary: i a nx) (auto simp: bindR_eq_Inr split: if_splits)

lemma last_carry: "never_zero keccak \<Longrightarrow> a \<noteq> 0 \<Longrightarrow> ms \<noteq> [] \<Longrightarrow> last ms \<noteq> 0 \<Longrightarrow> last (carry keccak a ms) \<noteq> 0"
proof (induction ms arbitrary: a)
  case (Cons m ms)
  have "carry keccak b ms \<noteq> []" for b by (cases ms) auto
  with Cons show ?case by (cases "ms = []") auto
qed simp

lemma length_carry_last_zero: "ms \<noteq> [] \<Longrightarrow> last ms = 0 \<Longrightarrow> length (carry keccak a ms) = length ms"
  by (induction ms arbitrary: a) (auto split: if_splits)

lemma bit_len_tree_size_last_zero: "me \<noteq> [] \<Longrightarrow> last me = 0 \<Longrightarrow> bit_len (tree_size me) < length me"
proof -
  assume "me \<noteq> []" "last me = 0"
  then obtain xs where me: "me = xs @ replicate 1 0" by (metis append_butlast_last_id replicate_0 replicate_Suc One_nat_def)
  have "bit_len (tree_size xs) \<le> length xs" unfolding bit_len_less_iff by (rule tree_size_less)
  then show ?thesis unfolding me tree_size_append_zeros by simp
qed

lemma appendCompleteSubTree_Inr:
  assumes me: "me \<noteq> []" "length me \<le> 64" and l: "l < 64"
  defines "n \<equiv> (if bit_len (tree_size me) < bit_len (tree_size me + 2 ^ l) then length me + 1 else length me)"
  shows "appendCompleteSubTree keccak me (of_nat l) r = Inr me' \<longleftrightarrow>
    r \<noteq> 0 \<and> l < length me \<and> 0 < tree_size me \<and> n \<le> 64 \<and>
    (\<exists>nx a. Append_loop keccak l 0 r me = Inr (nx, a) \<and> me' = fill_last n nx a \<and> me' ! (length me' - 1) \<noteq> 0)"
proof -
  define ts where "ts = tree_size me"
  have ul: "unat (of_nat l :: uint256) = l" using l by (intro unat_of_nat256) simp
  have ts: "ts < 2 ^ 64" unfolding ts_def using me(2) by (rule tree_size_less_64)
  have p: "unat (2 ^ l :: uint256) = 2 ^ l" using unat_shift1_256 [of l] l by simp
  have l64: "(2::nat) ^ l < 2 ^ 64" using l by (simp only: power_strict_increasing_iff)
  have uts: "unat (of_nat ts :: uint256) = ts" using ts by (intro unat_of_nat256) simp
  have post: "unat (of_nat ts + 2 ^ l :: uint256) = ts + 2 ^ l"
    using ts l64 uts p by (simp add: unat_word_ariths)
  have add: "checked_add (of_nat ts) (2 ^ l) = (Inr (of_nat ts + 2 ^ l) :: 'a revert + uint256)"
    using ts l64 uts p by (simp add: checked_add_def)
  have p2: "checked_power2 l = (Inr (2 ^ l) :: 'a revert + uint256)" using l by (simp add: checked_power2_def)
  have "0 < (2::nat) ^ l" by simp
  then have pos: "0 < unat (of_nat ts + 2 ^ l :: uint256)" unfolding post by linarith
  have msb0: "mostSignificantBit (of_nat ts :: uint256) = (Inl (Require ''Zero has no significant bits'') :: 'a revert + uint256)"
    if "ts = 0" using that by (simp add: mostSignificantBit_def)
  have bl: "bit_len (ts + 2 ^ l) < 2 ^ 256" "bit_len ts < 2 ^ 256"
  proof -
    have "ts + 2 ^ l < 2 ^ 65" using ts l64 by simp
    then have "bit_len (ts + 2 ^ l) \<le> 65" by (simp only: bit_len_less_iff)
    moreover have "bit_len ts \<le> 64" using ts by (simp only: bit_len_less_iff)
    ultimately show "bit_len (ts + 2 ^ l) < 2 ^ 256" "bit_len ts < 2 ^ 256" by simp_all
  qed
  have cmp: "(of_nat (bit_len ts - 1) :: uint256) < of_nat (bit_len (ts + 2 ^ l) - 1) \<longleftrightarrow> bit_len ts < bit_len (ts + 2 ^ l)"
    if "0 < ts"
  proof -
    have "0 < bit_len ts" using that by (simp add: bit_len_pos)
    moreover have "bit_len ts - 1 < 2 ^ 256" "bit_len (ts + 2 ^ l) - 1 < 2 ^ 256" using bl by linarith+
    ultimately show ?thesis unfolding word_less_nat_alt by (simp only: unat_of_nat256) linarith
  qed
  have tsz: "treeSize me = Inr (of_nat ts)" unfolding ts_def using me(2) by (rule treeSize_eq)
  show ?thesis
  proof (cases "ts = 0")
    case True
    then show ?thesis using me msb0 by (auto simp: appendCompleteSubTree_def tsz bindR_eq_Inr ts_def [symmetric])
  next
    case False
    then have msb: "mostSignificantBit (of_nat ts) = (Inr (of_nat (bit_len ts - 1)) :: 'a revert + uint256)"
      "mostSignificantBit (of_nat ts + 2 ^ l) = (Inr (of_nat (bit_len (ts + 2 ^ l) - 1)) :: 'a revert + uint256)"
      using mostSignificantBit_bit_len [of "of_nat ts"] mostSignificantBit_bit_len [OF pos] uts post by simp_all
    have c: "(of_nat (bit_len ts - 1) :: uint256) < of_nat (bit_len (ts + 2 ^ l) - 1) \<longleftrightarrow> bit_len ts < bit_len (ts + 2 ^ l)"
      using False cmp by simp
    have sol: "appendCompleteSubTree keccak me (of_nat l) r = Inr me' \<longleftrightarrow>
        r \<noteq> 0 \<and> l < length me \<and> n \<le> 64 \<and>
        (\<exists>nx a. appendCompleteSubTree_loop keccak (of_nat l) 0 r me = Inr (nx, a) \<and>
           me' = fill_last n nx a \<and> me' ! (length me' - 1) \<noteq> 0)"
      unfolding appendCompleteSubTree_def tsz ul bindR_simps p2 add msb c MAX_LEVEL_sol_def Let_def n_def ts_def [symmetric]
      using me l by (cases "appendCompleteSubTree_loop keccak (of_nat l) 0 r me") (auto simp: bindR_eq_Inr)
    then show ?thesis unfolding append_loop_eq ul ts_def [symmetric] using False by simp
  qed
qed

text \<open>
  On an expansion with a nonzero last entry the contract appends as the Go code does; it refuses all
  others, and what it returns ends in a nonzero entry again.
\<close>

lemma fill_last_agrees:
  fixes me :: "'h::zero list"
  assumes k: "never_zero keccak" and r: "r \<noteq> 0" and loop: "Append_loop keccak l 0 r me = Inr (nx, a)"
    and me: "me = replicate l 0 @ ms" "ms \<noteq> []"
  defines "n \<equiv> (if bit_len (tree_size me) < bit_len (tree_size me + 2 ^ l) then length me + 1 else length me)"
  shows "last me \<noteq> 0 \<Longrightarrow> fill_last n nx a = replicate l 0 @ carry keccak r ms \<and> length (fill_last n nx a) = n \<and>
      last (fill_last n nx a) \<noteq> 0"
    and "last me = 0 \<Longrightarrow> last (fill_last n nx a) = 0"
proof -
  let ?M = "replicate l 0 @ carry keccak r ms"
  have M: "(if a \<noteq> 0 then nx @ [a] else nx) = ?M"
  proof -
    obtain nx' a' where "Append_loop keccak l 0 r me = Inr (nx', a')" "(if a' \<noteq> 0 then nx' @ [a'] else nx') = ?M"
      unfolding me(1) by (rule Append_loop_level [OF k r, of l 0 l ms]) simp
    with loop show ?thesis by (metis Inr_inject Pair_inject)
  qed
  have nx: "length nx = length me" using loop by (rule Append_loop_length)
  have lm: "last me = last ms" "me \<noteq> []" using me by auto
  have cne: "carry keccak r ms \<noteq> []" by (cases ms) auto
  have ts: "tree_size ?M = tree_size me + 2 ^ l"
    unfolding me(1) tree_size_zeros_append tree_size_carry [OF k r] by simp
  show "fill_last n nx a = ?M \<and> length (fill_last n nx a) = n \<and> last (fill_last n nx a) \<noteq> 0" if "last me \<noteq> 0"
  proof -
    have lM: "last ?M \<noteq> 0" using last_carry [OF k r me(2)] that lm(1) cne by simp
    have "bit_len (tree_size me) = length me" using lm(2) that by (rule bit_len_tree_size)
    moreover have "bit_len (tree_size me + 2 ^ l) = length ?M" using bit_len_tree_size [of ?M] lM cne ts by simp
    moreover have lenM: "length ?M = (if a \<noteq> 0 then length me + 1 else length me)" using M nx by (metis length_append_singleton Suc_eq_plus1)
    ultimately have n: "n = (if a \<noteq> 0 then length me + 1 else length me)" by (simp add: n_def)
    then have "fill_last n nx a = (if a \<noteq> 0 then nx @ [a] else nx)"
      using nx by (simp add: fill_last_def Let_def list_update_append)
    then have "fill_last n nx a = ?M" using M by simp
    moreover have "length ?M = n" using lenM n by simp
    ultimately show ?thesis using lM by (simp only: simp_thms)
  qed
  show "last (fill_last n nx a) = 0" if "last me = 0"
  proof -
    have "length ?M = length me" using length_carry_last_zero [OF me(2)] that lm(1) me(1) by simp
    then have "length (if a \<noteq> 0 then nx @ [a] else nx) = length nx" unfolding M nx .
    then have a: "a = 0" by (simp split: if_splits)
    with M have "nx = ?M" by simp
    note a = a this
    have "bit_len (tree_size me) < length me" using lm(2) that by (rule bit_len_tree_size_last_zero)
    moreover have "last nx \<noteq> 0 \<longrightarrow> bit_len (tree_size me + 2 ^ l) = length me"
      using bit_len_tree_size [of ?M] cne ts \<open>length ?M = length me\<close> a by simp
    ultimately show ?thesis using a(1) nx lm(2) by (auto simp: fill_last_def n_def last_conv_nth)
  qed
qed

lemma appendCompleteSubTree_agrees:
  assumes k: "never_zero keccak" and l: "l < 64" and me: "me \<noteq> []" "length me \<le> 64"
  shows "appendCompleteSubTree keccak me (of_nat l) r = Inr me' \<longleftrightarrow>
    AppendCompleteSubTree keccak me (of_nat l) r = Inr me' \<and> last me \<noteq> 0"
proof -
  define n where "n = (if bit_len (tree_size me) < bit_len (tree_size me + 2 ^ l) then length me + 1 else length me)"
  have ul: "unat (of_nat l :: uint64) = l" using l by (simp add: unat_of_nat64)
  have ne: "fill_last n nx a \<noteq> []" if "length nx = length me" for nx and a :: 'a
    using me(1) that by (simp add: fill_last_def Let_def) auto
  show ?thesis
  proof (cases "r \<noteq> 0 \<and> l < length me \<and> (\<exists>nx a. Append_loop keccak l 0 r me = Inr (nx, a))")
    case False
    then show ?thesis
      unfolding appendCompleteSubTree_Inr [OF me l]
      using me ul by (auto simp: AppendCompleteSubTree_def MAX_LEVEL_def Let_def bindR_eq_Inr split: if_splits)
  next
    case True
    then obtain nx a where r: "r \<noteq> 0" "l < length me" and loop: "Append_loop keccak l 0 r me = Inr (nx, a)" by blast
    define ms where "ms = drop l me"
    have "take l me = replicate l 0" using Append_loop_zeros [OF loop] r by simp
    then have me_eq: "me = replicate l 0 @ ms" unfolding ms_def by (metis append_take_drop_id)
    have ms: "ms \<noteq> []" using r(2) by (simp add: ms_def)
    note A = fill_last_agrees [OF k r(1) loop me_eq ms, folded n_def]
    have nx: "length nx = length me" using loop by (rule Append_loop_length)
    obtain nx' a' where "Append_loop keccak l 0 r me = Inr (nx', a')"
      "(if a' \<noteq> 0 then nx' @ [a'] else nx') = replicate l 0 @ carry keccak r ms"
      unfolding me_eq by (rule Append_loop_level [OF k r(1), of l 0 l ms]) simp
    then have go: "AppendCompleteSubTree keccak me (of_nat l) r = Inr me' \<longleftrightarrow>
        me' = replicate l 0 @ carry keccak r ms \<and> length me' \<le> 64"
      using me ul r loop by (auto simp: AppendCompleteSubTree_def MAX_LEVEL_def Let_def)
    have sol: "appendCompleteSubTree keccak me (of_nat l) r = Inr me' \<longleftrightarrow>
        0 < tree_size me \<and> n \<le> 64 \<and> me' = fill_last n nx a \<and> last me' \<noteq> 0"
      unfolding appendCompleteSubTree_Inr [OF me l, folded n_def] using r loop ne [OF nx] by (auto simp: last_conv_nth)
    show ?thesis
    proof (cases "last me = 0")
      case True
      then show ?thesis unfolding sol using A(2) by auto
    next
      case False
      then show ?thesis unfolding sol go using A(1) tree_size_pos [OF me(1)] by auto
    qed
  qed
qed

lemma AppendCompleteSubTree_last:
  assumes k: "never_zero keccak" and l: "l < 64" and me: "me \<noteq> []" "last me \<noteq> 0"
    and app: "AppendCompleteSubTree keccak me (of_nat l) r = Inr me'"
  shows "last me' \<noteq> 0"
proof -
  obtain ms where ms: "r \<noteq> 0" "me = replicate l 0 @ ms" "me' = replicate l 0 @ carry keccak r ms"
    using AppendCompleteSubTree_success [OF k l me(1) app] by blast
  have "ms \<noteq> []"
  proof
    assume "ms = []"
    then have "last me = 0" using ms(2) me(1) by (cases l) auto
    with me(2) show False by simp
  qed
  moreover from this have "last ms \<noteq> 0" using ms(2) me(2) by simp
  moreover have "carry keccak r ms \<noteq> []" by (cases ms) auto
  ultimately show ?thesis using last_carry [OF k ms(1)] ms(3) by simp
qed

subsection \<open>Prefix proofs agree with the Go code\<close>

lemma verifyPrefixProof_loop_unfold:
  fixes s e :: uint64
  assumes l: "append_level (unat s) (unat e) l" and exp: "exp \<noteq> []" "length exp \<le> 64"
  shows "verifyPrefixProof_loop keccak (ucast e) exp (ucast s) pf =
     (case pf of [] \<Rightarrow> Inl (Require ''Index out of range'')
      | p # rest \<Rightarrow> bindR (appendCompleteSubTree keccak exp (of_nat l) p) (\<lambda>exp'.
          verifyPrefixProof_loop keccak (ucast e) exp' (ucast (s + push_bit l 1)) rest))"
proof -
  have lt: "ucast s < (ucast e :: uint256)" using append_level_less [OF l] by (simp add: word_less_nat_alt)
  have l64: "l < 64" by (rule append_level_lt [OF l])
  have lev: "maximumAppendBetween (ucast s) (ucast e) = (Inr (of_nat l) :: 'a revert + uint256)"
    using maximumAppendBetween_level [of "ucast s" "ucast e" l] l unat_lt64 [of e] by simp
  have ul: "unat (of_nat l :: uint256) = l" using l64 by (intro unat_of_nat256) simp
  note step = append_level_step [OF l]
  have p: "unat (push_bit l 1 :: uint256) = 2 ^ l" using l64 by (intro unat_shift1_256) simp
  have "unat s + 2 ^ l < 2 ^ 64" using step(2) unat_lt64 [of e] by linarith
  then have "unat (ucast s + push_bit l 1 :: uint256) = unat s + 2 ^ l"
    using p by (simp add: unat_word_ariths del: push_bit_of_1)
  moreover have "unat (ucast (s + push_bit l 1) :: uint256) = unat s + 2 ^ l" unfolding unat_ucast64 step(1) ..
  ultimately have "(ucast s + push_bit l 1 :: uint256) = ucast (s + push_bit l 1)" by (metis eq_of_unat256)
  moreover have "unat (ucast s :: uint256) + unat (push_bit l 1 :: uint256) < 2 ^ LENGTH(256)"
    unfolding p unat_ucast64 using step(2) unat_lt64 [of e] by simp
  ultimately have add: "checked_add (ucast s) (push_bit l 1 :: uint256) =
      (Inr (ucast (s + push_bit l 1)) :: 'a revert + uint256)"
    by (simp add: checked_add_def del: push_bit_of_1)
  have le: "(ucast (s + push_bit l 1) :: uint256) \<le> ucast e"
    unfolding word_le_nat_alt unat_ucast64 step(1) by (rule step(2))
  show ?thesis
    by (subst verifyPrefixProof_loop.simps)
      (simp add: lt lev ul add le Let_def del: push_bit_of_1 split: list.split)
qed

lemma verifyPrefixProof_loop_end: "verifyPrefixProof_loop keccak e exp e pf = Inr (exp, pf)"
  by (subst verifyPrefixProof_loop.simps) simp

lemma Verify_loop_end: "Verify_loop keccak pp e exp e i = Inr (exp, i)"
  by (subst Verify_loop.simps) simp

lemma verify_loops_agree:
  assumes k: "never_zero keccak" and "exp \<noteq> []" "length exp \<le> 64" "last exp \<noteq> 0" "s \<le> e" "i \<le> length pp"
  shows "verifyPrefixProof_loop keccak (ucast e) exp (ucast s) (drop i pp) = Inr (exp', drop j pp) \<and> j \<le> length pp \<longleftrightarrow>
    Verify_loop keccak pp e exp s i = Inr (exp', j) \<and> j \<le> length pp"
  using assms(2-)
proof (induction "unat e - unat s" arbitrary: s exp i rule: less_induct)
  case less
  show ?case
  proof (cases "s = e")
    case True
    then show ?thesis using less.prems by (auto simp: verifyPrefixProof_loop_end Verify_loop_end dest: arg_cong [where f = length])
  next
    case False
    then have "s < e" using less.prems(4) by simp
    then obtain l where l: "append_level (unat s) (unat e) l" by (rule append_level_exists)
    have l64: "l < 64" by (rule append_level_lt [OF l])
    have s': "unat (s + push_bit l 1) = unat s + 2 ^ l" "unat s + 2 ^ l \<le> unat e" by (fact append_level_step [OF l])+
    have "0 < (2::nat) ^ l" by simp
    then have meas: "unat e - unat (s + push_bit l 1) < unat e - unat s" using s' by linarith
    have le: "s + push_bit l 1 \<le> e" unfolding word_le_nat_alt s'(1) by (rule s'(2))
    show ?thesis
    proof (cases "i < length pp")
      case True
      then have d: "drop i pp = pp ! i # drop (Suc i) pp" by (simp add: Cons_nth_drop_Suc)
      have app: "appendCompleteSubTree keccak exp (of_nat l) (pp ! i) = Inr m \<longleftrightarrow>
          AppendCompleteSubTree keccak exp (of_nat l) (pp ! i) = Inr m" for m
        using appendCompleteSubTree_agrees [OF k l64 less.prems(1,2)] less.prems(3) by simp
      have IH: "verifyPrefixProof_loop keccak (ucast e) m (ucast (s + push_bit l 1)) (drop (Suc i) pp) = Inr (exp', drop j pp) \<and>
            j \<le> length pp \<longleftrightarrow> Verify_loop keccak pp e m (s + push_bit l 1) (Suc i) = Inr (exp', j) \<and> j \<le> length pp"
        if m: "AppendCompleteSubTree keccak exp (of_nat l) (pp ! i) = Inr m" for m
      proof (rule less.hyps [OF meas _ _ _ le])
        show "last m \<noteq> 0" by (rule AppendCompleteSubTree_last [OF k l64 less.prems(1,3) m])
        show "m \<noteq> []" "length m \<le> 64"
          using AppendCompleteSubTree_success [OF k l64 less.prems(1) m] by (metis append_is_Nil_conv carry.elims list.discI)+
      qed (use True in simp)
      show ?thesis
        unfolding verifyPrefixProof_loop_unfold [OF l less.prems(1,2)] Verify_loop_unfold [OF l] d
        using True app IH by (auto simp: bindR_eq_Inr)
    next
      case False
      then show ?thesis
        unfolding verifyPrefixProof_loop_unfold [OF l less.prems(1,2)] Verify_loop_unfold [OF l] by simp
    qed
  qed
qed

lemma verifyPrefixProof_loop_refuses_padding:
  fixes s e :: uint64
  assumes k: "never_zero keccak" and exp: "exp \<noteq> []" "length exp \<le> 64" "last exp = 0" and "s < e"
  shows "verifyPrefixProof_loop keccak (ucast e) exp (ucast s) pf \<noteq> Inr x"
proof -
  obtain l where l: "append_level (unat s) (unat e) l" using assms(5) by (rule append_level_exists)
  have "appendCompleteSubTree keccak exp (of_nat l) p \<noteq> Inr m" for p m
    using appendCompleteSubTree_agrees [OF k append_level_lt [OF l] exp(1,2)] exp(3) by simp
  then show ?thesis
    unfolding verifyPrefixProof_loop_unfold [OF l exp(1,2)] by (auto simp: bindR_eq_Inr split: list.splits)
qed

lemma array_slice_all: "xs \<noteq> [] \<Longrightarrow> array_slice xs 0 (length xs) = Inr xs"
  by (simp add: array_slice_def map_nth)

lemma Verify_loop_index:
  assumes "Verify_loop keccak pp e exp s i = Inr (exp', j)" "i \<le> length pp"
  shows "j \<le> length pp"
  using assms
proof (induction keccak pp e exp s i rule: Verify_loop.induct)
  case (1 keccak pp e exp s i)
  show ?case
  proof (cases "s < e")
    case True
    with "1.prems" obtain l m where "MaximumAppendBetween s e = Inr l" "i < length pp"
        "AppendCompleteSubTree keccak exp l (pp ! i) = Inr m" "\<not> e < s + push_bit (unat l) 1"
        "Verify_loop keccak pp e m (s + push_bit (unat l) 1) (i + 1) = Inr (exp', j)"
      by (subst (asm) Verify_loop.simps) (auto simp: bindR_eq_Inr Let_def simp del: push_bit_of_1 split: if_splits)
    with "1.IH" True show ?thesis by (simp del: push_bit_of_1)
  qed (use "1.prems" in \<open>subst (asm) Verify_loop.simps, simp\<close>)
qed

lemma treeSize_TreeSize:
  assumes "Root keccak exp = Inr r"
  shows "treeSize exp = Inr (ucast (TreeSize exp))"
proof -
  have len: "length exp \<le> 64" using assms by (simp add: Root_def MAX_LEVEL_def split: if_splits)
  have "unat (ucast (TreeSize exp) :: uint256) = tree_size exp"
    unfolding unat_ucast64 by (rule TreeSize_tree_size [OF len])
  then show ?thesis unfolding treeSize_eq [OF len] by (metis eq_of_unat256)
qed

lemma ucast64_simps [simp]:
  fixes a b :: uint64
  shows "ucast a < (ucast b :: uint256) \<longleftrightarrow> a < b" "ucast a = (ucast b :: uint256) \<longleftrightarrow> a = b" "0 < (ucast a :: uint256) \<longleftrightarrow> 0 < a"
  by (simp_all add: word_less_nat_alt word_unat_eq_iff)

lemma verifyPrefixProof_sol_Inr:
  fixes preSize postSize :: uint64
  shows "verifyPrefixProof_sol keccak preRoot (ucast preSize) postRoot (ucast postSize) exp pf = Inr () \<longleftrightarrow>
    0 < preSize \<and> Root keccak exp = Inr preRoot \<and> TreeSize exp = preSize \<and> preSize < postSize \<and>
    (\<exists>exp'. verifyPrefixProof_loop keccak (ucast postSize) exp (ucast preSize) pf = Inr (exp', []) \<and>
       Root keccak exp' = Inr postRoot)"
proof -
  have "exp \<noteq> []" if "Root keccak exp = Inr preRoot" using that by (auto simp: Root_def split: if_splits)
  then show ?thesis
    by (auto simp: verifyPrefixProof_sol_def bindR_eq_Inr merkle_root_sol_eq treeSize_TreeSize array_slice_all)
qed

lemma VerifyPrefixProof_Inr:
  "VerifyPrefixProof keccak \<lparr>PreRoot = preRoot, PreSize = preSize, PostRoot = postRoot, PostSize = postSize,
      PreExpansion = exp, PrefixProof = pf\<rparr> = Inr () \<longleftrightarrow>
    0 < preSize \<and> Root keccak exp = Inr preRoot \<and> TreeSize exp = preSize \<and> preSize < postSize \<and>
    (\<exists>exp'. Verify_loop keccak pf postSize exp preSize 0 = Inr (exp', length pf) \<and> Root keccak exp' = Inr postRoot)"
  by (auto simp: VerifyPrefixProof_def bindR_eq_Inr word_gt_0 split: if_splits)

lemma verifyPrefixProof_sol_iff:
  fixes preSize postSize :: uint64
  assumes k: "never_zero keccak"
  shows "verifyPrefixProof_sol keccak preRoot (ucast preSize) postRoot (ucast postSize) exp pf = Inr () \<longleftrightarrow>
    VerifyPrefixProof keccak \<lparr>PreRoot = preRoot, PreSize = preSize, PostRoot = postRoot, PostSize = postSize,
      PreExpansion = exp, PrefixProof = pf\<rparr> = Inr () \<and> last exp \<noteq> 0"
proof (cases "Root keccak exp = Inr preRoot \<and> preSize < postSize")
  case True
  then have exp: "exp \<noteq> []" "length exp \<le> 64" by (auto simp: Root_def MAX_LEVEL_def split: if_splits)
  show ?thesis
  proof (cases "last exp = 0")
    case 0: True
    then show ?thesis unfolding verifyPrefixProof_sol_Inr
      using verifyPrefixProof_loop_refuses_padding [OF k exp] True by auto
  next
    case False
    have "verifyPrefixProof_loop keccak (ucast postSize) exp (ucast preSize) pf = Inr (exp', []) \<longleftrightarrow>
        Verify_loop keccak pf postSize exp preSize 0 = Inr (exp', length pf)" for exp'
      using verify_loops_agree [OF k exp False, of preSize postSize 0 pf exp' "length pf"] True by (simp add: less_imp_le)
    with False show ?thesis unfolding verifyPrefixProof_sol_Inr VerifyPrefixProof_Inr by simp
  qed
qed (auto simp: verifyPrefixProof_sol_Inr VerifyPrefixProof_Inr)

subsection \<open>Inclusion proofs agree with the Go code\<close>

lemma bit_ucast64: "bit (ucast (x :: uint64) :: uint256) i \<longleftrightarrow> bit x i"
  by (auto simp: bit_simps dest: bit_imp_le_length)

lemma and_shift1_eq_0: "(x :: 'w::len word) AND push_bit i 1 = 0 \<longleftrightarrow> \<not> (i < LENGTH('w) \<and> bit x i)"
proof
  assume "x AND push_bit i 1 = 0"
  then have "\<not> bit (x AND push_bit i 1) i" by simp
  then show "\<not> (i < LENGTH('w) \<and> bit x i)" by (auto simp: bit_simps)
next
  assume "\<not> (i < LENGTH('w) \<and> bit x i)"
  then show "x AND push_bit i 1 = 0" by (intro bit_word_eqI) (auto simp: bit_simps)
qed

lemma calculateRoot_loop_eq: "calculateRoot_loop keccak (ucast (index :: uint64)) i h pf = CalculateRoot_loop keccak index i h pf"
proof (induction pf arbitrary: i h)
  case (Cons n pf)
  have "ucast index AND push_bit i 1 = (0 :: uint256) \<longleftrightarrow> index AND push_bit i 1 = 0"
    unfolding and_shift1_eq_0 bit_ucast64 by (auto dest: bit_imp_le_length)
  then show ?case using Cons by simp
qed simp

lemma verifyInclusionProof_iff:
  "verifyInclusionProof keccak rootHash leaf (ucast (index :: uint64)) pf = Inr () \<longleftrightarrow>
   CalculateRootFromProof keccak pf index leaf = Inr rootHash"
  by (auto simp: verifyInclusionProof_def calculateRoot_sol_def CalculateRootFromProof_def calculateRoot_loop_eq bindR_eq_Inr)

subsection \<open>Properties\<close>

text \<open>
  C27. The contract and the Go code verify the same prefix proofs, for all sizes below \<open>2 ^ 64\<close>: the contract accepts
  exactly those that \<^verbatim>\<open>VerifyPrefixProof\<close> accepts and whose pre-expansion does not end in a zero entry.
\<close>

theorem contract_accepts_go_prefix_proofs:
  fixes preSize postSize :: uint64
  assumes "never_zero keccak"
  shows "verifyPrefixProof_sol keccak preRoot (ucast preSize) postRoot (ucast postSize) exp pf = Inr () \<longleftrightarrow>
    VerifyPrefixProof keccak \<lparr>PreRoot = preRoot, PreSize = preSize, PostRoot = postRoot, PostSize = postSize,
      PreExpansion = exp, PrefixProof = pf\<rparr> = Inr () \<and> last exp \<noteq> 0"
  using assms by (rule verifyPrefixProof_sol_iff)

theorem contract_accepts_go_prefix_proofs_witness:
  "verifyPrefixProof_sol Kec (Kec [Atom 1]) 1 (Kec [Kec [Atom 1], Kec [Atom 2]]) 2 [Kec [Atom 1]] [Kec [Atom 2]] = Inr () \<and>
   verifyPrefixProof_sol Kec (Kec [Kec [Atom 1, 0], 0]) 1 (Kec [Atom 1, Atom 2]) 2 [Atom 1, 0] [Atom 2] \<noteq> Inr ()"
proof -
  have "verifyPrefixProof_sol Kec (Kec [Atom 1]) (ucast (1 :: uint64)) (Kec [Kec [Atom 1], Kec [Atom 2]])
      (ucast (2 :: uint64)) [Kec [Atom 1]] [Kec [Atom 2]] = Inr ()"
    unfolding contract_accepts_go_prefix_proofs [OF Kec_never_zero] using sound_example_accepted by simp
  moreover have "verifyPrefixProof_sol Kec (Kec [Kec [Atom 1, 0], 0]) (ucast (1 :: uint64)) (Kec [Atom 1, Atom 2])
      (ucast (2 :: uint64)) [Atom 1, 0] [Atom 2] \<noteq> Inr ()"
    unfolding contract_accepts_go_prefix_proofs [OF Kec_never_zero] by simp
  ultimately show ?thesis by simp
qed

text \<open>
  C5. A prefix proof that the contract accepts, for a post-root that is the root of a history of \<open>postSize\<close> leaves,
  shows that the pre-root is the root of the first \<open>preSize\<close> leaves of that history.
\<close>

theorem contract_prefix_proof_sound:
  fixes preSize postSize :: uint256
  assumes "never_zero keccak" "collision_free keccak" "unat postSize < 2 ^ 64"
    and "bindR (ExpansionFromLeaves keccak leaves) (Root keccak) = Inr postRoot" "length leaves = unat postSize"
    and "verifyPrefixProof_sol keccak preRoot preSize postRoot postSize exp pf = Inr ()"
  shows "bindR (ExpansionFromLeaves keccak (take (unat preSize) leaves)) (Root keccak) = Inr preRoot"
proof -
  have "preSize < postSize" using assms(6) by (auto simp: verifyPrefixProof_sol_def bindR_eq_Inr)
  with assms(3) have "unat preSize < 2 ^ 64" by (simp add: word_less_nat_alt)
  with assms(3) obtain a b :: uint64 where ab: "preSize = ucast a" "postSize = ucast b"
    by (metis eq_of_unat256 unat_of_nat64 unat_ucast64)
  let ?cfg = "\<lparr>PreRoot = preRoot, PreSize = a, PostRoot = postRoot, PostSize = b, PreExpansion = exp, PrefixProof = pf\<rparr>"
  have ok: "VerifyPrefixProof keccak ?cfg = Inr ()" "last exp \<noteq> 0"
    using assms(6) verifyPrefixProof_sol_iff [OF assms(1)] unfolding ab by blast+
  obtain preExp where "ExpansionFromLeaves keccak (take (unat a) leaves) = Inr preExp" "Root keccak preExp = Inr preRoot"
    using accepted_prefix [OF assms(1,2) _ _ ok(1), of leaves] ok(2) assms(4,5) ab by auto
  then show ?thesis by (simp add: ab)
qed

theorem contract_prefix_proof_sound_witness:
  "bindR (ExpansionFromLeaves Kec (take (unat (1 :: uint256)) [Atom 1, Atom 2])) (Root Kec) = Inr (Kec [Atom 1])"
proof (rule contract_prefix_proof_sound)
  have "ExpansionFromLeaves Kec [Atom 1, Atom 2] = Inr (expansion Kec (map (\<lambda>x. Kec [x]) [Atom 1, Atom 2]))"
    by (rule ExpansionFromLeaves_expansion) simp_all
  then show "bindR (ExpansionFromLeaves Kec [Atom 1, Atom 2]) (Root Kec) = Inr (Kec [Kec [Atom 1], Kec [Atom 2]])"
    by (simp add: Root_def MAX_LEVEL_def expansion.simps)
  have "verifyPrefixProof_sol Kec (Kec [Atom 1]) (ucast (1 :: uint64)) (Kec [Kec [Atom 1], Kec [Atom 2]])
      (ucast (2 :: uint64)) [Kec [Atom 1]] [Kec [Atom 2]] = Inr ()"
    unfolding verifyPrefixProof_sol_iff [OF Kec_never_zero] using sound_example_accepted by simp
  then show "verifyPrefixProof_sol Kec (Kec [Atom 1]) 1 (Kec [Kec [Atom 1], Kec [Atom 2]]) 2 [Kec [Atom 1]] [Kec [Atom 2]] = Inr ()"
    by simp
qed simp_all

end
