(* ===== verification/Challenge_Edge.thy ===== *)
theory Challenge_Edge
  imports Sol_Merkle
begin

text \<open>
  \<^verbatim>\<open>contracts/src/challengeV2/libraries/ChallengeEdgeLib.sol\<close>: the struct of an edge, its identifiers, and the
  operations on one edge. A default edge, as a mapping returns it for an absent key, has all fields zero.
\<close>

subsection \<open>What a function of the library reads of its environment\<close>

text \<open>
  \<open>keccak256\<close> hashes packed data; the block number and the sender are those of the transaction.
\<close>

record 'h block_ctx =
  keccak256 :: "'h packed list \<Rightarrow> 'h"
  block_number :: uint256
  msg_sender :: address

abbreviation kec :: "('h, 'z) block_ctx_scheme \<Rightarrow> 'h list \<Rightarrow> 'h" where
  "kec c \<equiv> keccak_of (keccak256 c)"

text \<open>\<^verbatim>\<open>uint64(block.number)\<close>\<close>

definition this_block :: "('h, 'z) block_ctx_scheme \<Rightarrow> uint64" where
  "this_block c = ucast (block_number c)"

subsection \<open>Edges\<close>

record 'h ChallengeEdge =
  ce_originId :: 'h
  ce_startHistoryRoot :: 'h
  ce_startHeight :: uint256
  ce_endHistoryRoot :: 'h
  ce_endHeight :: uint256
  ce_lowerChildId :: 'h
  ce_upperChildId :: 'h
  ce_claimId :: 'h
  ce_staker :: address
  ce_createdAtBlock :: uint64
  ce_confirmedAtBlock :: uint64
  ce_status :: EdgeStatus_sol
  ce_level :: uint8
  ce_refunded :: bool

definition no_edge :: "'h::zero ChallengeEdge" where
  "no_edge =
     \<lparr>ce_originId = 0, ce_startHistoryRoot = 0, ce_startHeight = 0, ce_endHistoryRoot = 0, ce_endHeight = 0,
      ce_lowerChildId = 0, ce_upperChildId = 0, ce_claimId = 0, ce_staker = 0, ce_createdAtBlock = 0,
      ce_confirmedAtBlock = 0, ce_status = Pending, ce_level = 0, ce_refunded = False\<rparr>"

definition newEdgeChecks :: "'h::zero \<Rightarrow> 'h \<Rightarrow> uint256 \<Rightarrow> 'h \<Rightarrow> uint256 \<Rightarrow> 'h revert + unit" where
  "newEdgeChecks originId startHistoryRoot startHeight endHistoryRoot endHeight =
     bindR (revert_if (originId = 0) EmptyOriginId) (\<lambda>_.
     bindR (revert_if (endHeight \<le> startHeight) (InvalidHeights startHeight endHeight)) (\<lambda>_.
     bindR (revert_if (startHistoryRoot = 0) EmptyStartRoot) (\<lambda>_.
       revert_if (endHistoryRoot = 0) EmptyEndRoot)))"

definition newLayerZeroEdge ::
    "('h::zero, 'z) block_ctx_scheme \<Rightarrow> 'h \<Rightarrow> 'h \<Rightarrow> uint256 \<Rightarrow> 'h \<Rightarrow> uint256 \<Rightarrow> 'h \<Rightarrow> address \<Rightarrow> uint8 \<Rightarrow>
     'h revert + 'h ChallengeEdge" where
  "newLayerZeroEdge c originId startHistoryRoot startHeight endHistoryRoot endHeight claimId staker level =
     bindR (revert_if (staker = 0) EmptyStaker) (\<lambda>_.
     bindR (revert_if (claimId = 0) EmptyClaimId) (\<lambda>_.
     bindR (newEdgeChecks originId startHistoryRoot startHeight endHistoryRoot endHeight) (\<lambda>_.
       Inr \<lparr>ce_originId = originId, ce_startHistoryRoot = startHistoryRoot, ce_startHeight = startHeight,
            ce_endHistoryRoot = endHistoryRoot, ce_endHeight = endHeight, ce_lowerChildId = 0, ce_upperChildId = 0,
            ce_claimId = claimId, ce_staker = staker, ce_createdAtBlock = this_block c, ce_confirmedAtBlock = 0,
            ce_status = Pending, ce_level = level, ce_refunded = False\<rparr>)))"

definition newChildEdge ::
    "('h::zero, 'z) block_ctx_scheme \<Rightarrow> 'h \<Rightarrow> 'h \<Rightarrow> uint256 \<Rightarrow> 'h \<Rightarrow> uint256 \<Rightarrow> uint8 \<Rightarrow> 'h revert + 'h ChallengeEdge" where
  "newChildEdge c originId startHistoryRoot startHeight endHistoryRoot endHeight level =
     bindR (newEdgeChecks originId startHistoryRoot startHeight endHistoryRoot endHeight) (\<lambda>_.
       Inr \<lparr>ce_originId = originId, ce_startHistoryRoot = startHistoryRoot, ce_startHeight = startHeight,
            ce_endHistoryRoot = endHistoryRoot, ce_endHeight = endHeight, ce_lowerChildId = 0, ce_upperChildId = 0,
            ce_claimId = 0, ce_staker = 0, ce_createdAtBlock = this_block c, ce_confirmedAtBlock = 0,
            ce_status = Pending, ce_level = level, ce_refunded = False\<rparr>)"

subsection \<open>Identifiers\<close>

definition mutualIdComponent ::
    "('h packed list \<Rightarrow> 'h) \<Rightarrow> uint8 \<Rightarrow> 'h \<Rightarrow> uint256 \<Rightarrow> 'h \<Rightarrow> uint256 \<Rightarrow> 'h" where
  "mutualIdComponent keccak level originId startHeight startHistoryRoot endHeight =
     keccak [Uint8 level, Bytes32 originId, Uint256 startHeight, Bytes32 startHistoryRoot, Uint256 endHeight]"

definition mutualId :: "('h packed list \<Rightarrow> 'h) \<Rightarrow> 'h ChallengeEdge \<Rightarrow> 'h" where
  "mutualId keccak ce =
     mutualIdComponent keccak (ce_level ce) (ce_originId ce) (ce_startHeight ce) (ce_startHistoryRoot ce) (ce_endHeight ce)"

definition idComponent ::
    "('h packed list \<Rightarrow> 'h) \<Rightarrow> uint8 \<Rightarrow> 'h \<Rightarrow> uint256 \<Rightarrow> 'h \<Rightarrow> uint256 \<Rightarrow> 'h \<Rightarrow> 'h" where
  "idComponent keccak level originId startHeight startHistoryRoot endHeight endHistoryRoot =
     keccak [Bytes32 (mutualIdComponent keccak level originId startHeight startHistoryRoot endHeight),
             Bytes32 endHistoryRoot]"

text \<open>\<^verbatim>\<open>id\<close> and \<^verbatim>\<open>idMem\<close>, \<^verbatim>\<open>mutualId\<close> and \<^verbatim>\<open>mutualIdMem\<close> differ only in where the struct is.\<close>

definition edge_id :: "('h packed list \<Rightarrow> 'h) \<Rightarrow> 'h ChallengeEdge \<Rightarrow> 'h" where
  "edge_id keccak edge =
     idComponent keccak (ce_level edge) (ce_originId edge) (ce_startHeight edge) (ce_startHistoryRoot edge)
       (ce_endHeight edge) (ce_endHistoryRoot edge)"

subsection \<open>Operations on an edge\<close>

definition edge_exists :: "'h ChallengeEdge \<Rightarrow> bool" where
  "edge_exists edge \<longleftrightarrow> ce_createdAtBlock edge \<noteq> 0"

definition edge_length :: "('h packed list \<Rightarrow> 'h) \<Rightarrow> 'h ChallengeEdge \<Rightarrow> 'h revert + uint256" where
  "edge_length keccak edge =
     bindR (checked_sub (ce_endHeight edge) (ce_startHeight edge)) (\<lambda>len.
     bindR (revert_if (len = 0) (EdgeNotExists (edge_id keccak edge))) (\<lambda>_. Inr len))"

definition setChildren ::
    "('h::zero packed list \<Rightarrow> 'h) \<Rightarrow> 'h ChallengeEdge \<Rightarrow> 'h \<Rightarrow> 'h \<Rightarrow> 'h revert + 'h ChallengeEdge" where
  "setChildren keccak edge lowerChildId upperChildId =
     bindR (revert_if (ce_lowerChildId edge \<noteq> 0 \<or> ce_upperChildId edge \<noteq> 0)
              (ChildrenAlreadySet (edge_id keccak edge) (ce_lowerChildId edge) (ce_upperChildId edge))) (\<lambda>_.
       Inr (edge\<lparr>ce_lowerChildId := lowerChildId, ce_upperChildId := upperChildId\<rparr>))"

definition setConfirmed :: "('h, 'z) block_ctx_scheme \<Rightarrow> 'h ChallengeEdge \<Rightarrow> 'h revert + 'h ChallengeEdge" where
  "setConfirmed c edge =
     bindR (revert_if (ce_status edge \<noteq> Pending) (EdgeNotPending (edge_id (keccak256 c) edge) (ce_status edge))) (\<lambda>_.
       Inr (edge\<lparr>ce_status := Confirmed, ce_confirmedAtBlock := this_block c\<rparr>))"

definition isLayerZero :: "'h::zero ChallengeEdge \<Rightarrow> bool" where
  "isLayerZero edge \<longleftrightarrow> ce_claimId edge \<noteq> 0 \<and> ce_staker edge \<noteq> 0"

definition setRefunded :: "('h::zero packed list \<Rightarrow> 'h) \<Rightarrow> 'h ChallengeEdge \<Rightarrow> 'h revert + 'h ChallengeEdge" where
  "setRefunded keccak edge =
     bindR (revert_if (ce_status edge \<noteq> Confirmed) (EdgeNotConfirmed (edge_id keccak edge) (ce_status edge))) (\<lambda>_.
     bindR (revert_if (\<not> isLayerZero edge) (EdgeNotLayerZero (edge_id keccak edge) (ce_staker edge) (ce_claimId edge))) (\<lambda>_.
     bindR (revert_if (ce_refunded edge) (EdgeAlreadyRefunded (edge_id keccak edge))) (\<lambda>_.
       Inr (edge\<lparr>ce_refunded := True\<rparr>))))"

definition levelToType :: "uint8 \<Rightarrow> uint8 \<Rightarrow> 'h revert + EdgeType" where
  "levelToType level numBigStepLevels =
     (if level = 0 then Inr Block
      else if level \<le> numBigStepLevels then Inr BigStep
      else bindR (checked_add numBigStepLevels 1) (\<lambda>smallStep.
        if level = smallStep then Inr SmallStep else Inl (LevelTooHigh level numBigStepLevels)))"

end
