(* ===== verification/Edge_Store.thy ===== *)
theory Edge_Store
  imports Challenge_Edge Protocol
begin

text \<open>
  \<^verbatim>\<open>contracts/src/challengeV2/libraries/EdgeChallengeManagerLib.sol\<close>: the store of all edges with the records of
  their rivals, and the operations that create, bisect and confirm edges. A Solidity mapping is a total
  function whose default is zero.
\<close>

subsection \<open>Data\<close>

record 'h ExecutionStateData =
  esd_executionState :: "'h SolExecutionState"
  esd_prevAssertionHash :: 'h
  esd_inboxAcc :: 'h

record 'h CreateEdgeArgs =
  arg_level :: uint8
  arg_endHistoryRoot :: 'h
  arg_endHeight :: uint256
  arg_claimId :: 'h
  arg_prefixProof :: bytes
  arg_proof :: bytes

record 'h ProofData =
  pd_startState :: 'h
  pd_endState :: 'h
  pd_inclusionProof :: "'h list"

record 'h EdgeStore =
  edges_map :: "'h \<Rightarrow> 'h ChallengeEdge"
  firstRivals :: "'h \<Rightarrow> 'h"
  confirmedRivals :: "'h \<Rightarrow> 'h"

record 'h OneStepData_sol =
  osd_beforeHash :: 'h
  osd_proof :: bytes

record 'h EdgeAddedData =
  added_edgeId :: 'h
  added_mutualId :: 'h
  added_originId :: 'h
  added_claimId :: 'h
  added_length :: uint256
  added_level :: uint8
  added_hasRival :: bool
  added_isLayerZero :: bool

record 'h AssertionReferenceData =
  ard_assertionHash :: 'h
  ard_predecessorId :: 'h
  ard_isPending :: bool
  ard_hasSibling :: bool
  ard_startState :: "'h SolExecutionState"
  ard_endState :: "'h SolExecutionState"

text \<open>\<^verbatim>\<open>ExecutionContext\<close> and the interface \<^verbatim>\<open>IOneStepProofEntry\<close> of the one step proof contracts.\<close>

record 'h ExecutionContext =
  maxInboxMessagesRead :: uint256
  exec_bridge :: address
  initialWasmModuleRoot :: 'h

record 'h IOneStepProofEntry =
  proveOneStep :: "'h ExecutionContext \<Rightarrow> uint256 \<Rightarrow> 'h \<Rightarrow> bytes \<Rightarrow> 'h revert + 'h"
  getMachineHash :: "'h SolExecutionState \<Rightarrow> 'h revert + 'h"

text \<open>\<^verbatim>\<open>abi.decode\<close> at the types of the library; \<open>None\<close> is data that does not decode, which reverts.\<close>

record 'h store_ctx = "'h block_ctx" +
  decode_prefix :: "bytes \<Rightarrow> ('h list \<times> 'h list) option"
  decode_block_proof :: "bytes \<Rightarrow> ('h list \<times> 'h ExecutionStateData \<times> 'h ExecutionStateData) option"
  decode_step_proof :: "bytes \<Rightarrow> ('h \<times> 'h \<times> 'h list \<times> 'h list \<times> 'h list) option"

definition abi_decode :: "'a option \<Rightarrow> 'h revert + 'a" where
  "abi_decode r = (case r of None \<Rightarrow> Inl AbiDecode | Some x \<Rightarrow> Inr x)"

definition UNRIVALED :: "('h packed list \<Rightarrow> 'h) \<Rightarrow> 'h" where
  "UNRIVALED keccak = keccak [Text ''UNRIVALED'']"

subsection \<open>Reading and adding edges\<close>

definition store_get :: "'h EdgeStore \<Rightarrow> 'h \<Rightarrow> 'h revert + 'h ChallengeEdge" where
  "store_get store edgeId =
     bindR (revert_if (\<not> edge_exists (edges_map store edgeId)) (EdgeNotExists edgeId)) (\<lambda>_. Inr (edges_map store edgeId))"

definition getNoCheck :: "'h EdgeStore \<Rightarrow> 'h \<Rightarrow> 'h ChallengeEdge" where
  "getNoCheck store edgeId = edges_map store edgeId"

definition store_add ::
    "('h::zero packed list \<Rightarrow> 'h) \<Rightarrow> 'h EdgeStore \<Rightarrow> 'h ChallengeEdge \<Rightarrow> 'h revert + ('h EdgeAddedData \<times> 'h EdgeStore)" where
  "store_add keccak store edge =
     (let eId = edge_id keccak edge in
      bindR (revert_if (edge_exists (edges_map store eId)) (EdgeAlreadyExists eId)) (\<lambda>_.
        let store = store\<lparr>edges_map := (edges_map store)(eId := edge)\<rparr>;
            mId = mutualIdComponent keccak (ce_level edge) (ce_originId edge) (ce_startHeight edge)
                    (ce_startHistoryRoot edge) (ce_endHeight edge);
            firstRival = firstRivals store mId;
            store = (if firstRival = 0 then store\<lparr>firstRivals := (firstRivals store)(mId := UNRIVALED keccak)\<rparr>
                     else if firstRival = UNRIVALED keccak then store\<lparr>firstRivals := (firstRivals store)(mId := eId)\<rparr>
                     else store)
        in bindR (edge_length keccak (edges_map store eId)) (\<lambda>len.
             Inr (\<lparr>added_edgeId = eId, added_mutualId = mId, added_originId = ce_originId edge,
                   added_claimId = ce_claimId edge, added_length = len, added_level = ce_level edge,
                   added_hasRival = (firstRival \<noteq> 0), added_isLayerZero = (ce_claimId edge \<noteq> 0)\<rparr>, store))))"

subsection \<open>Rivals and timers\<close>

definition hasRival :: "('h::zero packed list \<Rightarrow> 'h) \<Rightarrow> 'h EdgeStore \<Rightarrow> 'h \<Rightarrow> 'h revert + bool" where
  "hasRival keccak store edgeId =
     bindR (revert_if (\<not> edge_exists (edges_map store edgeId)) (EdgeNotExists edgeId)) (\<lambda>_.
       let mId = mutualId keccak (edges_map store edgeId); firstRival = firstRivals store mId in
       bindR (revert_if (firstRival = 0) EmptyFirstRival) (\<lambda>_. Inr (firstRival \<noteq> UNRIVALED keccak)))"

definition hasLengthOneRival :: "('h::zero packed list \<Rightarrow> 'h) \<Rightarrow> 'h EdgeStore \<Rightarrow> 'h \<Rightarrow> 'h revert + bool" where
  "hasLengthOneRival keccak store edgeId =
     bindR (hasRival keccak store edgeId) (\<lambda>rival.
       if rival then bindR (edge_length keccak (edges_map store edgeId)) (\<lambda>len. Inr (len = 1)) else Inr False)"

definition timeUnrivaled :: "('h::zero, 'z) block_ctx_scheme \<Rightarrow> 'h EdgeStore \<Rightarrow> 'h \<Rightarrow> 'h revert + uint64" where
  "timeUnrivaled c store edgeId =
     bindR (revert_if (\<not> edge_exists (edges_map store edgeId)) (EdgeNotExists edgeId)) (\<lambda>_.
       let mId = mutualId (keccak256 c) (edges_map store edgeId); firstRival = firstRivals store mId in
       bindR (revert_if (firstRival = 0) EmptyFirstRival) (\<lambda>_.
         if firstRival = UNRIVALED (keccak256 c)
         then checked_sub (this_block c) (ce_createdAtBlock (edges_map store edgeId))
         else
           bindR (revert_if (\<not> edge_exists (edges_map store firstRival)) (EdgeNotExists firstRival)) (\<lambda>_.
             let firstRivalCreatedAtBlock = ce_createdAtBlock (edges_map store firstRival);
                 edgeCreatedAtBlock = ce_createdAtBlock (edges_map store edgeId)
             in if firstRivalCreatedAtBlock > edgeCreatedAtBlock
                then checked_sub firstRivalCreatedAtBlock edgeCreatedAtBlock
                else Inr 0)))"

text \<open>
  The walk of \<^verbatim>\<open>getPrevAssertionHash\<close> from the origin of an edge to the level below; \<open>None\<close> is a walk that does not
  end.
\<close>

partial_function (option) prev_assertion_loop ::
    "'h EdgeStore \<Rightarrow> 'h ChallengeEdge \<Rightarrow> ('h revert + 'h) option" where
  "prev_assertion_loop store edge =
     (if ce_level edge > 0 then
        (case store_get store (firstRivals store (ce_originId edge)) of
           Inl e \<Rightarrow> Some (Inl e)
         | Inr edge' \<Rightarrow> prev_assertion_loop store edge')
      else Some (Inr (ce_originId edge)))"

definition getPrevAssertionHash :: "'h EdgeStore \<Rightarrow> 'h \<Rightarrow> ('h revert + 'h) option" where
  "getPrevAssertionHash store edgeId =
     (case store_get store edgeId of Inl e \<Rightarrow> Some (Inl e) | Inr edge \<Rightarrow> prev_assertion_loop store edge)"

subsection \<open>Creating layer zero edges\<close>

definition nextEdgeLevel :: "uint8 \<Rightarrow> uint8 \<Rightarrow> 'h revert + uint8" where
  "nextEdgeLevel level numBigStepLevel =
     bindR (checked_add level 1) (\<lambda>nextLevel.
     bindR (levelToType nextLevel numBigStepLevel) (\<lambda>_. Inr nextLevel))"

definition block_edge_checks ::
    "('h::zero, 'z) store_ctx_scheme \<Rightarrow> 'h IOneStepProofEntry \<Rightarrow> 'h CreateEdgeArgs \<Rightarrow> 'h AssertionReferenceData \<Rightarrow>
     'h revert + ('h ProofData \<times> 'h)" where
  "block_edge_checks c oneStepProofEntry args ard =
     (let originId = ard_predecessorId ard in
      bindR (revert_if (ard_assertionHash ard = 0) AssertionHashEmpty) (\<lambda>_.
      bindR (revert_if (ard_assertionHash ard \<noteq> arg_claimId args)
               (AssertionHashMismatch (ard_assertionHash ard) (arg_claimId args))) (\<lambda>_.
      bindR (revert_if (\<not> ard_isPending ard) AssertionNotPending) (\<lambda>_.
      bindR (revert_if (\<not> ard_hasSibling ard) AssertionNoSibling) (\<lambda>_.
      bindR (revert_if (arg_proof args = []) EmptyEdgeSpecificProof) (\<lambda>_.
      bindR (abi_decode (decode_block_proof c (arg_proof args))) (\<lambda>(inclusionProof, _, _).
      bindR (revert_if (sol_MachineStatus (ard_startState ard) = MachineStatusRunning) EmptyStartMachineStatus) (\<lambda>_.
      bindR (revert_if (sol_MachineStatus (ard_endState ard) = MachineStatusRunning) EmptyEndMachineStatus) (\<lambda>_.
      bindR (getMachineHash oneStepProofEntry (ard_startState ard)) (\<lambda>startStateHash.
      bindR (getMachineHash oneStepProofEntry (ard_endState ard)) (\<lambda>endStateHash.
        Inr (\<lparr>pd_startState = startStateHash, pd_endState = endStateHash, pd_inclusionProof = inclusionProof\<rparr>,
             originId))))))))))))"

definition step_edge_checks ::
    "('h::zero, 'z) store_ctx_scheme \<Rightarrow> 'h EdgeStore \<Rightarrow> 'h CreateEdgeArgs \<Rightarrow> uint8 \<Rightarrow> 'h revert + ('h ProofData \<times> 'h)" where
  "step_edge_checks c store args numBigStepLevel =
     bindR (hasLengthOneRival (keccak256 c) store (arg_claimId args)) (\<lambda>lengthOneRival.
     bindR (revert_if (\<not> lengthOneRival) (ClaimEdgeNotLengthOneRival (arg_claimId args))) (\<lambda>_.
       let claimEdge = getNoCheck store (arg_claimId args); originId = mutualId (keccak256 c) claimEdge in
       bindR (revert_if (ce_status claimEdge \<noteq> Pending) ClaimEdgeNotPending) (\<lambda>_.
       bindR (nextEdgeLevel (ce_level claimEdge) numBigStepLevel) (\<lambda>nextLevel.
       bindR (revert_if (arg_level args \<noteq> nextLevel) (ClaimEdgeInvalidLevel (arg_level args) (ce_level claimEdge))) (\<lambda>_.
       bindR (revert_if (arg_proof args = []) EmptyEdgeSpecificProof) (\<lambda>_.
       bindR (abi_decode (decode_step_proof c (arg_proof args)))
         (\<lambda>(startState, endState, claimStartInclusionProof, claimEndInclusionProof, edgeInclusionProof).
       bindR (verifyInclusionProof (kec c) (ce_startHistoryRoot claimEdge) startState (ce_startHeight claimEdge)
                claimStartInclusionProof) (\<lambda>_.
       bindR (verifyInclusionProof (kec c) (ce_endHistoryRoot claimEdge) endState (ce_endHeight claimEdge)
                claimEndInclusionProof) (\<lambda>_.
         Inr (\<lparr>pd_startState = startState, pd_endState = endState, pd_inclusionProof = edgeInclusionProof\<rparr>,
              originId))))))))))"

definition layerZeroTypeSpecificChecks ::
    "('h::zero, 'z) store_ctx_scheme \<Rightarrow> 'h EdgeStore \<Rightarrow> 'h CreateEdgeArgs \<Rightarrow> 'h AssertionReferenceData \<Rightarrow>
     'h IOneStepProofEntry \<Rightarrow> uint8 \<Rightarrow> 'h revert + ('h ProofData \<times> 'h)" where
  "layerZeroTypeSpecificChecks c store args ard oneStepProofEntry numBigStepLevel =
     bindR (levelToType (arg_level args) numBigStepLevel) (\<lambda>eType.
       if eType = Block then block_edge_checks c oneStepProofEntry args ard
       else step_edge_checks c store args numBigStepLevel)"

definition isPowerOfTwo :: "uint256 \<Rightarrow> bool" where
  "isPowerOfTwo x = (if x = 0 then False else let y = x - 1 in x AND y = 0)"

definition layerZeroCommonChecks ::
    "('h::zero, 'z) store_ctx_scheme \<Rightarrow> 'h ProofData \<Rightarrow> 'h CreateEdgeArgs \<Rightarrow> uint256 \<Rightarrow> 'h revert + 'h" where
  "layerZeroCommonChecks c proofData args expectedEndHeight =
     bindR (appendLeaf_sol (kec c) [] (pd_startState proofData)) (\<lambda>me.
     bindR (merkle_root_sol (kec c) me) (\<lambda>startHistoryRoot.
     bindR (revert_if (\<not> isPowerOfTwo expectedEndHeight) (NotPowerOfTwo expectedEndHeight)) (\<lambda>_.
     bindR (revert_if (arg_endHeight args \<noteq> expectedEndHeight)
              (InvalidEndHeight (arg_endHeight args) expectedEndHeight)) (\<lambda>_.
     bindR (verifyInclusionProof (kec c) (arg_endHistoryRoot args) (pd_endState proofData) (arg_endHeight args)
              (pd_inclusionProof proofData)) (\<lambda>_.
     bindR (revert_if (arg_prefixProof args = []) EmptyPrefixProof) (\<lambda>_.
     bindR (abi_decode (decode_prefix c (arg_prefixProof args))) (\<lambda>(preExpansion, preProof).
     bindR (checked_add (arg_endHeight args) 1) (\<lambda>postSize.
     bindR (verifyPrefixProof_sol (kec c) startHistoryRoot 1 (arg_endHistoryRoot args) postSize preExpansion preProof)
       (\<lambda>_. Inr startHistoryRoot)))))))))"

definition toLayerZeroEdge ::
    "('h::zero, 'z) block_ctx_scheme \<Rightarrow> 'h \<Rightarrow> 'h \<Rightarrow> 'h CreateEdgeArgs \<Rightarrow> 'h revert + 'h ChallengeEdge" where
  "toLayerZeroEdge c originId startHistoryRoot args =
     newLayerZeroEdge c originId startHistoryRoot 0 (arg_endHistoryRoot args) (arg_endHeight args) (arg_claimId args)
       (msg_sender c) (arg_level args)"

definition store_createLayerZeroEdge ::
    "('h::zero, 'z) store_ctx_scheme \<Rightarrow> 'h EdgeStore \<Rightarrow> 'h CreateEdgeArgs \<Rightarrow> 'h AssertionReferenceData \<Rightarrow>
     'h IOneStepProofEntry \<Rightarrow> uint256 \<Rightarrow> uint8 \<Rightarrow> 'h revert + ('h EdgeAddedData \<times> 'h EdgeStore)" where
  "store_createLayerZeroEdge c store args ard oneStepProofEntry expectedEndHeight numBigStepLevel =
     bindR (layerZeroTypeSpecificChecks c store args ard oneStepProofEntry numBigStepLevel) (\<lambda>(proofData, originId).
     bindR (layerZeroCommonChecks c proofData args expectedEndHeight) (\<lambda>startHistoryRoot.
     bindR (toLayerZeroEdge c originId startHistoryRoot args) (\<lambda>ce.
       store_add (keccak256 c) store ce)))"

subsection \<open>Bisection\<close>

definition mandatoryBisectionHeight :: "uint256 \<Rightarrow> uint256 \<Rightarrow> 'h revert + uint256" where
  "mandatoryBisectionHeight start end' =
     bindR (checked_sub end' start) (\<lambda>len.
     bindR (revert_if (len < 2) (HeightDiffLtTwo start end')) (\<lambda>_.
       if len = 2 then checked_add start 1
       else
         bindR (checked_sub end' 1) (\<lambda>last'.
           let diff = last' XOR start in
           bindR (mostSignificantBit diff) (\<lambda>mostSignificantSharedBit.
             let mask' = push_bit (unat mostSignificantSharedBit) (- 1) in
             Inr (last' AND mask')))))"

text \<open>A lower child that exists already is not added again and leaves an empty \<^verbatim>\<open>EdgeAddedData\<close>.\<close>

definition nothing_added :: "'h::zero EdgeAddedData" where
  "nothing_added =
     \<lparr>added_edgeId = 0, added_mutualId = 0, added_originId = 0, added_claimId = 0, added_length = 0, added_level = 0,
      added_hasRival = False, added_isLayerZero = False\<rparr>"

definition add_lower_child ::
    "('h::zero packed list \<Rightarrow> 'h) \<Rightarrow> 'h EdgeStore \<Rightarrow> 'h ChallengeEdge \<Rightarrow>
     'h revert + ('h EdgeAddedData \<times> 'h EdgeStore)" where
  "add_lower_child keccak store lowerChild =
     (if \<not> edge_exists (edges_map store (edge_id keccak lowerChild))
      then store_add keccak store lowerChild
      else Inr (nothing_added, store))"

definition store_bisectEdge ::
    "('h::zero, 'z) store_ctx_scheme \<Rightarrow> 'h EdgeStore \<Rightarrow> 'h \<Rightarrow> 'h \<Rightarrow> bytes \<Rightarrow>
     'h revert + (('h \<times> 'h EdgeAddedData \<times> 'h EdgeAddedData) \<times> 'h EdgeStore)" where
  "store_bisectEdge c store edgeId bisectionHistoryRoot prefixProof =
     bindR (revert_if (ce_status (edges_map store edgeId) \<noteq> Pending)
              (EdgeNotPending edgeId (ce_status (edges_map store edgeId)))) (\<lambda>_.
     bindR (hasRival (keccak256 c) store edgeId) (\<lambda>rival.
     bindR (revert_if (\<not> rival) (EdgeUnrivaled edgeId)) (\<lambda>_.
       let ce = getNoCheck store edgeId in
       bindR (mandatoryBisectionHeight (ce_startHeight ce) (ce_endHeight ce)) (\<lambda>middleHeight.
       bindR (abi_decode (decode_prefix c prefixProof)) (\<lambda>(preExpansion, pf).
       bindR (checked_add middleHeight 1) (\<lambda>preSize.
       bindR (checked_add (ce_endHeight ce) 1) (\<lambda>postSize.
       bindR (verifyPrefixProof_sol (kec c) bisectionHistoryRoot preSize (ce_endHistoryRoot ce) postSize preExpansion pf) (\<lambda>_.
       bindR (newChildEdge c (ce_originId ce) (ce_startHistoryRoot ce) (ce_startHeight ce) bisectionHistoryRoot
                middleHeight (ce_level ce)) (\<lambda>lowerChild.
       bindR (add_lower_child (keccak256 c) store lowerChild) (\<lambda>(lowerChildAdded, store).
       bindR (newChildEdge c (ce_originId ce) bisectionHistoryRoot middleHeight (ce_endHistoryRoot ce)
                (ce_endHeight ce) (ce_level ce)) (\<lambda>upperChild.
       bindR (store_add (keccak256 c) store upperChild) (\<lambda>(upperChildAdded, store).
         let lowerChildId = edge_id (keccak256 c) lowerChild in
         bindR (setChildren (keccak256 c) (edges_map store edgeId) lowerChildId (added_edgeId upperChildAdded)) (\<lambda>edge.
           Inr ((lowerChildId, lowerChildAdded, upperChildAdded),
                store\<lparr>edges_map := (edges_map store)(edgeId := edge)\<rparr>))))))))))))))"

subsection \<open>Confirmation\<close>

definition setConfirmedRival :: "('h::zero packed list \<Rightarrow> 'h) \<Rightarrow> 'h EdgeStore \<Rightarrow> 'h \<Rightarrow> 'h revert + 'h EdgeStore" where
  "setConfirmedRival keccak store edgeId =
     (let mId = mutualId keccak (edges_map store edgeId); confirmedRivalId = confirmedRivals store mId in
      bindR (revert_if (confirmedRivalId \<noteq> 0) (RivalEdgeConfirmed edgeId confirmedRivalId)) (\<lambda>_.
        Inr (store\<lparr>confirmedRivals := (confirmedRivals store)(mId := edgeId)\<rparr>)))"

text \<open>The last two calls of every confirmation.\<close>

definition set_confirmed ::
    "('h::zero, 'z) block_ctx_scheme \<Rightarrow> 'h EdgeStore \<Rightarrow> 'h \<Rightarrow> 'h revert + 'h EdgeStore" where
  "set_confirmed c store edgeId =
     bindR (setConfirmedRival (keccak256 c) store edgeId) (\<lambda>store.
     bindR (setConfirmed c (edges_map store edgeId)) (\<lambda>edge.
       Inr (store\<lparr>edges_map := (edges_map store)(edgeId := edge)\<rparr>)))"

definition require_confirmed :: "'h EdgeStore \<Rightarrow> 'h \<Rightarrow> 'h revert + unit" where
  "require_confirmed store edgeId =
     bindR (revert_if (\<not> edge_exists (edges_map store edgeId)) (EdgeNotExists edgeId)) (\<lambda>_.
       revert_if (ce_status (edges_map store edgeId) \<noteq> Confirmed)
         (EdgeNotConfirmed edgeId (ce_status (edges_map store edgeId))))"

definition store_confirmEdgeByChildren ::
    "('h::zero, 'z) block_ctx_scheme \<Rightarrow> 'h EdgeStore \<Rightarrow> 'h \<Rightarrow> 'h revert + 'h EdgeStore" where
  "store_confirmEdgeByChildren c store edgeId =
     bindR (revert_if (\<not> edge_exists (edges_map store edgeId)) (EdgeNotExists edgeId)) (\<lambda>_.
     bindR (require_confirmed store (ce_lowerChildId (edges_map store edgeId))) (\<lambda>_.
     bindR (require_confirmed store (ce_upperChildId (edges_map store edgeId))) (\<lambda>_.
       set_confirmed c store edgeId)))"

definition checkClaimIdLink ::
    "('h packed list \<Rightarrow> 'h) \<Rightarrow> 'h EdgeStore \<Rightarrow> 'h \<Rightarrow> 'h \<Rightarrow> uint8 \<Rightarrow> 'h revert + unit" where
  "checkClaimIdLink keccak store edgeId claimingEdgeId numBigStepLevel =
     bindR (revert_if (mutualId keccak (edges_map store edgeId) \<noteq> ce_originId (edges_map store claimingEdgeId))
              (OriginIdMutualIdMismatch (mutualId keccak (edges_map store edgeId))
                 (ce_originId (edges_map store claimingEdgeId)))) (\<lambda>_.
     bindR (nextEdgeLevel (ce_level (edges_map store edgeId)) numBigStepLevel) (\<lambda>nextLevel.
       revert_if (nextLevel \<noteq> ce_level (edges_map store claimingEdgeId))
         (EdgeLevelInvalid edgeId claimingEdgeId nextLevel (ce_level (edges_map store claimingEdgeId)))))"

definition store_confirmEdgeByClaim ::
    "('h::zero, 'z) block_ctx_scheme \<Rightarrow> 'h EdgeStore \<Rightarrow> 'h \<Rightarrow> 'h \<Rightarrow> uint8 \<Rightarrow> 'h revert + 'h EdgeStore" where
  "store_confirmEdgeByClaim c store edgeId claimingEdgeId numBigStepLevel =
     bindR (revert_if (\<not> edge_exists (edges_map store edgeId)) (EdgeNotExists edgeId)) (\<lambda>_.
     bindR (revert_if (\<not> edge_exists (edges_map store claimingEdgeId)) (EdgeNotExists edgeId)) (\<lambda>_.
     bindR (revert_if (ce_status (edges_map store claimingEdgeId) \<noteq> Confirmed)
              (EdgeNotConfirmed claimingEdgeId (ce_status (edges_map store claimingEdgeId)))) (\<lambda>_.
     bindR (checkClaimIdLink (keccak256 c) store edgeId claimingEdgeId numBigStepLevel) (\<lambda>_.
     bindR (revert_if (edgeId \<noteq> ce_claimId (edges_map store claimingEdgeId))
              (EdgeClaimMismatch edgeId (ce_claimId (edges_map store claimingEdgeId)))) (\<lambda>_.
       set_confirmed c store edgeId)))))"

text \<open>The loop of \<^verbatim>\<open>confirmEdgeByTime\<close> over the ancestors.\<close>

fun ancestors_time ::
    "('h::zero, 'z) block_ctx_scheme \<Rightarrow> 'h EdgeStore \<Rightarrow> uint8 \<Rightarrow> 'h \<Rightarrow> uint64 \<Rightarrow> 'h list \<Rightarrow> 'h revert + uint64" where
  "ancestors_time c store numBigStepLevel currentEdgeId totalTimeUnrivaled [] = Inr totalTimeUnrivaled"
| "ancestors_time c store numBigStepLevel currentEdgeId totalTimeUnrivaled (ancestor # ancestorEdgeIds) =
     bindR (store_get store ancestor) (\<lambda>e.
       if ce_lowerChildId e = currentEdgeId \<or> ce_upperChildId e = currentEdgeId then
         bindR (timeUnrivaled c store (edge_id (keccak256 c) e)) (\<lambda>t.
         bindR (checked_add totalTimeUnrivaled t) (\<lambda>totalTimeUnrivaled.
           ancestors_time c store numBigStepLevel ancestor totalTimeUnrivaled ancestorEdgeIds))
       else if ancestor = ce_claimId (edges_map store currentEdgeId) then
         bindR (checkClaimIdLink (keccak256 c) store ancestor currentEdgeId numBigStepLevel) (\<lambda>_.
         bindR (timeUnrivaled c store (edge_id (keccak256 c) e)) (\<lambda>t.
         bindR (checked_add totalTimeUnrivaled t) (\<lambda>totalTimeUnrivaled.
           ancestors_time c store numBigStepLevel ancestor totalTimeUnrivaled ancestorEdgeIds)))
       else Inl (EdgeNotAncestor currentEdgeId (ce_lowerChildId e) (ce_upperChildId e) ancestor
                   (ce_claimId (edges_map store currentEdgeId))))"

definition store_confirmEdgeByTime ::
    "('h::zero, 'z) block_ctx_scheme \<Rightarrow> 'h EdgeStore \<Rightarrow> 'h \<Rightarrow> 'h list \<Rightarrow> uint64 \<Rightarrow> uint64 \<Rightarrow> uint8 \<Rightarrow>
     'h revert + (uint64 \<times> 'h EdgeStore)" where
  "store_confirmEdgeByTime c store edgeId ancestorEdgeIds claimedAssertionUnrivaledBlocks confirmationThresholdBlock
     numBigStepLevel =
     bindR (revert_if (\<not> edge_exists (edges_map store edgeId)) (EdgeNotExists edgeId)) (\<lambda>_.
     bindR (timeUnrivaled c store edgeId) (\<lambda>totalTimeUnrivaled.
     bindR (ancestors_time c store numBigStepLevel edgeId totalTimeUnrivaled ancestorEdgeIds) (\<lambda>totalTimeUnrivaled.
     bindR (checked_add totalTimeUnrivaled claimedAssertionUnrivaledBlocks) (\<lambda>totalTimeUnrivaled.
     bindR (revert_if (totalTimeUnrivaled < confirmationThresholdBlock)
              (InsufficientConfirmationBlocks totalTimeUnrivaled confirmationThresholdBlock)) (\<lambda>_.
     bindR (set_confirmed c store edgeId) (\<lambda>store. Inr (totalTimeUnrivaled, store)))))))"

definition store_confirmEdgeByOneStepProof ::
    "('h::zero, 'z) block_ctx_scheme \<Rightarrow> 'h EdgeStore \<Rightarrow> 'h \<Rightarrow> 'h IOneStepProofEntry \<Rightarrow> 'h OneStepData_sol \<Rightarrow>
     'h ExecutionContext \<Rightarrow> 'h list \<Rightarrow> 'h list \<Rightarrow> uint8 \<Rightarrow> 'h revert + 'h EdgeStore" where
  "store_confirmEdgeByOneStepProof c store edgeId oneStepProofEntry oneStepData execCtx beforeHistoryInclusionProof
     afterHistoryInclusionProof numBigStepLevel =
     bindR (store_get store edgeId) (\<lambda>edge.
       let machineStep = ce_startHeight edge in
       bindR (levelToType (ce_level (edges_map store edgeId)) numBigStepLevel) (\<lambda>eType.
       bindR (revert_if (eType \<noteq> SmallStep) (EdgeTypeNotSmallStep (ce_level (edges_map store edgeId)))) (\<lambda>_.
       bindR (edge_length (keccak256 c) (edges_map store edgeId)) (\<lambda>len.
       bindR (revert_if (len \<noteq> 1) (EdgeNotLengthOne len)) (\<lambda>_.
       bindR (verifyInclusionProof (kec c) (ce_startHistoryRoot (edges_map store edgeId)) (osd_beforeHash oneStepData)
                machineStep beforeHistoryInclusionProof) (\<lambda>_.
       bindR (proveOneStep oneStepProofEntry execCtx machineStep (osd_beforeHash oneStepData) (osd_proof oneStepData))
         (\<lambda>afterHash.
       bindR (checked_add machineStep 1) (\<lambda>afterStep.
       bindR (verifyInclusionProof (kec c) (ce_endHistoryRoot (edges_map store edgeId)) afterHash afterStep
                afterHistoryInclusionProof) (\<lambda>_.
         set_confirmed c store edgeId)))))))))"

end
