(* ===== verification/Edge_Manager_Contract.thy ===== *)
theory Edge_Manager_Contract
  imports Edge_Store
begin

text \<open>
  \<^verbatim>\<open>contracts/src/challengeV2/EdgeChallengeManager.sol\<close>: the contract that owns the store of edges, with its
  configuration, its stakes and the events it emits. The assertion chain and the one step proof contract
  are called through their interfaces, and the stake token is an ERC-20 contract outside the repository:
  all three are fields of the context of a call.
\<close>

subsection \<open>The contracts that the manager calls\<close>

record 'h ConfigData =
  wasmModuleRoot :: 'h
  requiredStake :: uint256
  challengeManager :: address
  confirmPeriodBlocks :: uint64
  nextInboxPosition :: uint64

record 'h IAssertionChain =
  chain_bridge :: "'h revert + address"
  validateAssertionHash :: "'h \<Rightarrow> 'h SolExecutionState \<Rightarrow> 'h \<Rightarrow> 'h \<Rightarrow> 'h revert + unit"
  validateConfig :: "'h \<Rightarrow> 'h ConfigData \<Rightarrow> 'h revert + unit"
  getFirstChildCreationBlock :: "'h \<Rightarrow> 'h revert + uint64"
  getSecondChildCreationBlock :: "'h \<Rightarrow> 'h revert + uint64"
  isFirstChild :: "'h \<Rightarrow> 'h revert + bool"
  isPending :: "'h \<Rightarrow> 'h revert + bool"

text \<open>
  The context of a call. \<open>'t\<close> is the state of the stake token; a transfer returns its next state or reverts.
\<close>

record ('h, 't) manager_ctx = "'h store_ctx" +
  address_this :: address
  chain_at :: "'h IAssertionChain"
  osp_at :: "'h IOneStepProofEntry"
  safeTransferFrom :: "address \<Rightarrow> address \<Rightarrow> uint256 \<Rightarrow> 't \<Rightarrow> 'h revert + 't"
  safeTransfer :: "address \<Rightarrow> address \<Rightarrow> uint256 \<Rightarrow> 't \<Rightarrow> 'h revert + 't"

subsection \<open>State\<close>

datatype 'h event =
    EdgeAdded "'h EdgeAddedData"
  | EdgeBisected 'h 'h 'h bool
  | EdgeConfirmedByChildren 'h 'h
  | EdgeConfirmedByTime 'h 'h uint64
  | EdgeConfirmedByClaim 'h 'h 'h
  | EdgeConfirmedByOneStepProof 'h 'h
  | EdgeRefunded 'h 'h address uint256

record ('h, 't) EdgeChallengeManager =
  ecm_store :: "'h EdgeStore"
  excessStakeReceiver :: address
  stakeToken :: address
  stakeAmount :: uint256
  challengePeriodBlocks :: uint64
  assertionChain :: address
  oneStepProofEntry :: address
  LAYERZERO_BLOCKEDGE_HEIGHT :: uint256
  LAYERZERO_BIGSTEPEDGE_HEIGHT :: uint256
  LAYERZERO_SMALLSTEPEDGE_HEIGHT :: uint256
  NUM_BIGSTEP_LEVEL :: uint8
  ecm_initialized :: bool
  tokens :: 't
  logs :: "'h event list"

definition empty_store :: "'h::zero EdgeStore" where
  "empty_store = \<lparr>edges_map = (\<lambda>_. no_edge), firstRivals = (\<lambda>_. 0), confirmedRivals = (\<lambda>_. 0)\<rparr>"

text \<open>The storage of a proxy before it is initialized.\<close>

definition uninitialized :: "'t \<Rightarrow> ('h::zero, 't) EdgeChallengeManager" where
  "uninitialized t =
     \<lparr>ecm_store = empty_store, excessStakeReceiver = 0, stakeToken = 0, stakeAmount = 0, challengePeriodBlocks = 0,
      assertionChain = 0, oneStepProofEntry = 0, LAYERZERO_BLOCKEDGE_HEIGHT = 0, LAYERZERO_BIGSTEPEDGE_HEIGHT = 0,
      LAYERZERO_SMALLSTEPEDGE_HEIGHT = 0, NUM_BIGSTEP_LEVEL = 0, ecm_initialized = False, tokens = t, logs = []\<rparr>"

definition emit :: "'h event \<Rightarrow> ('h, 't) EdgeChallengeManager \<Rightarrow> ('h, 't) EdgeChallengeManager" where
  "emit e s = s\<lparr>logs := logs s @ [e]\<rparr>"

definition ecm_initialize ::
    "address \<Rightarrow> uint64 \<Rightarrow> address \<Rightarrow> uint256 \<Rightarrow> uint256 \<Rightarrow> uint256 \<Rightarrow> address \<Rightarrow> uint256 \<Rightarrow> address \<Rightarrow> uint8 \<Rightarrow>
     ('h, 't) EdgeChallengeManager \<Rightarrow> 'h revert + ('h, 't) EdgeChallengeManager" where
  "ecm_initialize assertionChain' challengePeriodBlocks' oneStepProofEntry' layerZeroBlockEdgeHeight
     layerZeroBigStepEdgeHeight layerZeroSmallStepEdgeHeight stakeToken' stakeAmount' excessStakeReceiver'
     numBigStepLevel s =
     bindR (require (\<not> ecm_initialized s) ''Initializable: contract is already initialized'') (\<lambda>_.
     bindR (revert_if (assertionChain' = 0) EmptyAssertionChain) (\<lambda>_.
     bindR (revert_if (oneStepProofEntry' = 0) EmptyOneStepProofEntry) (\<lambda>_.
     bindR (revert_if (challengePeriodBlocks' = 0) EmptyChallengePeriod) (\<lambda>_.
     bindR (revert_if (excessStakeReceiver' = 0) EmptyStakeReceiver) (\<lambda>_.
     bindR (revert_if (\<not> isPowerOfTwo layerZeroBlockEdgeHeight) (NotPowerOfTwo layerZeroBlockEdgeHeight)) (\<lambda>_.
     bindR (revert_if (\<not> isPowerOfTwo layerZeroBigStepEdgeHeight) (NotPowerOfTwo layerZeroBigStepEdgeHeight)) (\<lambda>_.
     bindR (revert_if (\<not> isPowerOfTwo layerZeroSmallStepEdgeHeight) (NotPowerOfTwo layerZeroSmallStepEdgeHeight)) (\<lambda>_.
     bindR (revert_if (numBigStepLevel = 0) ZeroBigStepLevels) (\<lambda>_.
     bindR (revert_if (numBigStepLevel > 253) (BigStepLevelsTooMany numBigStepLevel)) (\<lambda>_.
       Inr (s\<lparr>assertionChain := assertionChain', oneStepProofEntry := oneStepProofEntry',
              challengePeriodBlocks := challengePeriodBlocks', stakeToken := stakeToken', stakeAmount := stakeAmount',
              excessStakeReceiver := excessStakeReceiver', LAYERZERO_BLOCKEDGE_HEIGHT := layerZeroBlockEdgeHeight,
              LAYERZERO_BIGSTEPEDGE_HEIGHT := layerZeroBigStepEdgeHeight,
              LAYERZERO_SMALLSTEPEDGE_HEIGHT := layerZeroSmallStepEdgeHeight, NUM_BIGSTEP_LEVEL := numBigStepLevel,
              ecm_initialized := True\<rparr>)))))))))))"

subsection \<open>Operations\<close>

definition getLayerZeroEndHeight :: "('h, 't) EdgeChallengeManager \<Rightarrow> EdgeType \<Rightarrow> uint256" where
  "getLayerZeroEndHeight s eType =
     (case eType of
        Block \<Rightarrow> LAYERZERO_BLOCKEDGE_HEIGHT s
      | BigStep \<Rightarrow> LAYERZERO_BIGSTEPEDGE_HEIGHT s
      | SmallStep \<Rightarrow> LAYERZERO_SMALLSTEPEDGE_HEIGHT s)"

text \<open>The reference data of the claimed assertion, read from the assertion chain; empty for the other levels.\<close>

definition empty_ard :: "'h::zero AssertionReferenceData" where
  "empty_ard =
     (let none = \<lparr>sol_GlobalState = \<lparr>Bytes32Vals = (0, 0), U64Vals = (0, 0)\<rparr>, sol_MachineStatus = 0\<rparr> in
      \<lparr>ard_assertionHash = 0, ard_predecessorId = 0, ard_isPending = False, ard_hasSibling = False,
       ard_startState = none, ard_endState = none\<rparr>)"

definition assertion_reference ::
    "('h, 't, 'z) manager_ctx_scheme \<Rightarrow> 'h CreateEdgeArgs \<Rightarrow> 'h revert + 'h AssertionReferenceData" where
  "assertion_reference c args =
     bindR (revert_if (arg_proof args = []) EmptyEdgeSpecificProof) (\<lambda>_.
     bindR (abi_decode (decode_block_proof c (arg_proof args))) (\<lambda>(_, predecessorStateData, claimStateData).
     bindR (validateAssertionHash (chain_at c) (arg_claimId args) (esd_executionState claimStateData)
              (esd_prevAssertionHash claimStateData) (esd_inboxAcc claimStateData)) (\<lambda>_.
     bindR (validateAssertionHash (chain_at c) (esd_prevAssertionHash claimStateData)
              (esd_executionState predecessorStateData) (esd_prevAssertionHash predecessorStateData)
              (esd_inboxAcc predecessorStateData)) (\<lambda>_.
     bindR (isPending (chain_at c) (arg_claimId args)) (\<lambda>pending.
     bindR (getSecondChildCreationBlock (chain_at c) (esd_prevAssertionHash claimStateData)) (\<lambda>secondChild.
       Inr \<lparr>ard_assertionHash = arg_claimId args, ard_predecessorId = esd_prevAssertionHash claimStateData,
            ard_isPending = pending, ard_hasSibling = (secondChild > 0),
            ard_startState = esd_executionState predecessorStateData,
            ard_endState = esd_executionState claimStateData\<rparr>))))))"

definition take_stake ::
    "('h, 't, 'z) manager_ctx_scheme \<Rightarrow> bool \<Rightarrow> ('h, 't) EdgeChallengeManager \<Rightarrow> 'h revert + ('h, 't) EdgeChallengeManager" where
  "take_stake c rivaled s =
     (if stakeToken s \<noteq> 0 \<and> stakeAmount s \<noteq> 0 then
        let receiver = (if rivaled then excessStakeReceiver s else address_this c) in
        bindR (safeTransferFrom c (msg_sender c) receiver (stakeAmount s) (tokens s)) (\<lambda>t. Inr (s\<lparr>tokens := t\<rparr>))
      else Inr s)"

definition createLayerZeroEdge ::
    "('h::zero, 't, 'z) manager_ctx_scheme \<Rightarrow> 'h CreateEdgeArgs \<Rightarrow> ('h, 't) EdgeChallengeManager \<Rightarrow>
     'h revert + ('h \<times> ('h, 't) EdgeChallengeManager)" where
  "createLayerZeroEdge c args s =
     bindR (levelToType (arg_level args) (NUM_BIGSTEP_LEVEL s)) (\<lambda>eType.
       let expectedEndHeight = getLayerZeroEndHeight s eType in
       bindR (if eType = Block then assertion_reference c args else Inr empty_ard) (\<lambda>ard.
       bindR (store_createLayerZeroEdge c (ecm_store s) args ard (osp_at c) expectedEndHeight (NUM_BIGSTEP_LEVEL s))
         (\<lambda>(edgeAdded, store).
       bindR (take_stake c (added_hasRival edgeAdded) (s\<lparr>ecm_store := store\<rparr>)) (\<lambda>s.
         Inr (added_edgeId edgeAdded, emit (EdgeAdded edgeAdded) s)))))"

definition bisectEdge ::
    "('h::zero, 'z) store_ctx_scheme \<Rightarrow> 'h \<Rightarrow> 'h \<Rightarrow> bytes \<Rightarrow> ('h, 't) EdgeChallengeManager \<Rightarrow>
     'h revert + (('h \<times> 'h) \<times> ('h, 't) EdgeChallengeManager)" where
  "bisectEdge c edgeId bisectionHistoryRoot prefixProof s =
     bindR (store_bisectEdge c (ecm_store s) edgeId bisectionHistoryRoot prefixProof)
       (\<lambda>((lowerChildId, lowerChildAdded, upperChildAdded), store).
       let s = s\<lparr>ecm_store := store\<rparr>;
           lowerChildAlreadyExists = (added_edgeId lowerChildAdded = 0);
           s = (if \<not> lowerChildAlreadyExists then emit (EdgeAdded lowerChildAdded) s else s);
           s = emit (EdgeAdded upperChildAdded) s;
           s = emit (EdgeBisected edgeId lowerChildId (added_edgeId upperChildAdded) lowerChildAlreadyExists) s
       in Inr ((lowerChildId, added_edgeId upperChildAdded), s))"

definition confirmEdgeByChildren ::
    "('h::zero, 'z) block_ctx_scheme \<Rightarrow> 'h \<Rightarrow> ('h, 't) EdgeChallengeManager \<Rightarrow> 'h revert + ('h, 't) EdgeChallengeManager" where
  "confirmEdgeByChildren c edgeId s =
     bindR (store_confirmEdgeByChildren c (ecm_store s) edgeId) (\<lambda>store.
       Inr (emit (EdgeConfirmedByChildren edgeId (mutualId (keccak256 c) (edges_map store edgeId))) (s\<lparr>ecm_store := store\<rparr>)))"

definition confirmEdgeByClaim ::
    "('h::zero, 'z) block_ctx_scheme \<Rightarrow> 'h \<Rightarrow> 'h \<Rightarrow> ('h, 't) EdgeChallengeManager \<Rightarrow>
     'h revert + ('h, 't) EdgeChallengeManager" where
  "confirmEdgeByClaim c edgeId claimingEdgeId s =
     bindR (store_confirmEdgeByClaim c (ecm_store s) edgeId claimingEdgeId (NUM_BIGSTEP_LEVEL s)) (\<lambda>store.
       Inr (emit (EdgeConfirmedByClaim edgeId (mutualId (keccak256 c) (edges_map store edgeId)) claimingEdgeId)
              (s\<lparr>ecm_store := store\<rparr>)))"

text \<open>The blocks that the claimed assertion was without a sibling.\<close>

definition assertion_blocks ::
    "('h, 't, 'z) manager_ctx_scheme \<Rightarrow> 'h \<Rightarrow> 'h ExecutionStateData \<Rightarrow> 'h revert + uint64" where
  "assertion_blocks c claimId claimStateData =
     bindR (isFirstChild (chain_at c) claimId) (\<lambda>first.
       if first then
         bindR (validateAssertionHash (chain_at c) claimId (esd_executionState claimStateData)
                  (esd_prevAssertionHash claimStateData) (esd_inboxAcc claimStateData)) (\<lambda>_.
         bindR (getSecondChildCreationBlock (chain_at c) (esd_prevAssertionHash claimStateData)) (\<lambda>secondChild.
         bindR (getFirstChildCreationBlock (chain_at c) (esd_prevAssertionHash claimStateData)) (\<lambda>firstChild.
           checked_sub secondChild firstChild)))
       else Inr 0)"

definition confirmEdgeByTime ::
    "('h::zero, 't, 'z) manager_ctx_scheme \<Rightarrow> 'h \<Rightarrow> 'h list \<Rightarrow> 'h ExecutionStateData \<Rightarrow> ('h, 't) EdgeChallengeManager \<Rightarrow>
     'h revert + ('h, 't) EdgeChallengeManager" where
  "confirmEdgeByTime c edgeId ancestorEdges claimStateData s =
     (let lastEdgeId = (if length ancestorEdges > 0 then ancestorEdges ! (length ancestorEdges - 1) else edgeId) in
      bindR (store_get (ecm_store s) lastEdgeId) (\<lambda>topEdge.
      bindR (levelToType (ce_level topEdge) (NUM_BIGSTEP_LEVEL s)) (\<lambda>topLevelType.
      bindR (revert_if (topLevelType \<noteq> Block) (EdgeTypeNotBlock (ce_level topEdge))) (\<lambda>_.
      bindR (revert_if (\<not> isLayerZero topEdge)
               (EdgeNotLayerZero (edge_id (keccak256 c) topEdge) (ce_staker topEdge) (ce_claimId topEdge))) (\<lambda>_.
      bindR (assertion_blocks c (ce_claimId topEdge) claimStateData) (\<lambda>assertionBlocks.
      bindR (store_confirmEdgeByTime c (ecm_store s) edgeId ancestorEdges assertionBlocks (challengePeriodBlocks s)
               (NUM_BIGSTEP_LEVEL s)) (\<lambda>(totalTimeUnrivaled, store).
        Inr (emit (EdgeConfirmedByTime edgeId (mutualId (keccak256 c) (edges_map store edgeId)) totalTimeUnrivaled)
               (s\<lparr>ecm_store := store\<rparr>)))))))))"

text \<open>\<open>None\<close> is a walk to the previous assertion that does not end.\<close>

definition confirmEdgeByOneStepProof ::
    "('h::zero, 't, 'z) manager_ctx_scheme \<Rightarrow> 'h \<Rightarrow> 'h OneStepData_sol \<Rightarrow> 'h ConfigData \<Rightarrow> 'h list \<Rightarrow> 'h list \<Rightarrow>
     ('h, 't) EdgeChallengeManager \<Rightarrow> ('h revert + ('h, 't) EdgeChallengeManager) option" where
  "confirmEdgeByOneStepProof c edgeId oneStepData prevConfig beforeHistoryInclusionProof afterHistoryInclusionProof s =
     (case getPrevAssertionHash (ecm_store s) edgeId of
        None \<Rightarrow> None
      | Some prev \<Rightarrow> Some (
          bindR prev (\<lambda>prevAssertionHash.
          bindR (validateConfig (chain_at c) prevAssertionHash prevConfig) (\<lambda>_.
          bindR (chain_bridge (chain_at c)) (\<lambda>bridge.
            let execCtx = \<lparr>maxInboxMessagesRead = ucast (nextInboxPosition prevConfig), exec_bridge = bridge,
                           initialWasmModuleRoot = wasmModuleRoot prevConfig\<rparr> in
            bindR (store_confirmEdgeByOneStepProof c (ecm_store s) edgeId (osp_at c) oneStepData execCtx
                     beforeHistoryInclusionProof afterHistoryInclusionProof (NUM_BIGSTEP_LEVEL s)) (\<lambda>store.
              Inr (emit (EdgeConfirmedByOneStepProof edgeId (mutualId (keccak256 c) (edges_map store edgeId)))
                     (s\<lparr>ecm_store := store\<rparr>))))))))"

definition refundStake ::
    "('h::zero, 't, 'z) manager_ctx_scheme \<Rightarrow> 'h \<Rightarrow> ('h, 't) EdgeChallengeManager \<Rightarrow>
     'h revert + ('h, 't) EdgeChallengeManager" where
  "refundStake c edgeId s =
     bindR (store_get (ecm_store s) edgeId) (\<lambda>edge.
     bindR (setRefunded (keccak256 c) edge) (\<lambda>edge.
       let store = (ecm_store s)\<lparr>edges_map := (edges_map (ecm_store s))(edgeId := edge)\<rparr>;
           s = s\<lparr>ecm_store := store\<rparr>
       in bindR (if stakeToken s \<noteq> 0 \<and> stakeAmount s \<noteq> 0
                 then bindR (safeTransfer c (address_this c) (ce_staker edge) (stakeAmount s) (tokens s))
                        (\<lambda>t. Inr (s\<lparr>tokens := t\<rparr>))
                 else Inr s) (\<lambda>s.
            Inr (emit (EdgeRefunded edgeId (mutualId (keccak256 c) (edges_map store edgeId)) (stakeToken s) (stakeAmount s))
                   s))))"

subsection \<open>Views\<close>

definition calculateEdgeId ::
    "('h packed list \<Rightarrow> 'h) \<Rightarrow> uint8 \<Rightarrow> 'h \<Rightarrow> uint256 \<Rightarrow> 'h \<Rightarrow> uint256 \<Rightarrow> 'h \<Rightarrow> 'h" where
  "calculateEdgeId keccak level originId startHeight startHistoryRoot endHeight endHistoryRoot =
     idComponent keccak level originId startHeight startHistoryRoot endHeight endHistoryRoot"

definition calculateMutualId :: "('h packed list \<Rightarrow> 'h) \<Rightarrow> uint8 \<Rightarrow> 'h \<Rightarrow> uint256 \<Rightarrow> 'h \<Rightarrow> uint256 \<Rightarrow> 'h" where
  "calculateMutualId keccak level originId startHeight startHistoryRoot endHeight =
     mutualIdComponent keccak level originId startHeight startHistoryRoot endHeight"

definition ecm_edgeExists :: "('h, 't) EdgeChallengeManager \<Rightarrow> 'h \<Rightarrow> bool" where
  "ecm_edgeExists s edgeId = edge_exists (edges_map (ecm_store s) edgeId)"

definition ecm_getEdge :: "('h, 't) EdgeChallengeManager \<Rightarrow> 'h \<Rightarrow> 'h revert + 'h ChallengeEdge" where
  "ecm_getEdge s edgeId = store_get (ecm_store s) edgeId"

definition ecm_edgeLength ::
    "('h packed list \<Rightarrow> 'h) \<Rightarrow> ('h, 't) EdgeChallengeManager \<Rightarrow> 'h \<Rightarrow> 'h revert + uint256" where
  "ecm_edgeLength keccak s edgeId = bindR (store_get (ecm_store s) edgeId) (edge_length keccak)"

definition ecm_hasRival :: "('h::zero packed list \<Rightarrow> 'h) \<Rightarrow> ('h, 't) EdgeChallengeManager \<Rightarrow> 'h \<Rightarrow> 'h revert + bool" where
  "ecm_hasRival keccak s edgeId = hasRival keccak (ecm_store s) edgeId"

definition ecm_confirmedRival :: "('h, 't) EdgeChallengeManager \<Rightarrow> 'h \<Rightarrow> 'h" where
  "ecm_confirmedRival s mId = confirmedRivals (ecm_store s) mId"

definition ecm_hasLengthOneRival ::
    "('h::zero packed list \<Rightarrow> 'h) \<Rightarrow> ('h, 't) EdgeChallengeManager \<Rightarrow> 'h \<Rightarrow> 'h revert + bool" where
  "ecm_hasLengthOneRival keccak s edgeId = hasLengthOneRival keccak (ecm_store s) edgeId"

definition ecm_timeUnrivaled ::
    "('h::zero, 'z) block_ctx_scheme \<Rightarrow> ('h, 't) EdgeChallengeManager \<Rightarrow> 'h \<Rightarrow> 'h revert + uint64" where
  "ecm_timeUnrivaled c s edgeId = timeUnrivaled c (ecm_store s) edgeId"

definition ecm_getPrevAssertionHash :: "('h, 't) EdgeChallengeManager \<Rightarrow> 'h \<Rightarrow> ('h revert + 'h) option" where
  "ecm_getPrevAssertionHash s edgeId = getPrevAssertionHash (ecm_store s) edgeId"

definition ecm_firstRival :: "('h, 't) EdgeChallengeManager \<Rightarrow> 'h \<Rightarrow> 'h" where
  "ecm_firstRival s mId = firstRivals (ecm_store s) mId"

end
