(* ===== verification/Edge_Invariants.thy ===== *)
theory Edge_Invariants
  imports Edge_Manager_Contract
begin

text \<open>
  What holds of the store of the challenge manager in every state that its transactions reach. Every operation is
  shown to be a sequence of few kinds of changes of the store, and the invariants are proved of those.
\<close>

subsection \<open>Hashes and groups of rivals\<close>

definition good_keccak :: "('h::zero packed list \<Rightarrow> 'h) \<Rightarrow> bool" where
  "good_keccak K \<longleftrightarrow> inj K \<and> (\<forall>xs. K xs \<noteq> 0)"

lemma good_keccakD: "good_keccak K \<Longrightarrow> K xs = K ys \<longleftrightarrow> xs = ys" "good_keccak K \<Longrightarrow> K xs \<noteq> 0"
  by (auto simp: good_keccak_def inj_def)

lemma edge_id_special [simp]: "good_keccak K \<Longrightarrow> edge_id K e \<noteq> 0" "good_keccak K \<Longrightarrow> edge_id K e \<noteq> UNRIVALED K"
  "good_keccak K \<Longrightarrow> UNRIVALED K \<noteq> 0"
  by (simp_all add: edge_id_def idComponent_def UNRIVALED_def good_keccakD)

lemma mutualId_inject:
  "good_keccak K \<Longrightarrow> mutualId K e = mutualId K e' \<longleftrightarrow>
     ce_level e = ce_level e' \<and> ce_originId e = ce_originId e' \<and> ce_startHeight e = ce_startHeight e' \<and>
     ce_startHistoryRoot e = ce_startHistoryRoot e' \<and> ce_endHeight e = ce_endHeight e'"
  by (auto simp: mutualId_def mutualIdComponent_def good_keccakD)

definition present :: "'h EdgeStore \<Rightarrow> 'h \<Rightarrow> bool" where
  "present st i \<longleftrightarrow> edge_exists (edges_map st i)"

definition peers :: "('h packed list \<Rightarrow> 'h) \<Rightarrow> 'h EdgeStore \<Rightarrow> 'h \<Rightarrow> 'h set" where
  "peers K st m = {i. present st i \<and> mutualId K (edges_map st i) = m}"

text \<open>What of an edge never changes after it was added.\<close>

definition same_core :: "'h ChallengeEdge \<Rightarrow> 'h ChallengeEdge \<Rightarrow> bool" where
  "same_core e e' \<longleftrightarrow>
     ce_originId e' = ce_originId e \<and> ce_startHistoryRoot e' = ce_startHistoryRoot e \<and>
     ce_startHeight e' = ce_startHeight e \<and> ce_endHistoryRoot e' = ce_endHistoryRoot e \<and>
     ce_endHeight e' = ce_endHeight e \<and> ce_claimId e' = ce_claimId e \<and> ce_staker e' = ce_staker e \<and>
     ce_createdAtBlock e' = ce_createdAtBlock e \<and> ce_level e' = ce_level e"

lemma same_core_refl [simp]: "same_core e e"
  by (simp add: same_core_def)

lemma same_core_trans: "same_core a b \<Longrightarrow> same_core b c \<Longrightarrow> same_core a c"
  by (simp add: same_core_def)

lemma same_core_ids: "same_core e e' \<Longrightarrow> edge_id K e' = edge_id K e" "same_core e e' \<Longrightarrow> mutualId K e' = mutualId K e"
  "same_core e e' \<Longrightarrow> edge_exists e' = edge_exists e"
  by (simp_all add: same_core_def edge_id_def mutualId_def edge_exists_def)

subsection \<open>Changes of the store\<close>

definition hashes_ok :: "'h::zero ChallengeEdge \<Rightarrow> bool" where
  "hashes_ok e \<longleftrightarrow> ce_originId e \<noteq> 0 \<and> ce_startHistoryRoot e \<noteq> 0 \<and> ce_endHistoryRoot e \<noteq> 0"

definition fresh_edge :: "uint64 \<Rightarrow> 'h::zero ChallengeEdge \<Rightarrow> bool" where
  "fresh_edge T e \<longleftrightarrow>
     ce_createdAtBlock e = T \<and> T \<noteq> 0 \<and> ce_status e = Pending \<and> \<not> ce_refunded e \<and> ce_confirmedAtBlock e = 0 \<and>
     ce_lowerChildId e = 0 \<and> ce_upperChildId e = 0 \<and> ce_startHeight e < ce_endHeight e \<and> hashes_ok e"

definition rivaled :: "('h::zero packed list \<Rightarrow> 'h) \<Rightarrow> 'h EdgeStore \<Rightarrow> 'h \<Rightarrow> bool" where
  "rivaled K st m \<longleftrightarrow> firstRivals st m \<noteq> 0 \<and> firstRivals st m \<noteq> UNRIVALED K"

definition child_of :: "'h::zero ChallengeEdge \<Rightarrow> 'h ChallengeEdge \<Rightarrow> bool" where
  "child_of p e \<longleftrightarrow>
     ce_originId e = ce_originId p \<and> ce_level e = ce_level p \<and> ce_claimId e = 0 \<and> ce_staker e = 0 \<and>
     ce_startHeight p \<le> ce_startHeight e \<and> ce_endHeight e \<le> ce_endHeight p \<and>
     (ce_startHeight p < ce_startHeight e \<or> ce_endHeight e < ce_endHeight p)"

definition claims :: "('h::zero packed list \<Rightarrow> 'h) \<Rightarrow> 'h EdgeStore \<Rightarrow> 'h ChallengeEdge \<Rightarrow> bool" where
  "claims K st e \<longleftrightarrow>
     ce_level e = 0 \<or>
     present st (ce_claimId e) \<and> mutualId K (edges_map st (ce_claimId e)) = ce_originId e \<and>
     unat (ce_level e) = Suc (unat (ce_level (edges_map st (ce_claimId e)))) \<and> rivaled K st (ce_originId e) \<and>
     ce_endHeight (edges_map st (ce_claimId e)) = ce_startHeight (edges_map st (ce_claimId e)) + 1"

text \<open>
  The two children of an edge after a bisection: they share its origin and level and meet at the mandatory height.
\<close>

definition children_of ::
    "('h::zero packed list \<Rightarrow> 'h) \<Rightarrow> 'h EdgeStore \<Rightarrow> 'h ChallengeEdge \<Rightarrow> 'h \<Rightarrow> 'h \<Rightarrow> bool" where
  "children_of K st e l u \<longleftrightarrow>
     present st l \<and> present st u \<and>
     (\<exists>mid. mandatoryBisectionHeight (ce_startHeight e) (ce_endHeight e) = (Inr mid :: 'h revert + uint256) \<and>
        (let lo = edges_map st l; up = edges_map st u in
         ce_originId lo = ce_originId e \<and> ce_level lo = ce_level e \<and> ce_startHistoryRoot lo = ce_startHistoryRoot e \<and>
         ce_startHeight lo = ce_startHeight e \<and> ce_endHeight lo = mid \<and>
         ce_originId up = ce_originId e \<and> ce_level up = ce_level e \<and> ce_endHistoryRoot up = ce_endHistoryRoot e \<and>
         ce_endHeight up = ce_endHeight e \<and> ce_startHeight up = mid \<and> ce_startHistoryRoot up = ce_endHistoryRoot lo))"

text \<open>
  \<open>H\<close> gives the end height of the layer zero edges of a level; \<open>T\<close> is the block of the change.
\<close>

inductive change ::
    "('h::zero packed list \<Rightarrow> 'h) \<Rightarrow> (uint8 \<Rightarrow> uint256) \<Rightarrow> uint64 \<Rightarrow> 'h EdgeStore \<Rightarrow> 'h EdgeStore \<Rightarrow> bool"
  for K H T where
  add_zero: "store_add K st e = Inr (d, st') \<Longrightarrow> fresh_edge T e \<Longrightarrow> ce_claimId e \<noteq> 0 \<Longrightarrow> ce_staker e \<noteq> 0 \<Longrightarrow>
    ce_startHeight e = 0 \<Longrightarrow> ce_endHeight e = H (ce_level e) \<Longrightarrow> claims K st e \<Longrightarrow> change K H T st st'"
| add_child: "store_add K st e = Inr (d, st') \<Longrightarrow> fresh_edge T e \<Longrightarrow> present st p \<Longrightarrow> child_of (edges_map st p) e \<Longrightarrow>
    change K H T st st'"
| link: "present st i \<Longrightarrow> ce_lowerChildId (edges_map st i) = 0 \<Longrightarrow> ce_upperChildId (edges_map st i) = 0 \<Longrightarrow>
    children_of K st (edges_map st i) l u \<Longrightarrow>
    change K H T st (st\<lparr>edges_map := (edges_map st)(i := (edges_map st i)\<lparr>ce_lowerChildId := l, ce_upperChildId := u\<rparr>)\<rparr>)"
| confirm: "present st i \<Longrightarrow> ce_status (edges_map st i) = Pending \<Longrightarrow>
    confirmedRivals st (mutualId K (edges_map st i)) = 0 \<Longrightarrow>
    change K H T st
      (st\<lparr>edges_map := (edges_map st)(i := (edges_map st i)\<lparr>ce_status := Confirmed, ce_confirmedAtBlock := T\<rparr>),
          confirmedRivals := (confirmedRivals st)(mutualId K (edges_map st i) := i)\<rparr>)"
| refund: "present st i \<Longrightarrow> ce_status (edges_map st i) = Confirmed \<Longrightarrow> isLayerZero (edges_map st i) \<Longrightarrow>
    \<not> ce_refunded (edges_map st i) \<Longrightarrow>
    change K H T st (st\<lparr>edges_map := (edges_map st)(i := (edges_map st i)\<lparr>ce_refunded := True\<rparr>)\<rparr>)"

subsection \<open>Adding an edge\<close>

lemma store_add_Inr:
  assumes "store_add K st e = Inr (d, st')"
  defines "m \<equiv> mutualId K e"
  shows "\<not> present st (edge_id K e)" "edges_map st' = (edges_map st)(edge_id K e := e)"
    "confirmedRivals st' = confirmedRivals st"
    "firstRivals st' = (firstRivals st)(m :=
       (if firstRivals st m = 0 then UNRIVALED K else if firstRivals st m = UNRIVALED K then edge_id K e
        else firstRivals st m))"
    "added_hasRival d \<longleftrightarrow> firstRivals st m \<noteq> 0" "added_edgeId d = edge_id K e"
  using assms by (auto simp: store_add_def Let_def bindR_eq_Inr present_def mutualId_def split: if_splits)

lemma peers_add:
  assumes "store_add K st e = Inr (d, st')" "edge_exists e"
  shows "peers K st' m = (if m = mutualId K e then insert (edge_id K e) (peers K st m) else peers K st m)"
  using store_add_Inr(1,2) [OF assms(1)] assms(2) by (auto simp: peers_def present_def)

lemma present_add: "store_add K st e = Inr (d, st') \<Longrightarrow> edge_exists e \<Longrightarrow> present st' i \<longleftrightarrow> i = edge_id K e \<or> present st i"
  using store_add_Inr(2) [of K st e d st'] by (auto simp: present_def)

text \<open>The other changes keep the cores of all edges and the records of first rivals.\<close>

definition same_cores :: "'h EdgeStore \<Rightarrow> 'h EdgeStore \<Rightarrow> bool" where
  "same_cores st st' \<longleftrightarrow> (\<forall>i. same_core (edges_map st i) (edges_map st' i)) \<and> firstRivals st' = firstRivals st"

lemma same_coresD:
  assumes "same_cores st st'"
  shows "same_core (edges_map st i) (edges_map st' i)" "firstRivals st' = firstRivals st"
    "edge_id K (edges_map st' i) = edge_id K (edges_map st i)" "mutualId K (edges_map st' i) = mutualId K (edges_map st i)"
    "present st' i = present st i" "peers K st' m = peers K st m"
proof -
  have c: "same_core (edges_map st i) (edges_map st' i)" for i using assms by (simp add: same_cores_def)
  note ids = same_core_ids [OF c]
  show "same_core (edges_map st i) (edges_map st' i)" "firstRivals st' = firstRivals st"
    using assms by (simp_all add: same_cores_def)
  show "edge_id K (edges_map st' i) = edge_id K (edges_map st i)" "mutualId K (edges_map st' i) = mutualId K (edges_map st i)"
    "present st' i = present st i" "peers K st' m = peers K st m"
    by (simp_all add: ids peers_def present_def)
qed

lemma change_cases:
  assumes "change K H T st st'"
  obtains (add) e d where "store_add K st e = Inr (d, st')" "fresh_edge T e"
  | (keep) "same_cores st st'"
  using assms by cases (auto simp: same_cores_def same_core_def)

lemma fresh_edge_exists: "fresh_edge T e \<Longrightarrow> edge_exists e"
  by (auto simp: fresh_edge_def edge_exists_def)

subsection \<open>The invariant\<close>

definition ids_ok :: "('h::zero packed list \<Rightarrow> 'h) \<Rightarrow> 'h EdgeStore \<Rightarrow> bool" where
  "ids_ok K st \<longleftrightarrow> finite {i. present st i} \<and> (\<forall>i. present st i \<longrightarrow> edge_id K (edges_map st i) = i)"

definition created_ok :: "uint64 \<Rightarrow> 'h EdgeStore \<Rightarrow> bool" where
  "created_ok T st \<longleftrightarrow> (\<forall>i. ce_createdAtBlock (edges_map st i) \<le> T)"

text \<open>
  The record of a group of rivals: empty, the mark of a single edge, or the second edge of the group, which was
  created at or after the first one and at or before all the others.
\<close>

definition rivals_at :: "('h::zero packed list \<Rightarrow> 'h) \<Rightarrow> 'h EdgeStore \<Rightarrow> 'h \<Rightarrow> bool" where
  "rivals_at K st m \<longleftrightarrow>
     (let f = firstRivals st m; G = peers K st m; created = (\<lambda>i. ce_createdAtBlock (edges_map st i)) in
      if f = 0 then G = {}
      else if f = UNRIVALED K then \<exists>i. G = {i}
      else \<exists>i\<in>G. i \<noteq> f \<and> f \<in> G \<and> created i \<le> created f \<and> (\<forall>j\<in>G. j \<noteq> i \<longrightarrow> created f \<le> created j))"

definition confirmed_ok :: "('h::zero packed list \<Rightarrow> 'h) \<Rightarrow> 'h EdgeStore \<Rightarrow> bool" where
  "confirmed_ok K st \<longleftrightarrow>
     (\<forall>i. present st i \<longrightarrow>
        (ce_status (edges_map st i) = Confirmed \<longleftrightarrow> confirmedRivals st (mutualId K (edges_map st i)) = i)) \<and>
     (\<forall>m. confirmedRivals st m \<noteq> 0 \<longrightarrow> confirmedRivals st m \<in> peers K st m)"

text \<open>No hash of an edge is empty. Layer zero edges, and only they, span the whole height of their level.\<close>

definition layer_ok :: "(uint8 \<Rightarrow> uint256) \<Rightarrow> 'h::zero ChallengeEdge \<Rightarrow> bool" where
  "layer_ok H e \<longleftrightarrow>
     hashes_ok e \<and> ce_startHeight e < ce_endHeight e \<and> ce_endHeight e \<le> H (ce_level e) \<and> (ce_claimId e \<noteq> 0 \<longleftrightarrow> ce_staker e \<noteq> 0) \<and>
     (ce_claimId e \<noteq> 0 \<longleftrightarrow> ce_startHeight e = 0 \<and> ce_endHeight e = H (ce_level e))"

text \<open>The origin of an edge above the lowest level is a group of rivals in the level below.\<close>

definition origin_ok :: "('h::zero packed list \<Rightarrow> 'h) \<Rightarrow> 'h EdgeStore \<Rightarrow> 'h ChallengeEdge \<Rightarrow> bool" where
  "origin_ok K st e \<longleftrightarrow>
     ce_level e = 0 \<or>
     rivaled K st (ce_originId e) \<and>
     (\<exists>j\<in>peers K st (ce_originId e). unat (ce_level e) = Suc (unat (ce_level (edges_map st j))))"

definition store_ok :: "('h::zero packed list \<Rightarrow> 'h) \<Rightarrow> (uint8 \<Rightarrow> uint256) \<Rightarrow> uint64 \<Rightarrow> 'h EdgeStore \<Rightarrow> bool" where
  "store_ok K H T st \<longleftrightarrow>
     ids_ok K st \<and> created_ok T st \<and> (\<forall>m. rivals_at K st m) \<and> confirmed_ok K st \<and>
     (\<forall>i. present st i \<longrightarrow> layer_ok H (edges_map st i) \<and> origin_ok K st (edges_map st i) \<and>
        (ce_claimId (edges_map st i) \<noteq> 0 \<longrightarrow> claims K st (edges_map st i)) \<and>
        (ce_lowerChildId (edges_map st i) = 0 \<and> ce_upperChildId (edges_map st i) = 0 \<or>
         children_of K st (edges_map st i) (ce_lowerChildId (edges_map st i)) (ce_upperChildId (edges_map st i))) \<and>
        (ce_refunded (edges_map st i) \<longrightarrow> ce_status (edges_map st i) = Confirmed \<and> isLayerZero (edges_map st i)))"

lemma store_okD:
  assumes "store_ok K H T st"
  shows "ids_ok K st" "created_ok T st" "rivals_at K st m" "confirmed_ok K st"
    "present st i \<Longrightarrow> edge_id K (edges_map st i) = i"
    "present st i \<Longrightarrow> layer_ok H (edges_map st i)" "present st i \<Longrightarrow> origin_ok K st (edges_map st i)"
    "present st i \<Longrightarrow> ce_claimId (edges_map st i) \<noteq> 0 \<Longrightarrow> claims K st (edges_map st i)"
    "present st i \<Longrightarrow> ce_lowerChildId (edges_map st i) = 0 \<and> ce_upperChildId (edges_map st i) = 0 \<or>
       children_of K st (edges_map st i) (ce_lowerChildId (edges_map st i)) (ce_upperChildId (edges_map st i))"
    "present st i \<Longrightarrow> ce_refunded (edges_map st i) \<Longrightarrow> ce_status (edges_map st i) = Confirmed \<and> isLayerZero (edges_map st i)"
  using assms by (simp_all add: store_ok_def ids_ok_def)

lemma empty_store_ok: "store_ok K H T empty_store"
  by (simp add: store_ok_def ids_ok_def created_ok_def rivals_at_def confirmed_ok_def peers_def present_def empty_store_def
      no_edge_def edge_exists_def)

lemma store_ok_later: "store_ok K H T st \<Longrightarrow> T \<le> T' \<Longrightarrow> store_ok K H T' st"
  unfolding store_ok_def created_ok_def by (meson order_trans)

subsection \<open>Each change keeps it\<close>

lemma ids_ok_change: "change K H T st st' \<Longrightarrow> ids_ok K st \<Longrightarrow> ids_ok K st'"
proof (erule change_cases)
  fix e d assume add: "store_add K st e = Inr (d, st')" "fresh_edge T e" and ok: "ids_ok K st"
  have "{i. present st' i} = insert (edge_id K e) {i. present st i}"
    using present_add [OF add(1) fresh_edge_exists [OF add(2)]] by auto
  with ok add store_add_Inr(2) [OF add(1)] show "ids_ok K st'"
    by (auto simp: ids_ok_def present_add [OF add(1) fresh_edge_exists [OF add(2)]])
qed (simp add: ids_ok_def same_coresD)

lemma created_ok_change: "change K H T st st' \<Longrightarrow> created_ok T st \<Longrightarrow> created_ok T st'"
proof (erule change_cases)
  fix e d assume "store_add K st e = Inr (d, st')" "fresh_edge T e" "created_ok T st"
  then show "created_ok T st'" by (simp add: created_ok_def store_add_Inr(2) fresh_edge_def)
next
  assume "same_cores st st'" "created_ok T st"
  then show "created_ok T st'" using same_coresD(1) by (fastforce simp: created_ok_def same_core_def)
qed

lemma rivals_at_cong:
  assumes "firstRivals st' m = firstRivals st m" "peers K st' m = peers K st m"
    "\<And>i. i \<in> peers K st m \<Longrightarrow> ce_createdAtBlock (edges_map st' i) = ce_createdAtBlock (edges_map st i)"
  shows "rivals_at K st' m = rivals_at K st m"
  using assms(3) by (auto simp: rivals_at_def Let_def assms(1,2))

lemma rivals_at_change:
  assumes K: "good_keccak K" and ch: "change K H T st st'" and created: "created_ok T st" and ok: "\<And>m. rivals_at K st m"
  shows "rivals_at K st' m"
  using ch
proof (cases rule: change_cases)
  case (add e d)
  note S = store_add_Inr [OF add(1)]
  have ex: "edge_exists e" using add(2) by (rule fresh_edge_exists)
  have T: "ce_createdAtBlock (edges_map st i) \<le> ce_createdAtBlock e" for i
    using created add(2) by (simp add: created_ok_def fresh_edge_def)
  have new: "edge_id K e \<notin> peers K st m'" for m' using S(1) by (simp add: peers_def)
  show ?thesis
  proof (cases "m = mutualId K e")
    case False
    then have "rivals_at K st' m = rivals_at K st m"
      using new by (intro rivals_at_cong) (auto simp: S peers_add [OF add(1) ex])
    with ok show ?thesis by simp
  next
    case True
    let ?x = "edge_id K e" and ?f = "firstRivals st m"
    have P': "peers K st' m = insert ?x (peers K st m)" using True by (simp add: peers_add [OF add(1) ex])
    have at: "edges_map st' ?x = e" "i \<in> peers K st m \<Longrightarrow> edges_map st' i = edges_map st i" for i
      using new by (auto simp: S)
    consider "?f = 0" | "?f = UNRIVALED K" | "?f \<noteq> 0" "?f \<noteq> UNRIVALED K" by blast
    then show ?thesis
    proof cases
      case 1
      with ok [of m] have "peers K st m = {}" by (simp add: rivals_at_def Let_def)
      with 1 P' True K show ?thesis by (simp add: rivals_at_def Let_def S)
    next
      case 2
      with ok [of m] K obtain i where i: "peers K st m = {i}" by (auto simp: rivals_at_def Let_def)
      then have "i \<noteq> ?x" using new [of m] by auto
      with 2 P' i at T K True show ?thesis by (auto simp: rivals_at_def Let_def S)
    next
      case 3
      with ok [of m] obtain i where i: "i \<in> peers K st m" "i \<noteq> ?f" "?f \<in> peers K st m"
          "ce_createdAtBlock (edges_map st i) \<le> ce_createdAtBlock (edges_map st ?f)"
          "\<And>j. j \<in> peers K st m \<Longrightarrow> j \<noteq> i \<Longrightarrow> ce_createdAtBlock (edges_map st ?f) \<le> ce_createdAtBlock (edges_map st j)"
        by (auto simp: rivals_at_def Let_def)
      have f': "firstRivals st' m = ?f" using 3 True by (simp add: S)
      show ?thesis unfolding rivals_at_def Let_def f' P' using 3 i at T by (auto intro!: bexI [of _ i])
    qed
  qed
next
  case keep
  have "rivals_at K st' m = rivals_at K st m"
  proof (rule rivals_at_cong)
    show "ce_createdAtBlock (edges_map st' i) = ce_createdAtBlock (edges_map st i)" for i
      using same_coresD(1) [OF keep] by (simp add: same_core_def)
  qed (simp_all add: same_coresD [OF keep])
  with ok show ?thesis by simp
qed

lemma confirmed_ok_change:
  assumes K: "good_keccak K" and ch: "change K H T st st'" and ids: "ids_ok K st" and ok: "confirmed_ok K st"
  shows "confirmed_ok K st'"
proof -
  have nz: "i \<noteq> 0" if "present st i" for i
  proof -
    have "edge_id K (edges_map st i) = i" using ids that by (simp add: ids_ok_def)
    with edge_id_special(1) [OF K, of "edges_map st i"] show ?thesis by simp
  qed
  have new: "confirmed_ok K st'" if add: "store_add K st e = Inr (d, st')" "fresh_edge T e" for e d
  proof -
    note S = store_add_Inr [OF add(1)] and ex = fresh_edge_exists [OF add(2)]
    have "confirmedRivals st m \<noteq> edge_id K e" for m
    proof (cases "confirmedRivals st m = 0")
      case False
      then have "present st (confirmedRivals st m)" using ok by (auto simp: confirmed_ok_def peers_def)
      with S(1) show ?thesis by auto
    qed (use edge_id_special(1) [OF K, of e] in simp)
    then show ?thesis
      using ok add(2) by (auto simp: confirmed_ok_def S present_add [OF add(1) ex] peers_add [OF add(1) ex] fresh_edge_def)
  qed
  from ch show ?thesis
  proof cases
    case (add_zero e d)
    then show ?thesis by (intro new)
  next
    case (add_child e d p)
    then show ?thesis by (intro new)
  next
    case (link i l u)
    have sc: "same_cores st st'" unfolding link by (simp add: same_cores_def same_core_def)
    show ?thesis using ok unfolding confirmed_ok_def same_coresD(4-6) [OF sc] by (auto simp: link)
  next
    case (confirm i)
    have sc: "same_cores st st'" unfolding confirm by (simp add: same_cores_def same_core_def)
    have "ce_status (edges_map st j) \<noteq> Confirmed" if "present st j" "mutualId K (edges_map st j) = mutualId K (edges_map st i)" for j
      using ok that confirm(4) nz [OF that(1)] by (auto simp: confirmed_ok_def)
    then show ?thesis
      using ok confirm(2) unfolding confirmed_ok_def same_coresD(4-6) [OF sc]
      by (auto simp: confirm peers_def)
  next
    case (refund i)
    have sc: "same_cores st st'" unfolding refund by (simp add: same_cores_def same_core_def)
    show ?thesis using ok refund(2,3) unfolding confirmed_ok_def same_coresD(4-6) [OF sc] by (auto simp: refund(1))
  qed
qed

lemma change_grows:
  assumes K: "good_keccak K" and "change K H T st st'"
  shows "(present st i \<longrightarrow> present st' i \<and> same_core (edges_map st i) (edges_map st' i)) \<and> (rivaled K st m \<longrightarrow> rivaled K st' m)"
  using assms(2)
proof (cases rule: change_cases)
  case (add e d)
  note S = store_add_Inr [OF add(1)] and ex = fresh_edge_exists [OF add(2)]
  then show ?thesis using K by (auto simp: present_add [OF add(1) ex] rivaled_def S(2,4))
qed (simp add: same_coresD rivaled_def)

lemma same_core_fields:
  assumes "same_core e e'"
  shows "ce_originId e' = ce_originId e" "ce_startHistoryRoot e' = ce_startHistoryRoot e"
    "ce_startHeight e' = ce_startHeight e" "ce_endHistoryRoot e' = ce_endHistoryRoot e"
    "ce_endHeight e' = ce_endHeight e" "ce_claimId e' = ce_claimId e" "ce_staker e' = ce_staker e"
    "ce_createdAtBlock e' = ce_createdAtBlock e" "ce_level e' = ce_level e"
  using assms by (simp_all add: same_core_def)

text \<open>What is said of an edge and of the edges it refers to stays true as the store grows.\<close>

lemma grows_edge:
  assumes g: "\<And>i. present st i \<Longrightarrow> present st' i \<and> same_core (edges_map st i) (edges_map st' i)"
    "\<And>m. rivaled K st m \<Longrightarrow> rivaled K st' m" and e: "same_core e e'"
  shows "layer_ok H e \<Longrightarrow> layer_ok H e'" "origin_ok K st e \<Longrightarrow> origin_ok K st' e'" "claims K st e \<Longrightarrow> claims K st' e'"
    "children_of K st e l u \<Longrightarrow> children_of K st' e' l u" "isLayerZero e' = isLayerZero e"
proof -
  note F = same_core_fields [OF e]
  have g1: "present st' i" "edges_map st' i = edges_map st' i \<and> mutualId K (edges_map st' i) = mutualId K (edges_map st i)"
    if "present st i" for i using g(1) [OF that] same_core_ids(2) by auto
  note G = same_core_fields [OF conjunct2 [OF g(1)]]
  show "layer_ok H e \<Longrightarrow> layer_ok H e'" "isLayerZero e' = isLayerZero e"
    unfolding layer_ok_def hashes_ok_def isLayerZero_def F by auto
  show "claims K st e \<Longrightarrow> claims K st' e'" using g(2) g1 by (auto simp: claims_def F G)
  show "children_of K st e l u \<Longrightarrow> children_of K st' e' l u" using g1(1) by (auto simp: children_of_def F G Let_def)
  show "origin_ok K st' e'" if o: "origin_ok K st e"
  proof (cases "ce_level e = 0")
    case False
    with o obtain j where "rivaled K st (ce_originId e)" "j \<in> peers K st (ce_originId e)"
        "unat (ce_level e) = Suc (unat (ce_level (edges_map st j)))" by (auto simp: origin_ok_def)
    moreover from this have "j \<in> peers K st' (ce_originId e)" "ce_level (edges_map st' j) = ce_level (edges_map st j)"
      using g1 G(9) by (auto simp: peers_def)
    ultimately show ?thesis unfolding origin_ok_def F using g(2) by metis
  qed (simp add: origin_ok_def F)
qed

lemma change_edge:
  assumes "good_keccak K" "change K H' T st st'" "same_core e e'"
  shows "layer_ok H e \<Longrightarrow> layer_ok H e'" "origin_ok K st e \<Longrightarrow> origin_ok K st' e'" "claims K st e \<Longrightarrow> claims K st' e'"
    "children_of K st e l u \<Longrightarrow> children_of K st' e' l u" "isLayerZero e' = isLayerZero e"
  using grows_edge [of st st' K e e', OF _ _ assms(3)] change_grows [OF assms(1,2)] by blast+

definition edge_ok :: "('h::zero packed list \<Rightarrow> 'h) \<Rightarrow> (uint8 \<Rightarrow> uint256) \<Rightarrow> 'h EdgeStore \<Rightarrow> 'h ChallengeEdge \<Rightarrow> bool" where
  "edge_ok K H st e \<longleftrightarrow>
     layer_ok H e \<and> origin_ok K st e \<and> (ce_claimId e \<noteq> 0 \<longrightarrow> claims K st e) \<and>
     (ce_lowerChildId e = 0 \<and> ce_upperChildId e = 0 \<or> children_of K st e (ce_lowerChildId e) (ce_upperChildId e)) \<and>
     (ce_refunded e \<longrightarrow> ce_status e = Confirmed \<and> isLayerZero e)"

lemma change_edge_ok:
  assumes ch: "good_keccak K" "change K H T st st'" and e: "same_core e e'" and ok: "edge_ok K H st e"
    and "ce_lowerChildId e' = ce_lowerChildId e" "ce_upperChildId e' = ce_upperChildId e"
    and "ce_refunded e' \<longrightarrow> ce_status e' = Confirmed \<and> isLayerZero e'"
  shows "edge_ok K H st' e'"
  using ok assms(5-) change_edge [OF ch e] same_core_fields(6) [OF e] unfolding edge_ok_def by auto

lemma store_ok_edge_ok:
  "store_ok K H T st \<longleftrightarrow>
     ids_ok K st \<and> created_ok T st \<and> (\<forall>m. rivals_at K st m) \<and> confirmed_ok K st \<and>
     (\<forall>i. present st i \<longrightarrow> edge_ok K H st (edges_map st i))"
  by (simp add: store_ok_def edge_ok_def)

lemma child_layer_ok:
  "layer_ok H p \<Longrightarrow> child_of p e \<Longrightarrow> ce_startHeight e < ce_endHeight e \<Longrightarrow> hashes_ok e \<Longrightarrow> layer_ok H e"
  unfolding layer_ok_def child_of_def by (auto simp: word_less_nat_alt word_le_nat_alt)

lemma new_edge_ok:
  assumes K: "good_keccak K" and ch: "change K H T st st'" and ok: "\<And>i. present st i \<Longrightarrow> edge_ok K H st (edges_map st i)"
    and new: "fresh_edge T e" and kind: "ce_claimId e \<noteq> 0 \<and> ce_staker e \<noteq> 0 \<and> ce_startHeight e = 0 \<and>
      ce_endHeight e = H (ce_level e) \<and> claims K st e \<or> (\<exists>p. present st p \<and> child_of (edges_map st p) e)"
  shows "edge_ok K H st' e"
proof -
  note grow = change_edge [OF K ch same_core_refl]
  have fresh: "ce_lowerChildId e = 0" "ce_upperChildId e = 0" "\<not> ce_refunded e" "ce_startHeight e < ce_endHeight e"
    "hashes_ok e" using new by (simp_all add: fresh_edge_def)
  from kind show ?thesis
  proof
    assume z: "ce_claimId e \<noteq> 0 \<and> ce_staker e \<noteq> 0 \<and> ce_startHeight e = 0 \<and> ce_endHeight e = H (ce_level e) \<and> claims K st e"
    then have "origin_ok K st e" by (auto simp: claims_def origin_ok_def peers_def)
    with z fresh grow(2,3) show ?thesis by (auto simp: edge_ok_def layer_ok_def)
  next
    assume "\<exists>p. present st p \<and> child_of (edges_map st p) e"
    then obtain p where p: "present st p" "child_of (edges_map st p) e" by blast
    have pk: "layer_ok H (edges_map st p)" "origin_ok K st (edges_map st p)" using ok [OF p(1)] by (simp_all add: edge_ok_def)
    from pk(2) p(2) have "origin_ok K st e" by (simp add: origin_ok_def child_of_def)
    moreover have "ce_claimId e = 0" using p(2) by (simp add: child_of_def)
    ultimately show ?thesis using child_layer_ok [OF pk(1) p(2) fresh(4,5)] fresh grow(2) by (simp add: edge_ok_def)
  qed
qed

lemma edge_ok_change:
  assumes K: "good_keccak K" and ch: "change K H T st st'" and ok: "\<And>i. present st i \<Longrightarrow> edge_ok K H st (edges_map st i)"
    and i: "present st' i"
  shows "edge_ok K H st' (edges_map st' i)"
proof -
  note grow = change_edge_ok [OF K ch]
  have new: "edge_ok K H st' (edges_map st' i)" if "store_add K st e = Inr (d, st')" "fresh_edge T e" "edge_ok K H st' e" for e d
  proof (cases "i = edge_id K e")
    case True
    then show ?thesis using that store_add_Inr(2) [OF that(1)] by simp
  next
    case False
    with i that have "present st i" "edges_map st' i = edges_map st i"
      using present_add [OF that(1) fresh_edge_exists [OF that(2)]] store_add_Inr(2) [OF that(1)] by auto
    moreover from this ok [of i] have "edge_ok K H st' (edges_map st i)" by (intro grow) (auto simp: edge_ok_def)
    ultimately show ?thesis by simp
  qed
  from ch show ?thesis
  proof cases
    case (add_zero e d)
    then show ?thesis by (intro new new_edge_ok [OF K ch ok]) auto
  next
    case (add_child e d p)
    then show ?thesis by (intro new new_edge_ok [OF K ch ok]) auto
  next
    case (link j l u)
    have "same_cores st st'" unfolding link by (simp add: same_cores_def same_core_def)
    then have pr: "present st i" using i by (simp add: same_coresD)
    show ?thesis
    proof (cases "i = j")
      case True
      have sc: "same_core (edges_map st j) (edges_map st' j)" unfolding link by (simp add: same_core_def)
      note G = change_edge [OF K ch sc]
      have "children_of K st' (edges_map st' j) l u" using link(5) by (rule G(4))
      then show ?thesis using ok [OF pr] True G(1-3,5) same_core_fields [OF sc] by (auto simp: edge_ok_def link(1))
    next
      case False
      then have "edges_map st' i = edges_map st i" by (simp add: link)
      then show ?thesis using grow [OF same_core_refl ok [OF pr]] ok [OF pr] by (simp add: edge_ok_def)
    qed
  next
    case (confirm j)
    have "same_cores st st'" unfolding confirm by (simp add: same_cores_def same_core_def)
    then have pr: "present st i" and sc: "same_core (edges_map st i) (edges_map st' i)" using i by (simp_all add: same_coresD)
    have "ce_lowerChildId (edges_map st' i) = ce_lowerChildId (edges_map st i)" "ce_upperChildId (edges_map st' i) = ce_upperChildId (edges_map st i)"
      "ce_refunded (edges_map st' i) \<longrightarrow> ce_status (edges_map st' i) = Confirmed \<and> isLayerZero (edges_map st' i)"
      using ok [OF pr] change_edge(5) [OF K ch sc] by (auto simp: confirm edge_ok_def)
    then show ?thesis by (rule grow [OF sc ok [OF pr]])
  next
    case (refund j)
    have "same_cores st st'" unfolding refund by (simp add: same_cores_def same_core_def)
    then have pr: "present st i" and sc: "same_core (edges_map st i) (edges_map st' i)" using i by (simp_all add: same_coresD)
    have "ce_lowerChildId (edges_map st' i) = ce_lowerChildId (edges_map st i)" "ce_upperChildId (edges_map st' i) = ce_upperChildId (edges_map st i)"
      "ce_refunded (edges_map st' i) \<longrightarrow> ce_status (edges_map st' i) = Confirmed \<and> isLayerZero (edges_map st' i)"
      using ok [OF pr] change_edge(5) [OF K ch sc] refund(3,4) by (auto simp: refund(1) edge_ok_def isLayerZero_def)
    then show ?thesis by (rule grow [OF sc ok [OF pr]])
  qed
qed

lemma store_ok_change:
  assumes "good_keccak K" "change K H T st st'" "store_ok K H T st"
  shows "store_ok K H T st'"
  using assms ids_ok_change [OF assms(2)] created_ok_change [OF assms(2)] rivals_at_change [OF assms(1,2)]
    confirmed_ok_change [OF assms(1,2)] edge_ok_change [OF assms(1,2)]
  unfolding store_ok_edge_ok by blast

lemma store_ok_changes:
  "(change K H T)\<^sup>*\<^sup>* st st' \<Longrightarrow> good_keccak K \<Longrightarrow> store_ok K H T st \<Longrightarrow> store_ok K H T st'"
  by (induction rule: rtranclp_induct) (auto intro: store_ok_change)

subsection \<open>Operations are sequences of changes\<close>

lemma levelToType_Block: "levelToType level n = Inr Block \<longleftrightarrow> level = 0"
  by (auto simp: levelToType_def bindR_eq_Inr split: if_splits)

lemma nextEdgeLevel_Inr: "nextEdgeLevel level n = Inr next' \<Longrightarrow> unat next' = Suc (unat level)"
  by (auto simp: nextEdgeLevel_def bindR_eq_Inr dest: unat_checked_add)

lemma edge_length_Inr: "edge_length K e = Inr len \<Longrightarrow> ce_endHeight e = ce_startHeight e + len"
  by (auto simp: edge_length_def bindR_eq_Inr checked_sub_Inr)

lemma hasLengthOneRival_True:
  "hasLengthOneRival K st i = Inr True \<Longrightarrow>
     present st i \<and> rivaled K st (mutualId K (edges_map st i)) \<and>
     ce_endHeight (edges_map st i) = ce_startHeight (edges_map st i) + 1"
  by (auto simp: hasLengthOneRival_def hasRival_def bindR_eq_Inr Let_def present_def rivaled_def split: if_splits
      dest: edge_length_Inr)

lemma step_edge_checks_Inr:
  assumes "step_edge_checks c st args n = Inr (pd, originId)"
  shows "present st (arg_claimId args) \<and> originId = mutualId (keccak256 c) (edges_map st (arg_claimId args)) \<and>
    rivaled (keccak256 c) st originId \<and>
    unat (arg_level args) = Suc (unat (ce_level (edges_map st (arg_claimId args)))) \<and>
    ce_endHeight (edges_map st (arg_claimId args)) = ce_startHeight (edges_map st (arg_claimId args)) + 1"
  using assms hasLengthOneRival_True [of "keccak256 c" st "arg_claimId args"] nextEdgeLevel_Inr
  by (auto simp: step_edge_checks_def bindR_eq_Inr Let_def getNoCheck_def split: prod.splits)

lemma toLayerZeroEdge_Inr:
  assumes "toLayerZeroEdge c originId r args = Inr e"
  shows "ce_originId e = originId \<and> ce_startHistoryRoot e = r \<and> ce_startHeight e = 0 \<and>
    ce_endHistoryRoot e = arg_endHistoryRoot args \<and> ce_endHeight e = arg_endHeight args \<and>
    ce_claimId e = arg_claimId args \<and> ce_claimId e \<noteq> 0 \<and> ce_staker e = msg_sender c \<and> ce_staker e \<noteq> 0 \<and>
    ce_level e = arg_level args \<and> ce_createdAtBlock e = this_block c \<and> ce_status e = Pending \<and> \<not> ce_refunded e \<and>
    ce_confirmedAtBlock e = 0 \<and> ce_lowerChildId e = 0 \<and> ce_upperChildId e = 0 \<and> ce_startHeight e < ce_endHeight e \<and>
    hashes_ok e"
  using assms by (auto simp: hashes_ok_def toLayerZeroEdge_def newLayerZeroEdge_def newEdgeChecks_def bindR_eq_Inr not_le word_gt_0)

lemma store_createLayerZeroEdge_Inr:
  fixes st :: "'h::zero EdgeStore"
  assumes "store_createLayerZeroEdge c st args ard osp (H (arg_level args)) n = Inr (d, st')" "this_block c \<noteq> 0"
  obtains e where "store_add (keccak256 c) st e = Inr (d, st')" "fresh_edge (this_block c) e" "ce_claimId e \<noteq> 0"
    "ce_staker e = msg_sender c" "ce_staker e \<noteq> 0" "ce_startHeight e = 0" "ce_endHeight e = H (ce_level e)"
    "claims (keccak256 c) st e"
proof -
  from assms(1) obtain pd originId r e where
      ch: "layerZeroTypeSpecificChecks c st args ard osp n = Inr (pd, originId)"
        "layerZeroCommonChecks c pd args (H (arg_level args)) = Inr r"
        "toLayerZeroEdge c originId r args = Inr e" "store_add (keccak256 c) st e = Inr (d, st')"
    by (auto simp: store_createLayerZeroEdge_def bindR_eq_Inr)
  note E = toLayerZeroEdge_Inr [OF ch(3)]
  have height: "arg_endHeight args = H (arg_level args)" using ch(2) by (auto simp: layerZeroCommonChecks_def bindR_eq_Inr)
  from ch(1) obtain t where t: "levelToType (arg_level args) n = (Inr t :: 'h revert + EdgeType)"
      "t = Block \<or> step_edge_checks c st args n = Inr (pd, originId)"
    by (auto simp: layerZeroTypeSpecificChecks_def bindR_eq_Inr split: if_splits)
  have "claims (keccak256 c) st e"
  proof (cases "t = Block")
    case True
    then show ?thesis using t(1) E by (auto simp: claims_def levelToType_Block)
  next
    case False
    then show ?thesis using t(2) step_edge_checks_Inr [of c st args n pd originId] E by (auto simp: claims_def)
  qed
  moreover have "fresh_edge (this_block c) e" using E assms(2) unfolding fresh_edge_def by blast
  ultimately show ?thesis using E height by (intro that [OF ch(4)]) auto
qed

lemma store_createLayerZeroEdge_change:
  fixes st :: "'h::zero EdgeStore"
  assumes "store_createLayerZeroEdge c st args ard osp (H (arg_level args)) n = Inr (d, st')" "this_block c \<noteq> 0"
  shows "change (keccak256 c) H (this_block c) st st'"
proof -
  obtain e where
    "store_add (keccak256 c) st e = Inr (d, st')" "fresh_edge (this_block c) e" "ce_claimId e \<noteq> 0" "ce_staker e \<noteq> 0"
    "ce_startHeight e = 0" "ce_endHeight e = H (ce_level e)" "claims (keccak256 c) st e"
    using store_createLayerZeroEdge_Inr [of c st args ard osp H n d st'] assms by metis
  then show ?thesis by (rule add_zero)
qed

lemma newChildEdge_Inr:
  assumes "newChildEdge c originId sr sh er eh level = Inr e"
  shows "e = \<lparr>ce_originId = originId, ce_startHistoryRoot = sr, ce_startHeight = sh, ce_endHistoryRoot = er,
      ce_endHeight = eh, ce_lowerChildId = 0, ce_upperChildId = 0, ce_claimId = 0, ce_staker = 0,
      ce_createdAtBlock = this_block c, ce_confirmedAtBlock = 0, ce_status = Pending, ce_level = level,
      ce_refunded = False\<rparr> \<and> sh < eh \<and> hashes_ok e"
  using assms by (auto simp: hashes_ok_def newChildEdge_def newEdgeChecks_def bindR_eq_Inr not_le)

lemma edge_id_inject:
  "good_keccak K \<Longrightarrow> edge_id K e = edge_id K e' \<longleftrightarrow>
     ce_level e = ce_level e' \<and> ce_originId e = ce_originId e' \<and> ce_startHeight e = ce_startHeight e' \<and>
     ce_startHistoryRoot e = ce_startHistoryRoot e' \<and> ce_endHeight e = ce_endHeight e' \<and>
     ce_endHistoryRoot e = ce_endHistoryRoot e'"
  by (auto simp: edge_id_def idComponent_def mutualIdComponent_def good_keccakD)

lemma hasRival_True: "hasRival K st i = Inr True \<Longrightarrow> present st i \<and> rivaled K st (mutualId K (edges_map st i))"
  by (auto simp: hasRival_def bindR_eq_Inr Let_def present_def rivaled_def)

lemma setChildren_Inr:
  "setChildren K e l u = Inr e' \<longleftrightarrow> ce_lowerChildId e = 0 \<and> ce_upperChildId e = 0 \<and>
     e' = e\<lparr>ce_lowerChildId := l, ce_upperChildId := u\<rparr>"
  by (auto simp: setChildren_def bindR_eq_Inr)

text \<open>What a bisection that succeeds has computed.\<close>

lemma store_bisectEdge_Inr:
  fixes st :: "'h::zero EdgeStore"
  assumes "store_bisectEdge c st i r pfx = Inr ((l, la, ua), st')"
  defines "K \<equiv> keccak256 c"
  defines "ce \<equiv> edges_map st i"
  obtains mid lo up st1 st2 where "present st i" "rivaled K st (mutualId K ce)" "ce_status ce = Pending"
    "mandatoryBisectionHeight (ce_startHeight ce) (ce_endHeight ce) = (Inr mid :: 'h revert + uint256)"
    "newChildEdge c (ce_originId ce) (ce_startHistoryRoot ce) (ce_startHeight ce) r mid (ce_level ce) = Inr lo"
    "newChildEdge c (ce_originId ce) r mid (ce_endHistoryRoot ce) (ce_endHeight ce) (ce_level ce) = Inr up"
    "add_lower_child K st lo = Inr (la, st1)" "store_add K st1 up = Inr (ua, st2)" "l = edge_id K lo"
    "ce_lowerChildId (edges_map st2 i) = 0" "ce_upperChildId (edges_map st2 i) = 0"
    "st' = st2\<lparr>edges_map := (edges_map st2)(i := (edges_map st2 i)\<lparr>ce_lowerChildId := l, ce_upperChildId := edge_id K up\<rparr>)\<rparr>"
proof -
  from assms(1) obtain mid lo up st1 st2 e' where *: "ce_status ce = Pending" "hasRival K st i = Inr True"
    "mandatoryBisectionHeight (ce_startHeight ce) (ce_endHeight ce) = (Inr mid :: 'h revert + uint256)"
    "newChildEdge c (ce_originId ce) (ce_startHistoryRoot ce) (ce_startHeight ce) r mid (ce_level ce) = Inr lo"
    "newChildEdge c (ce_originId ce) r mid (ce_endHistoryRoot ce) (ce_endHeight ce) (ce_level ce) = Inr up"
    "add_lower_child K st lo = Inr (la, st1)" "store_add K st1 up = Inr (ua, st2)"
    "l = edge_id K lo" "setChildren K (edges_map st2 i) l (added_edgeId ua) = Inr e'"
    "st' = st2\<lparr>edges_map := (edges_map st2)(i := e')\<rparr>"
    by (auto simp: store_bisectEdge_def bindR_eq_Inr Let_def getNoCheck_def K_def ce_def)
  have "added_edgeId ua = edge_id K up" using store_add_Inr(6) [OF *(7)] .
  with * show ?thesis
    using hasRival_True [OF *(2)] unfolding setChildren_Inr ce_def [symmetric] by (intro that) auto
qed

lemma add_lower_child_changes:
  assumes add: "add_lower_child K st lo = Inr (la, st1)" and "fresh_edge T lo" "present st p" "child_of (edges_map st p) lo"
  shows "(change K H T)\<^sup>*\<^sup>* st st1" "present st1 (edge_id K lo)"
    "edge_exists (edges_map st (edge_id K lo)) \<or> edges_map st1 (edge_id K lo) = lo"
    "edge_exists (edges_map st (edge_id K lo)) \<Longrightarrow> st1 = st"
proof -
  show "(change K H T)\<^sup>*\<^sup>* st st1"
    using add add_child [of K st lo la st1 T p H] assms(2-) by (auto simp: add_lower_child_def split: if_splits)
  show "present st1 (edge_id K lo)" "edge_exists (edges_map st (edge_id K lo)) \<or> edges_map st1 (edge_id K lo) = lo"
    "edge_exists (edges_map st (edge_id K lo)) \<Longrightarrow> st1 = st"
    using add fresh_edge_exists [OF assms(2)] store_add_Inr(2) [of K st lo la st1]
    by (auto simp: add_lower_child_def present_def split: if_splits)
qed

lemma store_bisectEdge_changes:
  fixes st :: "'h::zero EdgeStore"
  assumes K: "good_keccak (keccak256 c)" and ok: "store_ok (keccak256 c) H T st" and T: "T = this_block c" "T \<noteq> 0"
    and b: "store_bisectEdge c st i r pfx = Inr ((l, la, ua), st')"
  shows "(change (keccak256 c) H T)\<^sup>*\<^sup>* st st'"
proof -
  let ?K = "keccak256 c" and ?ce = "edges_map st i"
  obtain mid lo up st1 st2 where i: "present st i"
    and mid: "mandatoryBisectionHeight (ce_startHeight ?ce) (ce_endHeight ?ce) = (Inr mid :: 'h revert + uint256)"
    and kids: "newChildEdge c (ce_originId ?ce) (ce_startHistoryRoot ?ce) (ce_startHeight ?ce) r mid (ce_level ?ce) = Inr lo"
      "newChildEdge c (ce_originId ?ce) r mid (ce_endHistoryRoot ?ce) (ce_endHeight ?ce) (ce_level ?ce) = Inr up"
    and adds: "add_lower_child ?K st lo = Inr (la, st1)" "store_add ?K st1 up = Inr (ua, st2)" "l = edge_id ?K lo"
    and fin: "ce_lowerChildId (edges_map st2 i) = 0" "ce_upperChildId (edges_map st2 i) = 0"
    "st' = st2\<lparr>edges_map := (edges_map st2)(i := (edges_map st2 i)\<lparr>ce_lowerChildId := l, ce_upperChildId := edge_id ?K up\<rparr>)\<rparr>"
    by (rule store_bisectEdge_Inr [OF b])
  note lo = newChildEdge_Inr [OF kids(1)] and up = newChildEdge_Inr [OF kids(2)]
  have fresh: "fresh_edge T lo" "fresh_edge T up" using lo up T by (auto simp: fresh_edge_def)
  have child: "child_of ?ce lo" "child_of ?ce up" using lo up by (auto simp: child_of_def)
  note L = add_lower_child_changes [OF adds(1) fresh(1) i child(1)]
  have ok1: "store_ok ?K H T st1" by (rule store_ok_changes [OF L(1) K ok])
  have i1: "present st1 i \<and> same_core ?ce (edges_map st1 i)"
    using L(1) i by (induction rule: rtranclp_induct) (auto dest: change_grows [OF K] intro: same_core_trans)
  have c2: "change ?K H T st1 st2"
  proof (rule add_child [OF adds(2) fresh(2)])
    show "present st1 i" using i1 ..
    show "child_of (edges_map st1 i) up" using child(2) same_core_fields [OF conjunct2 [OF i1]] by (simp add: child_of_def)
  qed
  have i2: "present st2 i \<and> same_core ?ce (edges_map st2 i)"
    using change_grows [OF K c2, of i] i1 same_core_trans by blast
  have up2: "present st2 (edge_id ?K up)" "edges_map st2 (edge_id ?K up) = up"
    using store_add_Inr(2) [OF adds(2)] fresh_edge_exists [OF fresh(2)] by (simp_all add: present_def)
  have "edge_id ?K (edges_map st1 l) = l" using store_okD(5) [OF ok1] L(2) adds(3) by simp
  then have lo1: "ce_level (edges_map st1 l) = ce_level lo \<and> ce_originId (edges_map st1 l) = ce_originId lo \<and>
      ce_startHeight (edges_map st1 l) = ce_startHeight lo \<and> ce_startHistoryRoot (edges_map st1 l) = ce_startHistoryRoot lo \<and>
      ce_endHeight (edges_map st1 l) = ce_endHeight lo \<and> ce_endHistoryRoot (edges_map st1 l) = ce_endHistoryRoot lo"
    using edge_id_inject [OF K] adds(3) by simp
  have l2: "present st2 l \<and> same_core (edges_map st1 l) (edges_map st2 l)"
    using change_grows [OF K c2, of l] L(2) adds(3) by simp
  have "children_of ?K st2 (edges_map st2 i) l (edge_id ?K up)"
    unfolding children_of_def Let_def up2(2) same_core_fields [OF conjunct2 [OF l2]] same_core_fields [OF conjunct2 [OF i2]]
    using l2 up2(1) mid lo1 lo up by auto
  then have "change ?K H T st2 st'" unfolding fin(3) using i2 fin(1,2) by (intro link) auto
  with L(1) c2 show ?thesis by (meson rtranclp.rtrancl_into_rtrancl)
qed

lemma set_confirmed_change:
  assumes "set_confirmed c st i = Inr st'" "present st i"
  shows "change (keccak256 c) H (this_block c) st st'"
proof -
  have "ce_status (edges_map st i) = Pending" "confirmedRivals st (mutualId (keccak256 c) (edges_map st i)) = 0"
    and eq: "st' = st\<lparr>edges_map := (edges_map st)(i := (edges_map st i)\<lparr>ce_status := Confirmed, ce_confirmedAtBlock := this_block c\<rparr>),
          confirmedRivals := (confirmedRivals st)(mutualId (keccak256 c) (edges_map st i) := i)\<rparr>"
    using assms(1) by (auto simp: set_confirmed_def setConfirmedRival_def setConfirmed_def bindR_eq_Inr Let_def)
  then show ?thesis unfolding eq using assms(2) by (intro confirm)
qed

end
