(* ===== verification/Edge_Protocol.thy ===== *)
theory Edge_Protocol
  imports Edge_Invariants
begin

text \<open>
  The challenge manager as a state machine: its transactions, in any order and from any senders. Every
  transaction is a sequence of the changes of the store, so the invariant of the store holds in all reachable states.
\<close>

subsection \<open>Transactions\<close>

definition level_height :: "('h, 't) EdgeChallengeManager \<Rightarrow> uint8 \<Rightarrow> uint256" where
  "level_height s level =
     (case levelToType level (NUM_BIGSTEP_LEVEL s) :: 'h revert + EdgeType of
        Inr eType \<Rightarrow> getLayerZeroEndHeight s eType
      | Inl _ \<Rightarrow> 0)"

text \<open>
  A transaction in block \<open>T\<close>; reverted ones change nothing and are left out. \<open>P\<close> is what is known of the context of a
  call and \<open>R\<close> how the stake token changes in other transactions; most facts need nothing of either.
\<close>

inductive ecm_step ::
    "('h::zero packed list \<Rightarrow> 'h) \<Rightarrow> (('h, 't) manager_ctx \<Rightarrow> bool) \<Rightarrow> ('t \<Rightarrow> 't \<Rightarrow> bool) \<Rightarrow> uint64 \<Rightarrow>
     ('h, 't) EdgeChallengeManager \<Rightarrow> ('h, 't) EdgeChallengeManager \<Rightarrow> bool"
  for K P R T where
  create: "keccak256 c = K \<Longrightarrow> this_block c = T \<Longrightarrow> P c \<Longrightarrow> createLayerZeroEdge c args s = Inr (i, s') \<Longrightarrow> ecm_step K P R T s s'"
| bisect: "keccak256 c = K \<Longrightarrow> this_block c = T \<Longrightarrow> P c \<Longrightarrow> bisectEdge c i r pfx s = Inr (kids, s') \<Longrightarrow> ecm_step K P R T s s'"
| by_children: "keccak256 c = K \<Longrightarrow> this_block c = T \<Longrightarrow> P c \<Longrightarrow> confirmEdgeByChildren c i s = Inr s' \<Longrightarrow> ecm_step K P R T s s'"
| by_claim: "keccak256 c = K \<Longrightarrow> this_block c = T \<Longrightarrow> P c \<Longrightarrow> confirmEdgeByClaim c i j s = Inr s' \<Longrightarrow> ecm_step K P R T s s'"
| by_time: "keccak256 c = K \<Longrightarrow> this_block c = T \<Longrightarrow> P c \<Longrightarrow> confirmEdgeByTime c i ancestors esd s = Inr s' \<Longrightarrow>
    ecm_step K P R T s s'"
| by_proof: "keccak256 c = K \<Longrightarrow> this_block c = T \<Longrightarrow> P c \<Longrightarrow>
    confirmEdgeByOneStepProof c i osd cfg before after s = Some (Inr s') \<Longrightarrow> ecm_step K P R T s s'"
| refund_stake: "keccak256 c = K \<Longrightarrow> this_block c = T \<Longrightarrow> P c \<Longrightarrow> refundStake c i s = Inr s' \<Longrightarrow> ecm_step K P R T s s'"
| token: "R (tokens s) t \<Longrightarrow> ecm_step K P R T s (s\<lparr>tokens := t\<rparr>)"

text \<open>\<open>ecm_reach K P R T s\<close>: the contract was initialized and transactions up to block \<open>T\<close> led to the state \<open>s\<close>.\<close>

inductive ecm_reach ::
    "('h::zero packed list \<Rightarrow> 'h) \<Rightarrow> (('h, 't) manager_ctx \<Rightarrow> bool) \<Rightarrow> ('t \<Rightarrow> 't \<Rightarrow> bool) \<Rightarrow> uint64 \<Rightarrow>
     ('h, 't) EdgeChallengeManager \<Rightarrow> bool"
  for K P R where
  deployed: "ecm_initialize chain period osp h1 h2 h3 token amount receiver n (uninitialized t) = Inr s \<Longrightarrow>
    ecm_reach K P R T s"
| transaction: "ecm_reach K P R T s \<Longrightarrow> T \<le> T' \<Longrightarrow> T' \<noteq> 0 \<Longrightarrow> ecm_step K P R T' s s' \<Longrightarrow> ecm_reach K P R T' s'"

definition same_config :: "('h, 't) EdgeChallengeManager \<Rightarrow> ('h, 't) EdgeChallengeManager \<Rightarrow> bool" where
  "same_config s s' \<longleftrightarrow>
     LAYERZERO_BLOCKEDGE_HEIGHT s' = LAYERZERO_BLOCKEDGE_HEIGHT s \<and>
     LAYERZERO_BIGSTEPEDGE_HEIGHT s' = LAYERZERO_BIGSTEPEDGE_HEIGHT s \<and>
     LAYERZERO_SMALLSTEPEDGE_HEIGHT s' = LAYERZERO_SMALLSTEPEDGE_HEIGHT s \<and>
     NUM_BIGSTEP_LEVEL s' = NUM_BIGSTEP_LEVEL s \<and> stakeToken s' = stakeToken s \<and> stakeAmount s' = stakeAmount s \<and>
     excessStakeReceiver s' = excessStakeReceiver s \<and> challengePeriodBlocks s' = challengePeriodBlocks s"

lemma same_config_height: "same_config s s' \<Longrightarrow> level_height s' = level_height s"
  by (auto simp: same_config_def level_height_def getLayerZeroEndHeight_def fun_eq_iff split: sum.split EdgeType.split)

lemma emit_simps [simp]: "ecm_store (emit e s) = ecm_store s" "same_config s' (emit e s) = same_config s' s"
  "tokens (emit e s) = tokens s"
  by (simp_all add: emit_def same_config_def)

lemma same_config_store [simp]: "same_config s (s\<lparr>ecm_store := st\<rparr>)" "same_config s (s\<lparr>tokens := t\<rparr>)" "same_config s s"
  "same_config s (s\<lparr>ecm_store := st, tokens := t\<rparr>)"
  by (simp_all add: same_config_def)

lemma take_stake_Inr: "take_stake c b s = Inr s' \<Longrightarrow> \<exists>t. s' = s\<lparr>tokens := t\<rparr>"
  by (auto simp: take_stake_def Let_def bindR_eq_Inr split: if_splits intro: exI [of _ "tokens s"])

lemma createLayerZeroEdge_Inr:
  fixes s :: "('h::zero, 't) EdgeChallengeManager"
  assumes "createLayerZeroEdge c args s = Inr (i, s')"
  obtains ard d st t where
    "store_createLayerZeroEdge c (ecm_store s) args ard (osp_at c) (level_height s (arg_level args)) (NUM_BIGSTEP_LEVEL s)
       = Inr (d, st)" "take_stake c (added_hasRival d) (s\<lparr>ecm_store := st\<rparr>) = Inr t" "s' = emit (EdgeAdded d) t"
    "i = added_edgeId d"
proof -
  from assms obtain eType ard d st t where *: "levelToType (arg_level args) (NUM_BIGSTEP_LEVEL s) = (Inr eType :: 'h revert + EdgeType)"
    "store_createLayerZeroEdge c (ecm_store s) args ard (osp_at c) (getLayerZeroEndHeight s eType) (NUM_BIGSTEP_LEVEL s)
       = Inr (d, st)" "take_stake c (added_hasRival d) (s\<lparr>ecm_store := st\<rparr>) = Inr t" "s' = emit (EdgeAdded d) t"
    "i = added_edgeId d"
    by (auto simp: createLayerZeroEdge_def bindR_eq_Inr Let_def)
  have "level_height s (arg_level args) = getLayerZeroEndHeight s eType" using *(1) by (simp add: level_height_def)
  with * show ?thesis by (intro that) auto
qed

lemma bisectEdge_Inr:
  assumes "bisectEdge c i r pfx s = Inr (kids, s')"
  obtains l la ua st where "store_bisectEdge c (ecm_store s) i r pfx = Inr ((l, la, ua), st)" "ecm_store s' = st"
    "same_config s s'" "tokens s' = tokens s" "kids = (l, added_edgeId ua)"
  using assms by (auto simp: bisectEdge_def bindR_eq_Inr Let_def)

lemma refundStake_Inr:
  assumes "refundStake c i s = Inr s'"
  obtains e t where "present (ecm_store s) i" "setRefunded (keccak256 c) (edges_map (ecm_store s) i) = Inr e"
    "ecm_store s' = (ecm_store s)\<lparr>edges_map := (edges_map (ecm_store s))(i := e)\<rparr>" "same_config s s'" "tokens s' = t"
    "if stakeToken s \<noteq> 0 \<and> stakeAmount s \<noteq> 0
     then safeTransfer c (address_this c) (ce_staker e) (stakeAmount s) (tokens s) = Inr t else t = tokens s"
proof (cases "stakeToken s \<noteq> 0 \<and> stakeAmount s \<noteq> 0")
  case True
  with assms show ?thesis
    by (auto simp: refundStake_def bindR_eq_Inr Let_def store_get_def present_def intro: that)
next
  case False
  with assms show ?thesis
    by (auto simp: refundStake_def bindR_eq_Inr Let_def store_get_def present_def simp del: de_Morgan_conj intro!: that)
qed

lemma setRefunded_Inr:
  "setRefunded K e = Inr e' \<longleftrightarrow> ce_status e = Confirmed \<and> isLayerZero e \<and> \<not> ce_refunded e \<and> e' = e\<lparr>ce_refunded := True\<rparr>"
  by (auto simp: setRefunded_def bindR_eq_Inr)

lemma refundStake_change:
  assumes "refundStake c i s = Inr s'"
  shows "change (keccak256 c) H T (ecm_store s) (ecm_store s') \<and> same_config s s'"
  using assms
proof (rule refundStake_Inr)
  fix e t assume "present (ecm_store s) i" "setRefunded (keccak256 c) (edges_map (ecm_store s) i) = Inr e"
    "ecm_store s' = (ecm_store s)\<lparr>edges_map := (edges_map (ecm_store s))(i := e)\<rparr>" "same_config s s'"
  then show ?thesis by (simp add: setRefunded_Inr refund)
qed

text \<open>The four kinds of confirmation set an existing edge as confirmed.\<close>

lemma confirmations:
  "confirmEdgeByChildren c i s = Inr s' \<Longrightarrow>
     present (ecm_store s) i \<and> set_confirmed c (ecm_store s) i = Inr (ecm_store s') \<and> same_config s s' \<and> tokens s' = tokens s"
  "confirmEdgeByClaim c i j s = Inr s' \<Longrightarrow>
     present (ecm_store s) i \<and> set_confirmed c (ecm_store s) i = Inr (ecm_store s') \<and> same_config s s' \<and> tokens s' = tokens s"
  by (auto simp: confirmEdgeByChildren_def store_confirmEdgeByChildren_def confirmEdgeByClaim_def store_confirmEdgeByClaim_def
      bindR_eq_Inr present_def)

lemma confirmations_ctx:
  "confirmEdgeByTime c i ancestors esd s = Inr s' \<Longrightarrow>
     present (ecm_store s) i \<and> set_confirmed c (ecm_store s) i = Inr (ecm_store s') \<and> same_config s s' \<and> tokens s' = tokens s"
  "confirmEdgeByOneStepProof c i osd cfg before after s = Some (Inr s') \<Longrightarrow>
     present (ecm_store s) i \<and> set_confirmed c (ecm_store s) i = Inr (ecm_store s') \<and> same_config s s' \<and> tokens s' = tokens s"
  by (auto simp: confirmEdgeByTime_def store_confirmEdgeByTime_def confirmEdgeByOneStepProof_def
      store_confirmEdgeByOneStepProof_def store_get_def bindR_eq_Inr Let_def present_def split: option.splits)

lemma ecm_step_changes:
  assumes K: "good_keccak K" and step: "ecm_step K P R T s s'" and T: "T \<noteq> 0"
    and ok: "store_ok K (level_height s) T (ecm_store s)"
  shows "(change K (level_height s) T)\<^sup>*\<^sup>* (ecm_store s) (ecm_store s') \<and> same_config s s'"
  using step
proof cases
  case (create c args i)
  from create(4) show ?thesis
  proof (rule createLayerZeroEdge_Inr)
    fix ard d st t assume a: "store_createLayerZeroEdge c (ecm_store s) args ard (osp_at c) (level_height s (arg_level args))
        (NUM_BIGSTEP_LEVEL s) = Inr (d, st)" "take_stake c (added_hasRival d) (s\<lparr>ecm_store := st\<rparr>) = Inr t"
      "s' = emit (EdgeAdded d) t"
    have "change K (level_height s) T (ecm_store s) st"
      using store_createLayerZeroEdge_change [of c "ecm_store s" args ard "osp_at c" "level_height s" "NUM_BIGSTEP_LEVEL s" d st]
        a(1) create(1,2) T by simp
    moreover obtain u where "t = s\<lparr>ecm_store := st, tokens := u\<rparr>" using take_stake_Inr [OF a(2)] by auto
    ultimately show ?thesis using a(3) by auto
  qed
next
  case (bisect c i r pfx kids)
  from bisect(4) show ?thesis
  proof (rule bisectEdge_Inr)
    fix l la ua st assume b: "store_bisectEdge c (ecm_store s) i r pfx = Inr ((l, la, ua), st)" "ecm_store s' = st"
      "same_config s s'"
    have "(change (keccak256 c) (level_height s) T)\<^sup>*\<^sup>* (ecm_store s) st"
      using K ok T bisect(1,2) by (intro store_bisectEdge_changes [OF _ _ _ _ b(1)]) simp_all
    with b bisect(1) show ?thesis by simp
  qed
next
  case (refund_stake c i)
  then show ?thesis using refundStake_change [OF refund_stake(4)] by auto
next
  case (token t)
  then show ?thesis by simp
next
  case (by_children c i)
  then show ?thesis using confirmations(1) [OF by_children(4)] set_confirmed_change [of c "ecm_store s" i "ecm_store s'"] by auto
next
  case (by_claim c i j)
  then show ?thesis using confirmations(2) [OF by_claim(4)] set_confirmed_change [of c "ecm_store s" i "ecm_store s'"] by auto
next
  case (by_time c i ancestors esd)
  then show ?thesis using confirmations_ctx(1) [OF by_time(4)] set_confirmed_change [of c "ecm_store s" i "ecm_store s'"] by auto
next
  case (by_proof c i osd cfg before after)
  then show ?thesis using confirmations_ctx(2) [OF by_proof(4)] set_confirmed_change [of c "ecm_store s" i "ecm_store s'"] by auto
qed

lemma ecm_step_ok:
  assumes "good_keccak K" "ecm_step K P R T s s'" "T \<noteq> 0" "store_ok K (level_height s) T (ecm_store s)"
  shows "store_ok K (level_height s') T (ecm_store s')"
proof -
  have "(change K (level_height s) T)\<^sup>*\<^sup>* (ecm_store s) (ecm_store s')" "same_config s s'"
    using ecm_step_changes [OF assms] by blast+
  then show ?thesis using store_ok_changes [OF _ assms(1,4)] same_config_height by metis
qed

lemma ecm_reach_ok: "ecm_reach K P R T s \<Longrightarrow> good_keccak K \<Longrightarrow> store_ok K (level_height s) T (ecm_store s)"
proof (induction rule: ecm_reach.induct)
  case (deployed chain period osp h1 h2 h3 token amount receiver n t s T)
  then have "ecm_store s = empty_store" by (auto simp: ecm_initialize_def bindR_eq_Inr uninitialized_def)
  then show ?case by (simp add: empty_store_ok)
next
  case (transaction T s T' s')
  then show ?case using ecm_step_ok store_ok_later by blast
qed

text \<open>\<open>ecm_run K P R T s T' s'\<close>: transactions from block \<open>T\<close> up to \<open>T'\<close> lead from the state \<open>s\<close> to \<open>s'\<close>.\<close>

inductive ecm_run ::
    "('h::zero packed list \<Rightarrow> 'h) \<Rightarrow> (('h, 't) manager_ctx \<Rightarrow> bool) \<Rightarrow> ('t \<Rightarrow> 't \<Rightarrow> bool) \<Rightarrow> uint64 \<Rightarrow>
     ('h, 't) EdgeChallengeManager \<Rightarrow> uint64 \<Rightarrow> ('h, 't) EdgeChallengeManager \<Rightarrow> bool"
  for K P R T s where
  run_refl: "ecm_run K P R T s T s"
| run_step: "ecm_run K P R T s T' s' \<Longrightarrow> T' \<le> T'' \<Longrightarrow> T'' \<noteq> 0 \<Longrightarrow> ecm_step K P R T'' s' s'' \<Longrightarrow> ecm_run K P R T s T'' s''"

lemma ecm_run_reach: "ecm_run K P R T s T' s' \<Longrightarrow> ecm_reach K P R T s \<Longrightarrow> ecm_reach K P R T' s'"
  by (induction rule: ecm_run.induct) (auto intro: transaction)

end
