(* ===== verification/Contract_Example.thy ===== *)
theory Contract_Example
  imports Edge_Protocol Sym_Hash
begin

text \<open>
  A challenge between two validators, computed with a symbolic hash function: the hypotheses of the properties of the
  challenge manager hold in it. The first validator's edge is rivaled one block later and confirmed by time.
\<close>

subsection \<open>A symbolic hash of packed data\<close>

datatype psym = PZero | PAtom nat | PKec "psym packed list"

instantiation psym :: zero
begin

definition zero_psym :: psym where
  "zero_psym = PZero"

instance ..

end

lemma PKec_good [simp]: "good_keccak PKec"
  by (simp add: good_keccak_def zero_psym_def inj_def)

subsection \<open>The challenge\<close>

abbreviation sample_leaf :: "nat \<Rightarrow> psym" where
  "sample_leaf n \<equiv> PKec [Bytes32 (PAtom n)]"

abbreviation sample_pair :: "psym \<Rightarrow> psym \<Rightarrow> psym" where
  "sample_pair a b \<equiv> PKec [Bytes32 a, Bytes32 b]"

text \<open>Both histories have three states, of which the first is common.\<close>

definition sample_root :: "nat \<Rightarrow> nat \<Rightarrow> psym" where
  "sample_root m n = sample_pair (sample_pair (sample_leaf 0) (sample_leaf m)) (sample_pair (sample_leaf n) PZero)"

definition sample_state :: "nat \<Rightarrow> psym SolExecutionState" where
  "sample_state n = \<lparr>sol_GlobalState = \<lparr>Bytes32Vals = (PAtom n, PZero), U64Vals = (0, 0)\<rparr>, sol_MachineStatus = 1\<rparr>"

definition sample_esd :: "nat \<Rightarrow> nat \<Rightarrow> psym ExecutionStateData" where
  "sample_esd n prev = \<lparr>esd_executionState = sample_state n, esd_prevAssertionHash = PAtom prev, esd_inboxAcc = PAtom 70\<rparr>"

definition sample_pay :: "address \<Rightarrow> address \<Rightarrow> uint256 \<Rightarrow> (address \<Rightarrow> nat) \<Rightarrow> psym revert + (address \<Rightarrow> nat)" where
  "sample_pay payer payee v t =
     (if unat v \<le> t payer
      then Inr (let b = t(payer := t payer - unat v) in b(payee := b payee + unat v))
      else Inl (Require ''ERC20: transfer amount exceeds balance''))"

text \<open>
  The proofs of the two validators are the bytes \<open>[1]\<close> and \<open>[2]\<close>; the proof of the first one's bisection is \<open>[3]\<close>.
\<close>

definition sample_ctx :: "uint256 \<Rightarrow> address \<Rightarrow> (psym, address \<Rightarrow> nat) manager_ctx" where
  "sample_ctx n sender =
     \<lparr>keccak256 = PKec, block_number = n, msg_sender = sender,
      decode_prefix = (\<lambda>b. if b = [1] then Some ([sample_leaf 0], [sample_leaf 11, sample_leaf 12])
        else if b = [2] then Some ([sample_leaf 0], [sample_leaf 21, sample_leaf 22])
        else if b = [3] then Some ([PZero, sample_pair (sample_leaf 0) (sample_leaf 11)], [sample_leaf 12]) else None),
      decode_block_proof = (\<lambda>b. if b = [1] then Some ([PZero, sample_pair (sample_leaf 0) (sample_leaf 11)], sample_esd 0 99, sample_esd 12 100)
        else if b = [2] then Some ([PZero, sample_pair (sample_leaf 0) (sample_leaf 21)], sample_esd 0 99, sample_esd 22 100) else None),
      decode_step_proof = (\<lambda>_. None), address_this = 50,
      chain_at = \<lparr>chain_bridge = Inr 60, validateAssertionHash = (\<lambda>_ _ _ _. Inr ()), validateConfig = (\<lambda>_ _. Inr ()),
        getFirstChildCreationBlock = (\<lambda>_. Inr 1), getSecondChildCreationBlock = (\<lambda>_. Inr 4),
        isFirstChild = (\<lambda>a. Inr (a = PAtom 101)), isPending = (\<lambda>_. Inr True)\<rparr>,
      osp_at = \<lparr>proveOneStep = (\<lambda>_ _ _ _. Inl (Require ''none'')),
        getMachineHash = (\<lambda>st. Inr (fst (Bytes32Vals (sol_GlobalState st))))\<rparr>,
      safeTransferFrom = sample_pay, safeTransfer = sample_pay\<rparr>"

definition sample_args :: "nat \<Rightarrow> nat \<Rightarrow> uint8 \<Rightarrow> nat \<Rightarrow> psym CreateEdgeArgs" where
  "sample_args m n b claim =
     \<lparr>arg_level = 0, arg_endHistoryRoot = sample_root m n, arg_endHeight = 2, arg_claimId = PAtom claim,
      arg_prefixProof = [b], arg_proof = [b]\<rparr>"

text \<open>The edges of the two validators; the second is created three blocks later.\<close>

definition sample_edge :: "nat \<Rightarrow> nat \<Rightarrow> nat \<Rightarrow> address \<Rightarrow> uint64 \<Rightarrow> psym ChallengeEdge" where
  "sample_edge m n claim staker created =
     \<lparr>ce_originId = PAtom 100, ce_startHistoryRoot = sample_leaf 0, ce_startHeight = 0, ce_endHistoryRoot = sample_root m n,
      ce_endHeight = 2, ce_lowerChildId = PZero, ce_upperChildId = PZero, ce_claimId = PAtom claim, ce_staker = staker,
      ce_createdAtBlock = created, ce_confirmedAtBlock = 0, ce_status = Pending, ce_level = 0, ce_refunded = False\<rparr>"

abbreviation sample_edge1 :: "psym ChallengeEdge" where
  "sample_edge1 \<equiv> sample_edge 11 12 101 1 5"

abbreviation sample_edge2 :: "psym ChallengeEdge" where
  "sample_edge2 \<equiv> sample_edge 21 22 102 2 8"

definition sample_id1 :: psym where
  "sample_id1 = edge_id PKec sample_edge1"

definition sample_id2 :: psym where
  "sample_id2 = edge_id PKec sample_edge2"

definition sample_group :: psym where
  "sample_group = mutualId PKec sample_edge1"

lemma sample_ids: "edge_id PKec (sample_edge 11 12 k a b) = sample_id1"
  "edge_id PKec (sample_edge 21 22 k a b) = sample_id2"
  "mutualId PKec (sample_edge m n k a b) = sample_group"
  by (simp_all add: sample_id1_def sample_id2_def sample_group_def sample_edge_def edge_id_def mutualId_def)

lemma sample_distinct [simp]: "sample_id1 \<noteq> sample_id2" "sample_id2 \<noteq> sample_id1"
  by (simp_all add: sample_id1_def sample_id2_def edge_id_inject sample_edge_def sample_root_def)

lemma sample_special [simp]: "sample_id1 \<noteq> 0" "sample_id2 \<noteq> 0" "sample_id2 \<noteq> UNRIVALED PKec" "UNRIVALED PKec \<noteq> 0"
  by (simp_all add: sample_id1_def sample_id2_def)

lemma sample_created: "ce_createdAtBlock (sample_edge m n k a b) = b" "ce_status (sample_edge m n k a b) = Pending"
  by (simp_all add: sample_edge_def)

definition sample_added :: "nat \<Rightarrow> nat \<Rightarrow> nat \<Rightarrow> bool \<Rightarrow> psym EdgeAddedData" where
  "sample_added m n claim rival =
     \<lparr>added_edgeId = edge_id PKec (sample_edge m n claim 0 0), added_mutualId = sample_group, added_originId = PAtom 100,
      added_claimId = PAtom claim, added_length = 2, added_level = 0, added_hasRival = rival, added_isLayerZero = True\<rparr>"

definition sample_s0 :: "(psym, address \<Rightarrow> nat) EdgeChallengeManager" where
  "sample_s0 =
     \<lparr>ecm_store = empty_store, excessStakeReceiver = 9, stakeToken = 6, stakeAmount = 10, challengePeriodBlocks = 5,
      assertionChain = 7, oneStepProofEntry = 8, LAYERZERO_BLOCKEDGE_HEIGHT = 2, LAYERZERO_BIGSTEPEDGE_HEIGHT = 1,
      LAYERZERO_SMALLSTEPEDGE_HEIGHT = 1, NUM_BIGSTEP_LEVEL = 1, ecm_initialized = True,
      tokens = (\<lambda>a. if a = 1 \<or> a = 2 then 100 else 0), logs = []\<rparr>"

text \<open>The first stake goes to the manager, the second one to the receiver of excess stakes.\<close>

definition sample_s1 :: "(psym, address \<Rightarrow> nat) EdgeChallengeManager" where
  "sample_s1 = sample_s0\<lparr>ecm_store :=
       \<lparr>edges_map = (\<lambda>_. no_edge)(sample_id1 := sample_edge1), firstRivals = (\<lambda>_. 0)(sample_group := UNRIVALED PKec),
        confirmedRivals = (\<lambda>_. 0)\<rparr>,
     tokens := (tokens sample_s0)(1 := 90, 50 := 10), logs := [EdgeAdded (sample_added 11 12 101 False)]\<rparr>"

definition sample_s2 :: "(psym, address \<Rightarrow> nat) EdgeChallengeManager" where
  "sample_s2 = sample_s1\<lparr>ecm_store :=
       \<lparr>edges_map = (\<lambda>_. no_edge)(sample_id1 := sample_edge1, sample_id2 := sample_edge2),
        firstRivals = (\<lambda>_. 0)(sample_group := sample_id2), confirmedRivals = (\<lambda>_. 0)\<rparr>,
     tokens := (tokens sample_s1)(2 := 90, 9 := 10), logs := logs sample_s1 @ [EdgeAdded (sample_added 21 22 102 True)]\<rparr>"

definition sample_confirmed :: "(psym, address \<Rightarrow> nat) EdgeChallengeManager" where
  "sample_confirmed = sample_s2\<lparr>ecm_store :=
       \<lparr>edges_map = (\<lambda>_. no_edge)(sample_id2 := sample_edge2,
          sample_id1 := sample_edge1\<lparr>ce_status := Confirmed, ce_confirmedAtBlock := 9\<rparr>),
        firstRivals = (\<lambda>_. 0)(sample_group := sample_id2), confirmedRivals = (\<lambda>_. 0)(sample_group := sample_id1)\<rparr>,
     logs := logs sample_s2 @ [EdgeConfirmedByTime sample_id1 sample_group 6]\<rparr>"

subsection \<open>Its transactions\<close>

lemma sample_ctx_fields [simp]: "keccak256 (sample_ctx n a) = PKec" "this_block (sample_ctx n a) = ucast n"
  "address_this (sample_ctx n a) = 50" "msg_sender (sample_ctx n a) = a" "safeTransferFrom (sample_ctx n a) = sample_pay"
  "safeTransfer (sample_ctx n a) = sample_pay"
  by (simp_all add: sample_ctx_def this_block_def)

lemma sample_run0:
  "ecm_initialize 7 5 8 2 1 1 6 10 9 1 (uninitialized (\<lambda>a. if a = 1 \<or> a = 2 then 100 else 0)) = Inr sample_s0"
  by (simp add: ecm_initialize_def uninitialized_def sample_s0_def isPowerOfTwo_def)

definition sample_ard :: "nat \<Rightarrow> nat \<Rightarrow> psym AssertionReferenceData" where
  "sample_ard n claim =
     \<lparr>ard_assertionHash = PAtom claim, ard_predecessorId = PAtom 100, ard_isPending = True, ard_hasSibling = True,
      ard_startState = sample_state 0, ard_endState = sample_state n\<rparr>"

lemma sample_checks:
  "layerZeroTypeSpecificChecks (sample_ctx 5 1) st (sample_args 11 12 1 101) (sample_ard 12 101) (osp_at (sample_ctx 5 1)) 1 =
     Inr (\<lparr>pd_startState = PAtom 0, pd_endState = PAtom 12,
           pd_inclusionProof = [PZero, sample_pair (sample_leaf 0) (sample_leaf 11)]\<rparr>, PAtom 100)"
  "layerZeroTypeSpecificChecks (sample_ctx 8 2) st (sample_args 21 22 2 102) (sample_ard 22 102) (osp_at (sample_ctx 8 2)) 1 =
     Inr (\<lparr>pd_startState = PAtom 0, pd_endState = PAtom 22,
           pd_inclusionProof = [PZero, sample_pair (sample_leaf 0) (sample_leaf 21)]\<rparr>, PAtom 100)"
  by (simp_all add: layerZeroTypeSpecificChecks_def levelToType_def block_edge_checks_def sample_args_def sample_ard_def sample_ctx_def
      abi_decode_def sample_state_def Let_def zero_psym_def MachineStatusRunning_def)

lemma sample_common_checks:
  "layerZeroCommonChecks (sample_ctx 5 1) \<lparr>pd_startState = PAtom 0, pd_endState = PAtom 12,
     pd_inclusionProof = [PZero, sample_pair (sample_leaf 0) (sample_leaf 11)]\<rparr> (sample_args 11 12 1 101) 2 = Inr (sample_leaf 0)"
  "layerZeroCommonChecks (sample_ctx 8 2) \<lparr>pd_startState = PAtom 0, pd_endState = PAtom 22,
     pd_inclusionProof = [PZero, sample_pair (sample_leaf 0) (sample_leaf 21)]\<rparr> (sample_args 21 22 2 102) 2 = Inr (sample_leaf 0)"
  by code_simp+

lemma sample_toLayerZeroEdge:
  "toLayerZeroEdge (sample_ctx 5 1) (PAtom 100) (sample_leaf 0) (sample_args 11 12 1 101) = Inr sample_edge1"
  "toLayerZeroEdge (sample_ctx 8 2) (PAtom 100) (sample_leaf 0) (sample_args 21 22 2 102) = Inr sample_edge2"
  by (simp_all add: toLayerZeroEdge_def newLayerZeroEdge_def newEdgeChecks_def sample_args_def sample_edge_def sample_root_def
      zero_psym_def)

lemma sample_add:
  assumes "edges_map st (edge_id PKec (sample_edge m n claim a b)) = no_edge"
  shows "store_add PKec st (sample_edge m n claim a b) =
    Inr (sample_added m n claim (firstRivals st sample_group \<noteq> 0),
      st\<lparr>edges_map := (edges_map st)(edge_id PKec (sample_edge m n claim a b) := sample_edge m n claim a b),
         firstRivals := (firstRivals st)(sample_group :=
           (if firstRivals st sample_group = 0 then UNRIVALED PKec
            else if firstRivals st sample_group = UNRIVALED PKec then edge_id PKec (sample_edge m n claim a b)
            else firstRivals st sample_group))\<rparr>)"
proof -
  let ?e = "sample_edge m n claim a b"
  have "mutualIdComponent PKec (ce_level ?e) (ce_originId ?e) (ce_startHeight ?e) (ce_startHistoryRoot ?e) (ce_endHeight ?e) = sample_group"
    using sample_ids(3) [of m n claim a b] by (simp add: mutualId_def)
  moreover have "edge_id PKec (sample_edge m n claim 0 0) = edge_id PKec ?e" by (simp add: edge_id_def sample_edge_def)
  moreover have "edge_length PKec ?e = Inr 2" by (simp add: edge_length_def checked_sub_def sample_edge_def)
  ultimately show ?thesis using assms
    by (simp add: store_add_def Let_def edge_exists_def no_edge_def sample_added_def) (simp add: sample_edge_def zero_psym_def)
qed

lemma sample_reference:
  "assertion_reference (sample_ctx 5 1) (sample_args 11 12 1 101) = Inr (sample_ard 12 101)"
  "assertion_reference (sample_ctx 8 2) (sample_args 21 22 2 102) = Inr (sample_ard 22 102)"
  by (simp_all add: assertion_reference_def sample_ctx_def sample_args_def sample_ard_def abi_decode_def sample_esd_def)

lemma sample_block: "(levelToType 0 1 :: psym revert + EdgeType) = Inr Block" "arg_level (sample_args m n b claim) = 0"
  by (simp_all add: levelToType_def sample_args_def)

lemma sample_run1: "createLayerZeroEdge (sample_ctx 5 1) (sample_args 11 12 1 101) sample_s0 = Inr (sample_id1, sample_s1)"
proof -
  let ?st = "empty_store :: psym EdgeStore"
  have add: "store_add PKec ?st sample_edge1 = Inr (sample_added 11 12 101 False, ecm_store sample_s1)"
    using sample_add [of ?st 11 12 101 1 5] by (simp add: empty_store_def sample_s1_def sample_ids)
  have "store_createLayerZeroEdge (sample_ctx 5 1) ?st (sample_args 11 12 1 101) (sample_ard 12 101) (osp_at (sample_ctx 5 1)) 2 1
      = Inr (sample_added 11 12 101 False, ecm_store sample_s1)"
    by (simp add: store_createLayerZeroEdge_def sample_checks sample_common_checks sample_toLayerZeroEdge add)
  then show ?thesis
    by (simp add: createLayerZeroEdge_def sample_s0_def sample_block getLayerZeroEndHeight_def sample_reference take_stake_def
        sample_pay_def sample_added_def emit_def sample_s1_def sample_ids fun_eq_iff)
qed

lemma sample_run2: "createLayerZeroEdge (sample_ctx 8 2) (sample_args 21 22 2 102) sample_s1 = Inr (sample_id2, sample_s2)"
proof -
  let ?st = "ecm_store sample_s1"
  have add: "store_add PKec ?st sample_edge2 = Inr (sample_added 21 22 102 True, ecm_store sample_s2)"
    using sample_add [of ?st 21 22 102 2 8] by (simp add: sample_s1_def sample_s2_def sample_ids)
  have "store_createLayerZeroEdge (sample_ctx 8 2) ?st (sample_args 21 22 2 102) (sample_ard 22 102) (osp_at (sample_ctx 8 2)) 2 1
      = Inr (sample_added 21 22 102 True, ecm_store sample_s2)"
    by (simp add: store_createLayerZeroEdge_def sample_checks sample_common_checks sample_toLayerZeroEdge add)
  then show ?thesis
    by (simp add: createLayerZeroEdge_def sample_s0_def sample_block getLayerZeroEndHeight_def sample_reference take_stake_def
        sample_pay_def sample_added_def emit_def sample_s1_def sample_s2_def sample_ids fun_eq_iff)
qed

lemma sample_run3: "confirmEdgeByTime (sample_ctx 9 1) sample_id1 [] (sample_esd 12 100) sample_s2 = Inr sample_confirmed"
proof -
  let ?st = "ecm_store sample_s2"
  have m: "mutualId PKec (sample_edge1\<lparr>ce_status := st, ce_confirmedAtBlock := b\<rparr>) = sample_group" for st b
    using sample_ids(3) [of 11 12 101 1 5] by (simp add: mutualId_def)
  have "timeUnrivaled (sample_ctx 9 1) ?st sample_id1 = Inr 3"
    by (simp add: timeUnrivaled_def sample_s2_def edge_exists_def sample_created sample_ids Let_def checked_sub_def)
  moreover have "set_confirmed (sample_ctx 9 1) ?st sample_id1 = Inr (ecm_store sample_confirmed)"
    by (simp add: set_confirmed_def setConfirmedRival_def setConfirmed_def sample_s2_def sample_confirmed_def sample_ids Let_def
        sample_created fun_upd_twist)
  ultimately have "store_confirmEdgeByTime (sample_ctx 9 1) ?st sample_id1 [] 3 5 1 = Inr (6, ecm_store sample_confirmed)"
    by (simp add: store_confirmEdgeByTime_def sample_s2_def edge_exists_def sample_created checked_add_def)
  moreover have "assertion_blocks (sample_ctx 9 1) (PAtom 101) (sample_esd 12 100) = Inr 3"
    by (simp add: assertion_blocks_def sample_ctx_def checked_sub_def)
  moreover have "store_get ?st sample_id1 = Inr sample_edge1" "isLayerZero sample_edge1" "ce_claimId sample_edge1 = PAtom 101" "ce_level sample_edge1 = 0"
    by (simp_all add: store_get_def sample_s2_def edge_exists_def sample_created isLayerZero_def sample_edge_def zero_psym_def)
  ultimately show ?thesis
    by (simp add: confirmEdgeByTime_def sample_block m sample_s2_def sample_s1_def sample_s0_def sample_confirmed_def emit_def)
qed

lemma sample_reach1:
  assumes "\<And>n. P (sample_ctx n 1)"
  shows "ecm_reach PKec P R 5 sample_s1"
proof (rule transaction)
  show "ecm_reach PKec P R 0 sample_s0" by (rule deployed [OF sample_run0])
  show "ecm_step PKec P R 5 sample_s0 sample_s1" by (rule create [OF _ _ _ sample_run1]) (simp_all add: assms)
qed simp_all

lemma sample_later2:
  assumes "\<And>n. P (sample_ctx n 1)" "\<And>n. P (sample_ctx n 2)"
  shows "ecm_run PKec P R 5 sample_s1 8 sample_s2"
  by (rule run_step [OF run_refl _ _ create [OF _ _ _ sample_run2]]) (simp_all add: assms)

lemma sample_later3:
  assumes "\<And>n. P (sample_ctx n 1)" "\<And>n. P (sample_ctx n 2)"
  shows "ecm_run PKec P R 5 sample_s1 9 sample_confirmed"
  by (rule run_step [OF sample_later2 _ _ by_time [OF _ _ _ sample_run3]]) (simp_all add: assms)

lemmas sample_reach2 = ecm_run_reach [OF sample_later2 sample_reach1]
lemmas sample_reach3 = ecm_run_reach [OF sample_later3 sample_reach1]

lemma sample_getEdge: "ecm_getEdge sample_s2 sample_id1 = Inr sample_edge1" "ecm_hasRival PKec sample_s2 sample_id1 = Inr True"
  "ecm_getEdge sample_confirmed sample_id1 = Inr (sample_edge1\<lparr>ce_status := Confirmed, ce_confirmedAtBlock := 9\<rparr>)"
  "ecm_getEdge sample_confirmed sample_id2 = Inr sample_edge2"
  by (simp_all add: ecm_getEdge_def ecm_hasRival_def hasRival_def sample_ids Let_def store_get_def edge_exists_def sample_s2_def sample_confirmed_def
      sample_created)

end
