(* ===== verification/Edge_Safety.thy ===== *)
theory Edge_Safety
  imports Contract_Example
begin

text \<open>
  What the challenge manager guarantees in every reachable state: at most one edge of a group of rivals is confirmed,
  edges never change what they commit to, timers count unrivaled blocks, and every edge leads to an assertion.
\<close>

subsection \<open>Rivals and confirmation\<close>

text \<open>
  C29. Every state that the transactions of the challenge manager reach is well formed: edges are stored under their
  ids, none was created in the future, the record of first rivals names the second edge of each group, the record
  of confirmed rivals names the confirmed edge of each group, layer zero edges and only they span their level, claims
  and origins are rivaled edges of length one in the level below, children meet at the bisection point of their
  parent, and only confirmed layer zero edges are refunded.
\<close>

theorem reachable_states_well_formed:
  assumes "ecm_reach K P R T s" "good_keccak K"
  shows "store_ok K (level_height s) T (ecm_store s)"
  using assms by (rule ecm_reach_ok)

theorem reachable_states_well_formed_witness: "store_ok PKec (level_height sample_s2) 8 (ecm_store sample_s2)"
proof (rule reachable_states_well_formed)
  show "ecm_reach PKec (\<lambda>_. True) (\<lambda>_ _. True) 8 sample_s2" by (rule sample_reach2) simp_all
qed simp

lemma ecm_getEdge_Inr: "ecm_getEdge s i = Inr e \<longleftrightarrow> present (ecm_store s) i \<and> e = edges_map (ecm_store s) i"
  by (auto simp: ecm_getEdge_def store_get_def bindR_eq_Inr present_def)

lemma ecm_getEdge_exists: "ecm_getEdge s i = Inr e \<Longrightarrow> ecm_edgeExists s i"
  by (simp add: ecm_getEdge_Inr ecm_edgeExists_def present_def)

lemma confirmed_unique:
  assumes "confirmed_ok K st" "present st i" "present st j" "ce_status (edges_map st i) = Confirmed"
    "ce_status (edges_map st j) = Confirmed" "mutualId K (edges_map st i) = mutualId K (edges_map st j)"
  shows "i = j"
  using assms unfolding confirmed_ok_def by metis

text \<open>
  C1. Whatever transactions were sent, at most one of a group of rival edges is confirmed. Keccak is taken to be
  free of collisions and never zero.
\<close>

theorem one_confirmed_rival:
  assumes "ecm_reach K P R T s" "good_keccak K" "ecm_getEdge s i = Inr e" "ecm_getEdge s j = Inr e'"
    "ce_status e = Confirmed" "ce_status e' = Confirmed" "mutualId K e = mutualId K e'"
  shows "i = j"
proof -
  have "present (ecm_store s) i" "e = edges_map (ecm_store s) i" "present (ecm_store s) j" "e' = edges_map (ecm_store s) j"
    using assms(3,4) by (simp_all add: ecm_getEdge_Inr)
  with assms(5-) show ?thesis
    using confirmed_unique [OF store_okD(4) [OF ecm_reach_ok [OF assms(1,2)]]] by blast
qed

theorem one_confirmed_rival_witness:
  "ecm_getEdge sample_confirmed sample_id1 = Inr (sample_edge1\<lparr>ce_status := Confirmed, ce_confirmedAtBlock := 9\<rparr>) \<and>
   ecm_confirmedRival sample_confirmed sample_group = sample_id1"
proof -
  let ?e = "sample_edge1\<lparr>ce_status := Confirmed, ce_confirmedAtBlock := 9\<rparr>" and ?j = "ecm_confirmedRival sample_confirmed sample_group"
  have reach: "ecm_reach PKec (\<lambda>_. True) (\<lambda>_ _. True) 9 sample_confirmed" by (rule sample_reach3) simp_all
  have "ecm_getEdge sample_confirmed ?j = Inr ?e"
    using sample_getEdge(3) by (simp add: ecm_confirmedRival_def sample_confirmed_def)
  from one_confirmed_rival [OF reach PKec_good this sample_getEdge(3)] sample_getEdge(3) show ?thesis by simp
qed

text \<open>What later transactions keep of an edge.\<close>

definition edge_later :: "'h::zero ChallengeEdge \<Rightarrow> 'h ChallengeEdge \<Rightarrow> bool" where
  "edge_later e e' \<longleftrightarrow>
     same_core e e' \<and>
     (ce_status e = Confirmed \<longrightarrow> ce_status e' = Confirmed \<and> ce_confirmedAtBlock e' = ce_confirmedAtBlock e) \<and>
     (ce_lowerChildId e \<noteq> 0 \<or> ce_upperChildId e \<noteq> 0 \<longrightarrow>
        ce_lowerChildId e' = ce_lowerChildId e \<and> ce_upperChildId e' = ce_upperChildId e) \<and>
     (ce_refunded e \<longrightarrow> ce_refunded e')"

lemma edge_later_refl [simp]: "edge_later e e"
  by (simp add: edge_later_def)

lemma edge_later_trans: "edge_later a b \<Longrightarrow> edge_later b c \<Longrightarrow> edge_later a c"
  unfolding edge_later_def using same_core_trans by (metis (no_types, lifting))

lemma change_later:
  assumes "change K H T st st'" "present st i"
  shows "present st' i \<and> edge_later (edges_map st i) (edges_map st' i)"
proof -
  have new: "edges_map st' i = edges_map st i" if "store_add K st e = Inr (d, st')" for e d
    using store_add_Inr(1,2) [OF that] assms(2) by auto
  from assms(1) show ?thesis
  proof cases
    case (add_zero e d)
    then show ?thesis using new assms(2) by (simp add: present_def)
  next
    case (add_child e d p)
    then show ?thesis using new assms(2) by (simp add: present_def)
  qed (use assms(2) in \<open>auto simp: edge_later_def same_core_def present_def edge_exists_def\<close>)
qed

lemma changes_later:
  "(change K H T)\<^sup>*\<^sup>* st st' \<Longrightarrow> present st i \<Longrightarrow> present st' i \<and> edge_later (edges_map st i) (edges_map st' i)"
  by (induction rule: rtranclp_induct) (auto dest: change_later intro: edge_later_trans)

text \<open>
  C28. Edges are permanent: once in the contract, an edge is never removed, what it commits to, its claim, its staker
  and its creation block never change, and its confirmation, its children and its refund are never undone.
\<close>

theorem edges_are_permanent:
  assumes "ecm_run K P R T s T' s'" "ecm_reach K P R T s" "good_keccak K" "ecm_getEdge s i = Inr e"
  shows "\<exists>e'. ecm_getEdge s' i = Inr e' \<and> edge_later e e'"
proof -
  have e: "present (ecm_store s) i" "e = edges_map (ecm_store s) i"
    using assms(4) by (simp_all add: ecm_getEdge_Inr)
  from assms(1) have "present (ecm_store s') i \<and> edge_later e (edges_map (ecm_store s') i)"
  proof (induction rule: ecm_run.induct)
    case run_refl
    then show ?case using e by simp
  next
    case (run_step T' s' T'' s'')
    have "store_ok K (level_height s') T'' (ecm_store s')"
      using ecm_reach_ok [OF ecm_run_reach [OF run_step(1) assms(2)] assms(3)] run_step(2) by (rule store_ok_later)
    then have "(change K (level_height s') T'')\<^sup>*\<^sup>* (ecm_store s') (ecm_store s'')"
      using ecm_step_changes [OF assms(3) run_step(4,3)] by blast
    with run_step.IH show ?case using changes_later edge_later_trans by blast
  qed
  then show ?thesis by (auto simp: ecm_getEdge_Inr)
qed

theorem edges_are_permanent_witness: "\<exists>e'. ecm_getEdge sample_confirmed sample_id1 = Inr e' \<and> edge_later sample_edge1 e'"
proof -
  have run: "ecm_run PKec (\<lambda>_. True) (\<lambda>_ _. True) 8 sample_s2 9 sample_confirmed"
    by (rule run_step [OF run_refl _ _ by_time [OF _ _ _ sample_run3]]) simp_all
  have "ecm_reach PKec (\<lambda>_. True) (\<lambda>_ _. True) 8 sample_s2" by (rule sample_reach2) simp_all
  from edges_are_permanent [OF run this PKec_good sample_getEdge(1)] show ?thesis .
qed

subsection \<open>Timers\<close>

text \<open>The blocks before \<open>T\<close> at which an edge had been created and none of its rivals had.\<close>

definition unrivaled_blocks :: "('h::zero packed list \<Rightarrow> 'h) \<Rightarrow> 'h EdgeStore \<Rightarrow> uint64 \<Rightarrow> 'h \<Rightarrow> nat set" where
  "unrivaled_blocks K st T i =
     {t. unat (ce_createdAtBlock (edges_map st i)) \<le> t \<and> t < unat T \<and>
       (\<forall>j\<in>peers K st (mutualId K (edges_map st i)) - {i}. t < unat (ce_createdAtBlock (edges_map st j)))}"

lemma card_blocks: "A = {t. a \<le> t \<and> t < b} \<Longrightarrow> card A = b - (a :: nat)"
proof -
  assume "A = {t. a \<le> t \<and> t < b}"
  then have "A = {a..<b}" by auto
  then show ?thesis by simp
qed

lemma first_rival_bound:
  fixes created :: "'a \<Rightarrow> 'w::len word"
  assumes "f \<in> G" "f \<noteq> i" "\<And>j. j \<in> G \<Longrightarrow> j \<noteq> i \<Longrightarrow> created f \<le> created j"
  shows "(\<forall>j\<in>G - {i}. t < unat (created j)) \<longleftrightarrow> t < unat (created f)"
proof
  assume "t < unat (created f)"
  then show "\<forall>j\<in>G - {i}. t < unat (created j)" using assms(3) by (force simp: word_le_nat_alt)
qed (use assms(1,2) in blast)

lemma timeUnrivaled_card:
  assumes K: "good_keccak (keccak256 c)" and ok: "store_ok (keccak256 c) H T st" and T: "T \<le> this_block c" and i: "present st i"
  shows "\<exists>n. timeUnrivaled c st i = Inr n \<and> unat n = card (unrivaled_blocks (keccak256 c) st (this_block c) i)"
proof -
  let ?K = "keccak256 c" and ?at = "\<lambda>j. ce_createdAtBlock (edges_map st j)"
  let ?m = "mutualId ?K (edges_map st i)"
  let ?f = "firstRivals st ?m" and ?G = "peers ?K st ?m"
  have iG: "i \<in> ?G" using i by (simp add: peers_def)
  have at: "?at j \<le> this_block c" for j using store_okD(2) [OF ok] T by (auto simp: created_ok_def intro: order_trans)
  note R = store_okD(3) [OF ok, of ?m, unfolded rivals_at_def Let_def]
  have f0: "?f \<noteq> 0" using R iG by auto
  have ex: "edge_exists (edges_map st i)" using i by (simp add: present_def)
  show ?thesis
  proof (cases "?f = UNRIVALED ?K")
    case True
    with R f0 iG have "?G = {i}" by auto
    then have "card (unrivaled_blocks ?K st (this_block c) i) = unat (this_block c) - unat (?at i)"
      by (intro card_blocks) (simp add: unrivaled_blocks_def)
    then show ?thesis using True f0 ex at [of i] by (simp add: timeUnrivaled_def Let_def checked_sub_def unat_sub)
  next
    case False
    with R f0 obtain k where k: "k \<in> ?G" "k \<noteq> ?f" "?f \<in> ?G" "?at k \<le> ?at ?f" "\<And>j. j \<in> ?G \<Longrightarrow> j \<noteq> k \<Longrightarrow> ?at ?f \<le> ?at j"
      by auto
    have fex: "edge_exists (edges_map st ?f)" using k(3) by (simp add: peers_def present_def)
    have t: "timeUnrivaled c st i = Inr (if ?at ?f > ?at i then ?at ?f - ?at i else 0)"
      using False f0 ex fex by (simp add: timeUnrivaled_def Let_def checked_sub_def less_imp_le)
    show ?thesis
    proof (cases "i = k")
      case True
      have only: "(\<forall>j\<in>?G - {i}. t < unat (?at j)) \<longleftrightarrow> t < unat (?at ?f)" for t
        using True k(2,3,5) by (intro first_rival_bound) simp_all
      have "unat (?at ?f) \<le> unat (this_block c)" using at [of ?f] by (simp add: word_le_nat_alt)
      then have "card (unrivaled_blocks ?K st (this_block c) i) = unat (?at ?f) - unat (?at i)"
        unfolding unrivaled_blocks_def only by (intro card_blocks) auto
      moreover have "unat (if ?at ?f > ?at i then ?at ?f - ?at i else 0) = unat (?at ?f) - unat (?at i)"
        using k(4) True by (simp add: unat_sub word_le_nat_alt word_less_nat_alt)
      ultimately show ?thesis unfolding t by simp
    next
      case False
      have "?at k \<le> ?at i" using k(4) k(5) [OF iG False] by (rule order_trans)
      then have "unrivaled_blocks ?K st (this_block c) i = {}" using k(1) False by (force simp: unrivaled_blocks_def word_le_nat_alt)
      then show ?thesis using t k(5) [OF iG False] by (auto simp: not_less)
    qed
  qed
qed

text \<open>
  C4. The timer that \<^verbatim>\<open>timeUnrivaled\<close> computes from the creation blocks of the edge and of its first recorded rival is
  the number of blocks at which the edge existed and none of its rivals did; it never reverts for an existing edge.
\<close>

theorem timeUnrivaled_counts_unrivaled_blocks:
  assumes "ecm_reach (keccak256 c) P R T s" "good_keccak (keccak256 c)" "T \<le> this_block c" "ecm_edgeExists s i"
  shows "\<exists>n. ecm_timeUnrivaled c s i = Inr n \<and> unat n = card (unrivaled_blocks (keccak256 c) (ecm_store s) (this_block c) i)"
  using timeUnrivaled_card [OF assms(2) ecm_reach_ok [OF assms(1,2)] assms(3)] assms(4)
  by (simp add: ecm_timeUnrivaled_def ecm_edgeExists_def present_def)

theorem timeUnrivaled_counts_unrivaled_blocks_witness:
  "\<exists>n. ecm_timeUnrivaled (sample_ctx 20 2) sample_s2 sample_id1 = Inr n \<and>
    unat n = card (unrivaled_blocks PKec (ecm_store sample_s2) 20 sample_id1)"
proof -
  have r: "ecm_reach (keccak256 (sample_ctx 20 2)) (\<lambda>_. True) (\<lambda>_ _. True) 8 sample_s2"
    unfolding sample_ctx_fields by (rule sample_reach2) simp_all
  have "ecm_edgeExists sample_s2 sample_id1" using sample_getEdge(1) by (rule ecm_getEdge_exists)
  from timeUnrivaled_counts_unrivaled_blocks [OF r _ _ this] show ?thesis by simp
qed

subsection \<open>The assertion below an edge\<close>

lemma prev_assertion_loop_returns:
  assumes K: "good_keccak K" and ok: "store_ok K H T st"
  shows "present st i \<Longrightarrow> unat (ce_level (edges_map st i)) = n \<Longrightarrow>
    \<exists>j. present st j \<and> ce_level (edges_map st j) = 0 \<and> prev_assertion_loop st (edges_map st i) = Some (Inr (ce_originId (edges_map st j)))"
proof (induction n arbitrary: i)
  case 0
  then have "ce_level (edges_map st i) = 0" by (simp add: unat_eq_zero)
  with 0 show ?case by (auto simp: prev_assertion_loop.simps [of st "edges_map st i"])
next
  case (Suc n)
  let ?o = "ce_originId (edges_map st i)" let ?f = "firstRivals st ?o"
  have lv: "ce_level (edges_map st i) > 0" using Suc.prems(2) by (simp add: word_gt_0 unat_gt_0 [symmetric])
  with store_okD(7) [OF ok Suc.prems(1)] obtain j where j: "rivaled K st ?o" "j \<in> peers K st ?o"
      "unat (ce_level (edges_map st i)) = Suc (unat (ce_level (edges_map st j)))"
    by (auto simp: origin_ok_def)
  have "?f \<in> peers K st ?o" using store_okD(3) [OF ok, of ?o] j(1) by (auto simp: rivals_at_def Let_def rivaled_def)
  then have f: "present st ?f" "mutualId K (edges_map st ?f) = mutualId K (edges_map st j)"
    using j(2) by (auto simp: peers_def)
  have "ce_level (edges_map st ?f) = ce_level (edges_map st j)" using f(2) mutualId_inject [OF K] by blast
  then have "unat (ce_level (edges_map st ?f)) = n" using j(3) Suc.prems(2) by simp
  from Suc.IH [OF f(1) this] show ?case
    using lv f(1) by (simp add: prev_assertion_loop.simps [of st "edges_map st i"] store_get_def present_def)
qed

text \<open>
  C30. In every reachable state the walk of \<^verbatim>\<open>getPrevAssertionHash\<close> from an existing edge ends, without reverting, at
  the origin of an edge of the block level: the hash of an assertion.
\<close>

theorem getPrevAssertionHash_returns:
  assumes "ecm_reach K P R T s" "good_keccak K" "ecm_edgeExists s i"
  shows "\<exists>j e. ecm_getEdge s j = Inr e \<and> ce_level e = 0 \<and> ecm_getPrevAssertionHash s i = Some (Inr (ce_originId e))"
proof -
  have "present (ecm_store s) i" using assms(3) by (simp add: ecm_edgeExists_def present_def)
  from prev_assertion_loop_returns [OF assms(2) ecm_reach_ok [OF assms(1,2)] this refl] this show ?thesis
    by (auto simp: ecm_getPrevAssertionHash_def getPrevAssertionHash_def ecm_getEdge_Inr store_get_def present_def)
qed

theorem getPrevAssertionHash_returns_witness:
  "\<exists>j e. ecm_getEdge sample_s2 j = Inr e \<and> ce_level e = 0 \<and>
    ecm_getPrevAssertionHash sample_s2 sample_id1 = Some (Inr (ce_originId e))"
proof (rule getPrevAssertionHash_returns)
  show "ecm_reach PKec (\<lambda>_. True) (\<lambda>_ _. True) 8 sample_s2" by (rule sample_reach2) simp_all
  show "ecm_edgeExists sample_s2 sample_id1" using sample_getEdge(1) by (rule ecm_getEdge_exists)
qed simp

end
