(* ===== verification/Edge_Stakes.thy ===== *)
theory Edge_Stakes
  imports Edge_Safety
begin

text \<open>
  The mini-stakes held by the challenge manager. The first edge of a group of layer zero rivals pays its stake to the
  contract, later ones pay the excess stake receiver, and the one that is confirmed is refunded once; so the
  contract always holds a stake for every group that has not been refunded.
\<close>

subsection \<open>The stake token\<close>

text \<open>
  What is assumed of the token: a transfer that succeeds moves the amount, and a transfer from an account
  that has the amount succeeds. The manager at \<open>this\<close> does not call itself.
\<close>

definition moves :: "('t \<Rightarrow> address \<Rightarrow> nat) \<Rightarrow> address \<Rightarrow> address \<Rightarrow> uint256 \<Rightarrow> 't \<Rightarrow> 't \<Rightarrow> bool" where
  "moves bal payer payee v t t' \<longleftrightarrow>
     unat v \<le> bal t payer \<and>
     bal t' = (let b = (bal t)(payer := bal t payer - unat v) in b(payee := b payee + unat v))"

definition standard_token :: "('t \<Rightarrow> address \<Rightarrow> nat) \<Rightarrow> address \<Rightarrow> ('h, 't) manager_ctx \<Rightarrow> bool" where
  "standard_token bal this c \<longleftrightarrow>
     address_this c = this \<and> msg_sender c \<noteq> this \<and>
     (\<forall>payer payee v t t'. safeTransferFrom c payer payee v t = Inr t' \<longrightarrow> moves bal payer payee v t t') \<and>
     (\<forall>payer payee v t t'. safeTransfer c payer payee v t = Inr t' \<longrightarrow> moves bal payer payee v t t') \<and>
     (\<forall>payer payee v t. unat v \<le> bal t payer \<longrightarrow> (\<exists>t'. safeTransfer c payer payee v t = Inr t'))"

text \<open>Others do not spend what the manager holds.\<close>

definition not_spent :: "('t \<Rightarrow> address \<Rightarrow> nat) \<Rightarrow> address \<Rightarrow> 't \<Rightarrow> 't \<Rightarrow> bool" where
  "not_spent bal this t t' \<longleftrightarrow> bal t this \<le> bal t' this"

lemma moves_this:
  assumes "moves bal payer payee v t t'"
  shows "payer \<noteq> this \<Longrightarrow> bal t this \<le> bal t' this" "payer \<noteq> this \<Longrightarrow> payee = this \<Longrightarrow> bal t' this = bal t this + unat v"
    "bal t this \<le> bal t' this + unat v"
  using assms by (auto simp: moves_def Let_def)

subsection \<open>Groups that are owed a stake\<close>

definition groups :: "('h::zero packed list \<Rightarrow> 'h) \<Rightarrow> ('h ChallengeEdge \<Rightarrow> bool) \<Rightarrow> 'h EdgeStore \<Rightarrow> 'h set" where
  "groups K Q st = (\<lambda>i. mutualId K (edges_map st i)) ` {i. present st i \<and> Q (edges_map st i)}"

definition owed :: "('h::zero packed list \<Rightarrow> 'h) \<Rightarrow> 'h EdgeStore \<Rightarrow> 'h set" where
  "owed K st = groups K (\<lambda>e. ce_claimId e \<noteq> 0) st - groups K ce_refunded st"

lemma finite_owed: "ids_ok K st \<Longrightarrow> finite (owed K st)"
  by (simp add: owed_def groups_def ids_ok_def)

lemma groups_add:
  assumes "store_add K st e = Inr (d, st')" "fresh_edge T e"
  shows "groups K Q st' = (if Q e then insert (mutualId K e) (groups K Q st) else groups K Q st)"
proof -
  note S = store_add_Inr(1,2) [OF assms(1)]
  have "{i. present st' i \<and> Q (edges_map st' i)} =
      (if Q e then insert (edge_id K e) {i. present st i \<and> Q (edges_map st i)} else {i. present st i \<and> Q (edges_map st i)})"
    using S present_add [OF assms(1) fresh_edge_exists [OF assms(2)]] by auto
  moreover have "(\<lambda>i. mutualId K (edges_map st' i)) ` {i. present st i \<and> Q (edges_map st i)} = groups K Q st"
    unfolding groups_def using S by (intro image_cong) auto
  ultimately show ?thesis using S(2) by (simp add: groups_def)
qed

lemma owed_add:
  assumes "store_add K st e = Inr (d, st')" "fresh_edge T e"
  shows "owed K st' \<subseteq> (if ce_claimId e \<noteq> 0 then insert (mutualId K e) (owed K st) else owed K st)"
  using assms(2) by (auto simp: owed_def groups_add [OF assms] fresh_edge_def)

lemma groups_same: "same_cores st st' \<Longrightarrow> groups K (\<lambda>e. ce_claimId e \<noteq> 0) st' = groups K (\<lambda>e. ce_claimId e \<noteq> 0) st"
  by (simp add: groups_def same_coresD(4,5) same_core_fields(6) [OF same_coresD(1)])

lemma owed_same:
  assumes "same_cores st st'" "\<And>i. ce_refunded (edges_map st' i) = ce_refunded (edges_map st i)"
  shows "owed K st' = owed K st"
  using assms(2) groups_same [OF assms(1)] by (simp add: owed_def groups_def same_coresD(4,5) [OF assms(1)])

text \<open>A further edge of a group of layer zero edges is not owed a further stake.\<close>

lemma rivals_owed:
  assumes K: "good_keccak K" and ok: "store_ok K H T st" and add: "store_add K st e = Inr (d, st')"
    and e: "ce_startHeight e = 0" "ce_endHeight e = H (ce_level e)" and rival: "added_hasRival d"
  shows "\<exists>i. present st i \<and> mutualId K (edges_map st i) = mutualId K e \<and> ce_claimId (edges_map st i) \<noteq> 0"
proof -
  have "firstRivals st (mutualId K e) \<noteq> 0" using rival store_add_Inr(5) [OF add] by simp
  then obtain i where "i \<in> peers K st (mutualId K e)"
    using store_okD(3) [OF ok, of "mutualId K e"] by (auto simp: rivals_at_def Let_def split: if_splits)
  then have i: "present st i" "mutualId K (edges_map st i) = mutualId K e" by (auto simp: peers_def)
  with store_okD(6) [OF ok i(1)] e show ?thesis by (auto simp: layer_ok_def mutualId_inject [OF K])
qed

lemma owed_add_rival:
  assumes "good_keccak K" "store_ok K H T st" "store_add K st e = Inr (d, st')" "fresh_edge T' e" "ce_claimId e \<noteq> 0"
    "ce_startHeight e = 0" "ce_endHeight e = H (ce_level e)" "added_hasRival d"
  shows "owed K st' = owed K st"
proof -
  have "mutualId K e \<in> groups K (\<lambda>e. ce_claimId e \<noteq> 0) st"
    using rivals_owed [OF assms(1-3,6-8)] by (force simp: groups_def)
  moreover have "\<not> ce_refunded e" using assms(4) by (simp add: fresh_edge_def)
  ultimately show ?thesis by (auto simp: owed_def groups_add [OF assms(3,4)])
qed

lemma owed_refund:
  assumes ok: "store_ok K H T st" and i: "present st i" "ce_status (edges_map st i) = Confirmed" "isLayerZero (edges_map st i)"
    "\<not> ce_refunded (edges_map st i)"
    and st': "st' = st\<lparr>edges_map := (edges_map st)(i := (edges_map st i)\<lparr>ce_refunded := True\<rparr>)\<rparr>"
  shows "mutualId K (edges_map st i) \<in> owed K st" "owed K st' = owed K st - {mutualId K (edges_map st i)}"
proof -
  have "mutualId K (edges_map st i) \<notin> groups K ce_refunded st"
  proof
    assume "mutualId K (edges_map st i) \<in> groups K ce_refunded st"
    then obtain j where j: "present st j" "ce_refunded (edges_map st j)" "mutualId K (edges_map st j) = mutualId K (edges_map st i)"
      by (auto simp: groups_def)
    then have "j = i"
      using confirmed_unique [OF store_okD(4) [OF ok] j(1) i(1)] store_okD(10) [OF ok j(1,2)] i(2) by blast
    with j(2) i(4) show False by simp
  qed
  with i(1,3) show "mutualId K (edges_map st i) \<in> owed K st" by (auto simp: owed_def groups_def isLayerZero_def)
  have sc: "same_cores st st'" unfolding st' by (simp add: same_cores_def same_core_def)
  have "{j. present st' j \<and> ce_refunded (edges_map st' j)} = insert i {j. present st j \<and> ce_refunded (edges_map st j)}"
    using i(1) by (auto simp: st' present_def edge_exists_def)
  then have "groups K ce_refunded st' = insert (mutualId K (edges_map st i)) (groups K ce_refunded st)"
    by (simp add: groups_def same_coresD(4) [OF sc])
  then show "owed K st' = owed K st - {mutualId K (edges_map st i)}" by (auto simp: owed_def groups_same [OF sc])
qed

subsection \<open>The contract is solvent\<close>

definition solvent :: "('t \<Rightarrow> address \<Rightarrow> nat) \<Rightarrow> address \<Rightarrow> ('h::zero packed list \<Rightarrow> 'h) \<Rightarrow> ('h, 't) EdgeChallengeManager \<Rightarrow> bool" where
  "solvent bal this K s \<longleftrightarrow>
     (stakeToken s \<noteq> 0 \<longrightarrow> card (owed K (ecm_store s)) * unat (stakeAmount s) \<le> bal (tokens s) this)"

lemma solvent_less:
  assumes "solvent bal this K s" "finite (owed K (ecm_store s))" "same_config s s'" "owed K (ecm_store s') \<subseteq> owed K (ecm_store s)"
    "stakeToken s \<noteq> 0 \<Longrightarrow> stakeAmount s \<noteq> 0 \<Longrightarrow> bal (tokens s) this \<le> bal (tokens s') this"
  shows "solvent bal this K s'"
proof (cases "stakeToken s \<noteq> 0 \<and> stakeAmount s \<noteq> 0")
  case True
  have "card (owed K (ecm_store s')) * unat (stakeAmount s) \<le> card (owed K (ecm_store s)) * unat (stakeAmount s)"
    using card_mono [OF assms(2,4)] by simp
  also have "\<dots> \<le> bal (tokens s) this" using assms(1) True by (simp add: solvent_def)
  also have "\<dots> \<le> bal (tokens s') this" using assms(5) True by blast
  finally show ?thesis using assms(3) by (simp add: solvent_def same_config_def)
qed (use assms(3) in \<open>auto simp: solvent_def same_config_def\<close>)

lemma add_lower_child_owed:
  "add_lower_child K st e = Inr (d, st') \<Longrightarrow> fresh_edge T e \<Longrightarrow> ce_claimId e = 0 \<Longrightarrow> owed K st' \<subseteq> owed K st"
  using owed_add [of K st e d st' T] by (auto simp: add_lower_child_def split: if_splits)

lemma store_bisectEdge_owed:
  fixes st :: "'h::zero EdgeStore"
  assumes "store_bisectEdge c st i r pfx = Inr ((l, la, ua), st')" "this_block c \<noteq> 0"
  shows "owed (keccak256 c) st' \<subseteq> owed (keccak256 c) st"
  using assms(1)
proof (rule store_bisectEdge_Inr)
  let ?K = "keccak256 c" and ?ce = "edges_map st i"
  fix mid lo up st1 st2
  assume kids: "newChildEdge c (ce_originId ?ce) (ce_startHistoryRoot ?ce) (ce_startHeight ?ce) r mid (ce_level ?ce) = Inr lo"
      "newChildEdge c (ce_originId ?ce) r mid (ce_endHistoryRoot ?ce) (ce_endHeight ?ce) (ce_level ?ce) = Inr up"
    and adds: "add_lower_child ?K st lo = Inr (la, st1)" "store_add ?K st1 up = Inr (ua, st2)"
    and fin: "st' = st2\<lparr>edges_map := (edges_map st2)(i := (edges_map st2 i)\<lparr>ce_lowerChildId := l, ce_upperChildId := edge_id ?K up\<rparr>)\<rparr>"
  note lo = newChildEdge_Inr [OF kids(1)] and up = newChildEdge_Inr [OF kids(2)]
  have fresh: "fresh_edge (this_block c) lo" "fresh_edge (this_block c) up" using lo up assms(2) by (auto simp: fresh_edge_def)
  have "owed ?K st' = owed ?K st2" unfolding fin by (rule owed_same) (simp_all add: same_cores_def same_core_def)
  also have "\<dots> \<subseteq> owed ?K st1" using owed_add [OF adds(2) fresh(2)] up by auto
  also have "\<dots> \<subseteq> owed ?K st" using add_lower_child_owed [OF adds(1) fresh(1)] lo by auto
  finally show "owed ?K st' \<subseteq> owed ?K st" .
qed

lemma set_confirmed_owed:
  assumes "set_confirmed c st i = Inr st'"
  shows "owed (keccak256 c) st' = owed (keccak256 c) st"
proof (rule owed_same)
  show "same_cores st st'"
    using assms by (auto simp: set_confirmed_def setConfirmedRival_def setConfirmed_def bindR_eq_Inr Let_def same_cores_def same_core_def)
  show "ce_refunded (edges_map st' j) = ce_refunded (edges_map st j)" for j
    using assms by (auto simp: set_confirmed_def setConfirmedRival_def setConfirmed_def bindR_eq_Inr Let_def split: if_splits)
qed

lemma take_stake_pays:
  assumes "take_stake c rival s = Inr s'" "stakeToken s \<noteq> 0" "stakeAmount s \<noteq> 0"
  shows "safeTransferFrom c (msg_sender c) (if rival then excessStakeReceiver s else address_this c) (stakeAmount s) (tokens s)
    = Inr (tokens s')"
  using assms by (auto simp: take_stake_def bindR_eq_Inr Let_def)

lemma create_solvent:
  assumes K: "good_keccak (keccak256 c)" and tok: "standard_token bal this c" and ok: "store_ok (keccak256 c) (level_height s) T (ecm_store s)"
    and b: "this_block c \<noteq> 0" and c: "createLayerZeroEdge c args s = Inr (i, s')" and s: "solvent bal this (keccak256 c) s"
  shows "solvent bal this (keccak256 c) s'"
  using c
proof (rule createLayerZeroEdge_Inr)
  let ?K = "keccak256 c" and ?st = "ecm_store s"
  fix ard d st t
  assume cr: "store_createLayerZeroEdge c ?st args ard (osp_at c) (level_height s (arg_level args)) (NUM_BIGSTEP_LEVEL s) = Inr (d, st)"
    and ts: "take_stake c (added_hasRival d) (s\<lparr>ecm_store := st\<rparr>) = Inr t" and s': "s' = emit (EdgeAdded d) t"
  obtain e where e: "store_add ?K ?st e = Inr (d, st)" "fresh_edge (this_block c) e" "ce_claimId e \<noteq> 0" "ce_startHeight e = 0"
      "ce_endHeight e = level_height s (ce_level e)"
    using store_createLayerZeroEdge_Inr [of c ?st args ard "osp_at c" "level_height s" "NUM_BIGSTEP_LEVEL s" d st] cr b by metis
  obtain u where u: "t = s\<lparr>ecm_store := st, tokens := u\<rparr>" using take_stake_Inr [OF ts] by auto
  have fin: "finite (owed ?K ?st)" using store_okD(1) [OF ok] by (rule finite_owed)
  have cfg: "same_config s s'" using s' u by simp
  have pays: "moves bal (msg_sender c) (if added_hasRival d then excessStakeReceiver s else this) (stakeAmount s) (tokens s) u"
    if "stakeToken s \<noteq> 0" "stakeAmount s \<noteq> 0"
    using take_stake_pays [OF ts] that tok u by (auto simp: standard_token_def)
  have sender: "msg_sender c \<noteq> this" using tok by (simp add: standard_token_def)
  show "solvent bal this ?K s'"
  proof (cases "added_hasRival d")
    case True
    have "owed ?K st = owed ?K ?st" using K ok e(1-5) True by (rule owed_add_rival)
    then show ?thesis using moves_this(1) [OF pays sender] by (intro solvent_less [OF s fin cfg]) (simp_all add: s' u)
  next
    case False
    have "owed ?K st \<subseteq> insert (mutualId ?K e) (owed ?K ?st)" using owed_add [OF e(1,2)] e(3) by simp
    then have card: "card (owed ?K st) \<le> Suc (card (owed ?K ?st))"
      using card_mono [of "insert (mutualId ?K e) (owed ?K ?st)" "owed ?K st"] fin card_insert_le_m1 [of _ "owed ?K ?st"]
      by (simp add: card_insert_if split: if_splits)
    show ?thesis unfolding solvent_def
    proof
      assume z: "stakeToken s' \<noteq> 0"
      show "card (owed ?K (ecm_store s')) * unat (stakeAmount s') \<le> bal (tokens s') this"
      proof (cases "stakeAmount s = 0")
        case True
        then show ?thesis using cfg by (simp add: same_config_def)
      next
        case nz: False
        have "bal u this = bal (tokens s) this + unat (stakeAmount s)"
          using moves_this(2) [OF pays [OF _ nz] sender] z cfg False by (simp add: same_config_def)
        moreover have "card (owed ?K ?st) * unat (stakeAmount s) \<le> bal (tokens s) this"
          using s z cfg by (simp add: solvent_def same_config_def)
        moreover have "card (owed ?K st) * unat (stakeAmount s) \<le> Suc (card (owed ?K ?st)) * unat (stakeAmount s)"
          using card by (rule mult_le_mono1)
        ultimately show ?thesis by (simp add: s' u emit_def)
      qed
    qed
  qed
qed

lemma refund_solvent:
  assumes tok: "standard_token bal this c" and ok: "store_ok (keccak256 c) H T (ecm_store s)"
    and r: "refundStake c i s = Inr s'" and s: "solvent bal this (keccak256 c) s"
  shows "solvent bal this (keccak256 c) s'"
  using r
proof (rule refundStake_Inr)
  let ?K = "keccak256 c" and ?st = "ecm_store s"
  let ?m = "mutualId ?K (edges_map ?st i)"
  fix e t
  assume i: "present ?st i" "setRefunded ?K (edges_map ?st i) = Inr e"
    and s': "ecm_store s' = ?st\<lparr>edges_map := (edges_map ?st)(i := e)\<rparr>" "same_config s s'" "tokens s' = t"
    and t: "if stakeToken s \<noteq> 0 \<and> stakeAmount s \<noteq> 0
       then safeTransfer c (address_this c) (ce_staker e) (stakeAmount s) (tokens s) = Inr t else t = tokens s"
  have st': "ecm_store s' = ?st\<lparr>edges_map := (edges_map ?st)(i := (edges_map ?st i)\<lparr>ce_refunded := True\<rparr>)\<rparr>"
    and ei: "ce_status (edges_map ?st i) = Confirmed" "isLayerZero (edges_map ?st i)" "\<not> ce_refunded (edges_map ?st i)"
    using i(2) s'(1) by (simp_all add: setRefunded_Inr)
  note O = owed_refund [OF ok i(1) ei st']
  have fin: "finite (owed ?K ?st)" using store_okD(1) [OF ok] by (rule finite_owed)
  have card: "card (owed ?K ?st) = Suc (card (owed ?K (ecm_store s')))"
    using card.remove [OF fin O(1)] O(2) by simp
  show "solvent bal this ?K s'" unfolding solvent_def
  proof
    assume z: "stakeToken s' \<noteq> 0"
    show "card (owed ?K (ecm_store s')) * unat (stakeAmount s') \<le> bal (tokens s') this"
    proof (cases "stakeAmount s = 0")
      case True
      then show ?thesis using s'(2) by (simp add: same_config_def)
    next
      case False
      then have "moves bal this (ce_staker e) (stakeAmount s) (tokens s) t"
        using t z s'(2) tok by (auto simp: standard_token_def same_config_def)
      from moves_this(3) [OF this, of this] have "bal (tokens s) this \<le> bal t this + unat (stakeAmount s)" .
      moreover have "card (owed ?K ?st) * unat (stakeAmount s) \<le> bal (tokens s) this"
        using s z s'(2) by (simp add: solvent_def same_config_def)
      ultimately show ?thesis using s'(2,3) unfolding card by (simp add: same_config_def)
    qed
  qed
qed

lemma confirm_solvent:
  assumes "set_confirmed c (ecm_store s) i = Inr (ecm_store s')" "same_config s s'" "tokens s' = tokens s"
    "ids_ok (keccak256 c) (ecm_store s)" "solvent bal this (keccak256 c) s"
  shows "solvent bal this (keccak256 c) s'"
  using set_confirmed_owed [OF assms(1)] assms(2,3) by (intro solvent_less [OF assms(5) finite_owed [OF assms(4)]]) auto

lemma bisect_solvent:
  assumes "bisectEdge c i r pfx s = Inr (kids, s')" "this_block c \<noteq> 0" "ids_ok (keccak256 c) (ecm_store s)"
    "solvent bal this (keccak256 c) s"
  shows "solvent bal this (keccak256 c) s'"
  using assms(1)
proof (rule bisectEdge_Inr)
  fix l la ua st
  assume "store_bisectEdge c (ecm_store s) i r pfx = Inr ((l, la, ua), st)" "ecm_store s' = st" "same_config s s'" "tokens s' = tokens s"
  then show ?thesis
    using store_bisectEdge_owed [of c "ecm_store s" i r pfx l la ua st] assms(2)
    by (intro solvent_less [OF assms(4) finite_owed [OF assms(3)]]) auto
qed

lemma ecm_step_solvent:
  assumes K: "good_keccak K" and step: "ecm_step K (standard_token bal this) (not_spent bal this) T s s'" and T: "T \<noteq> 0"
    and ok: "store_ok K (level_height s) T (ecm_store s)" and s: "solvent bal this K s"
  shows "solvent bal this K s'"
proof -
  have ids: "ids_ok K (ecm_store s)" using store_okD(1) [OF ok] .
  from step show ?thesis
  proof cases
    case (create c args i)
    show ?thesis using create_solvent [of c bal this s T args i s'] create K T ok s by simp
  next
    case (bisect c i r pfx kids)
    show ?thesis using bisect_solvent [OF bisect(4), of bal this] bisect(1,2) T ids s by simp
  next
    case (by_children c i)
    then show ?thesis using confirm_solvent [of c s i s' bal this] confirmations(1) [OF by_children(4)] ids s by simp
  next
    case (by_claim c i j)
    then show ?thesis using confirm_solvent [of c s i s' bal this] confirmations(2) [OF by_claim(4)] ids s by simp
  next
    case (by_time c i ancestors esd)
    then show ?thesis using confirm_solvent [of c s i s' bal this] confirmations_ctx(1) [OF by_time(4)] ids s by simp
  next
    case (by_proof c i osd cfg before after)
    then show ?thesis using confirm_solvent [of c s i s' bal this] confirmations_ctx(2) [OF by_proof(4)] ids s by simp
  next
    case (refund_stake c i)
    then show ?thesis using refund_solvent [OF refund_stake(3) _ refund_stake(4)] ok s by blast
  next
    case (token t)
    then show ?thesis by (intro solvent_less [OF s finite_owed [OF ids]]) (simp_all add: not_spent_def)
  qed
qed

lemma ecm_reach_solvent:
  assumes "ecm_reach K (standard_token bal this) (not_spent bal this) T s" "good_keccak K"
  shows "solvent bal this K s"
  using assms(1)
proof (induction rule: ecm_reach.induct)
  case (deployed chain period osp h1 h2 h3 token amount receiver n t s T)
  then have "ecm_store s = empty_store" by (auto simp: ecm_initialize_def bindR_eq_Inr uninitialized_def)
  then show ?case by (simp add: solvent_def owed_def groups_def present_def empty_store_def no_edge_def edge_exists_def)
next
  case (transaction T s T' s')
  have "store_ok K (level_height s) T' (ecm_store s)"
    using ecm_reach_ok [OF transaction.hyps(1) assms(2)] transaction.hyps(2) by (rule store_ok_later)
  then show ?case using transaction.IH by (rule ecm_step_solvent [OF assms(2) transaction.hyps(4,3)])
qed

text \<open>
  C3. The manager is solvent: with a standard ERC-20 stake token, after any transactions it holds a stake for every
  group of layer zero rivals that has not been refunded, so a confirmed layer zero edge whose stake was not refunded
  can always be refunded: \<^verbatim>\<open>refundStake\<close> succeeds and pays its staker.
\<close>

theorem confirmed_stake_is_refunded:
  assumes "ecm_reach (keccak256 c) (standard_token bal this) (not_spent bal this) T s" "good_keccak (keccak256 c)"
    "standard_token bal this c" "ecm_getEdge s i = Inr e" "ce_status e = Confirmed" "isLayerZero e" "\<not> ce_refunded e"
  shows "\<exists>s'. refundStake c i s = Inr s' \<and> ecm_getEdge s' i = Inr (e\<lparr>ce_refunded := True\<rparr>) \<and>
    (if stakeToken s \<noteq> 0 \<and> stakeAmount s \<noteq> 0
     then moves bal this (ce_staker e) (stakeAmount s) (tokens s) (tokens s') else tokens s' = tokens s)"
proof -
  let ?K = "keccak256 c" and ?st = "ecm_store s"
  have ok: "store_ok ?K (level_height s) T ?st" by (rule ecm_reach_ok [OF assms(1,2)])
  have e: "present ?st i" "e = edges_map ?st i" using assms(4) by (simp_all add: ecm_getEdge_Inr)
  have sr: "setRefunded ?K e = Inr (e\<lparr>ce_refunded := True\<rparr>)" using assms(5-7) by (simp add: setRefunded_Inr)
  have get: "store_get ?st i = Inr e" using e by (simp add: store_get_def present_def)
  have "mutualId ?K e \<in> owed ?K ?st" using owed_refund(1) [OF ok e(1)] assms(5-7) e(2) by simp
  then have "0 < card (owed ?K ?st)" using finite_owed [OF store_okD(1) [OF ok]] card_gt_0_iff by blast
  then have bal: "unat (stakeAmount s) \<le> bal (tokens s) this" if "stakeToken s \<noteq> 0"
    using ecm_reach_solvent [OF assms(1,2)] that unfolding solvent_def by (metis Suc_leI le_trans mult_le_mono1 nat_mult_1 One_nat_def)
  have ex: "edge_exists e" using e by (simp add: present_def)
  show ?thesis
  proof (cases "stakeToken s \<noteq> 0 \<and> stakeAmount s \<noteq> 0")
    case True
    then obtain t where t: "safeTransfer c this (ce_staker e) (stakeAmount s) (tokens s) = Inr t"
      using bal assms(3) unfolding standard_token_def by blast
    then have "moves bal this (ce_staker e) (stakeAmount s) (tokens s) t" using assms(3) unfolding standard_token_def by blast
    moreover have "address_this c = this" using assms(3) by (simp add: standard_token_def)
    ultimately show ?thesis using True t get sr ex
      by (simp add: refundStake_def Let_def ecm_getEdge_Inr present_def edge_exists_def)
  next
    case False
    then show ?thesis using get sr ex by (auto simp: refundStake_def Let_def ecm_getEdge_Inr present_def edge_exists_def)
  qed
qed

lemma sample_standard_token: "a \<noteq> 50 \<Longrightarrow> standard_token (\<lambda>t. t) 50 (sample_ctx n a)"
  by (auto simp: standard_token_def sample_pay_def moves_def split: if_splits)

theorem confirmed_stake_is_refunded_witness:
  "\<exists>s'. refundStake (sample_ctx 9 1) sample_id1 sample_confirmed = Inr s' \<and>
    ecm_getEdge s' sample_id1 = Inr (sample_edge1\<lparr>ce_status := Confirmed, ce_confirmedAtBlock := 9, ce_refunded := True\<rparr>) \<and>
    (if stakeToken sample_confirmed \<noteq> 0 \<and> stakeAmount sample_confirmed \<noteq> 0
     then moves (\<lambda>t. t) 50 1 (stakeAmount sample_confirmed) (tokens sample_confirmed) (tokens s')
     else tokens s' = tokens sample_confirmed)"
proof -
  let ?e = "sample_edge1\<lparr>ce_status := Confirmed, ce_confirmedAtBlock := 9\<rparr>"
  have reach: "ecm_reach (keccak256 (sample_ctx 9 1)) (standard_token (\<lambda>t. t) 50) (not_spent (\<lambda>t. t) 50) 9 sample_confirmed"
    unfolding sample_ctx_fields by (rule sample_reach3) (simp_all add: sample_standard_token)
  have "isLayerZero ?e" "\<not> ce_refunded ?e" "ce_staker ?e = 1" by (simp_all add: isLayerZero_def sample_edge_def zero_psym_def)
  with confirmed_stake_is_refunded [OF reach _ sample_standard_token sample_getEdge(3)]
  show ?thesis by (simp split del: if_split cong del: if_weak_cong)
qed

end
