(* ===== verification/Honest_Moves.thy ===== *)
theory Honest_Moves
  imports Edge_Safety Edge_Tracker "HOL-Library.Countable"
begin

text \<open>
  The validator in Go against the contract in Solidity: both compute the same bisection point, and the bisection that an
  edge tracker determines from the history commitment provider is accepted by the challenge manager.
\<close>

subsection \<open>The bisection point\<close>

lemma ucast_simps64:
  fixes a b :: uint64
  shows "(ucast a :: uint256) \<le> ucast b \<longleftrightarrow> a \<le> b" "(ucast a :: uint256) = ucast b \<longleftrightarrow> a = b"
    "b \<le> a \<Longrightarrow> (ucast a :: uint256) - ucast b = ucast (a - b)" "(ucast a XOR ucast b :: uint256) = ucast (a XOR b)"
proof -
  show "(ucast a :: uint256) \<le> ucast b \<longleftrightarrow> a \<le> b" by (simp add: word_le_nat_alt)
  show "(ucast a :: uint256) = ucast b \<longleftrightarrow> a = b" by (simp add: word_unat_eq_iff)
  show "(ucast a XOR ucast b :: uint256) = ucast (a XOR b)" by (rule bit_word_eqI) (auto simp: bit_simps bit_ucast64)
  assume le: "b \<le> a"
  then have "(ucast b :: uint256) \<le> ucast a" by (simp add: word_le_nat_alt)
  from unat_sub [OF this] unat_sub [OF le] show "(ucast a :: uint256) - ucast b = ucast (a - b)"
    by (simp add: word_unat_eq_iff)
qed

lemma unat_ucast_succ: "unat a + 1 < 2 ^ 64 \<Longrightarrow> (ucast (a :: uint64) + 1 :: uint256) = ucast (a + 1)"
proof -
  assume a: "unat a + 1 < 2 ^ 64"
  then have "unat (a + 1) = unat a + 1" by (simp add: unat_word_ariths)
  moreover have "unat (ucast a + 1 :: uint256) = unat a + 1" using a by (simp add: unat_word_ariths)
  ultimately show ?thesis by (simp add: word_unat_eq_iff)
qed

lemma mandatoryBisectionHeight_Bisect:
  fixes pre post :: uint64
  assumes gap: "unat pre + 2 \<le> unat post" and m: "Bisect pre post = Inr m"
  shows "mandatoryBisectionHeight (ucast pre) (ucast post) = (Inr (ucast m) :: 'h revert + uint256)"
proof -
  have lt: "unat post < 2 ^ 64" by (rule unat_lt64)
  have le: "pre \<le> post" using gap by (simp add: word_le_nat_alt)
  have len: "(ucast post :: uint256) - ucast pre = ucast (post - pre)" using le by (rule ucast_simps64)
  have d: "unat (post - pre) = unat post - unat pre" using le by (rule unat_sub)
  have pre2: "unat (pre + 2) = unat pre + 2" using gap lt by (intro unat_add2) linarith
  have sub: "checked_sub (ucast post :: uint256) (ucast pre) = (Inr (ucast (post - pre)) :: 'h revert + uint256)"
    using le by (simp add: checked_sub_def ucast_simps64)
  have two: "\<not> (ucast (post - pre) :: uint256) < 2" using d gap by (simp add: word_less_nat_alt)
  show ?thesis
  proof (cases "unat post = unat pre + 2")
    case True
    then have "pre + 2 = post" using pre2 by (simp add: word_unat_eq_iff)
    then have "m = pre + 1" using m by (simp add: Bisect_def)
    moreover have "(ucast (post - pre) :: uint256) = 2" using d True by (simp add: word_unat_eq_iff)
    ultimately show ?thesis
      using sub two True lt unat_ucast_succ [of pre] by (simp add: mandatoryBisectionHeight_def checked_add_def)
  next
    case False
    let ?x = "(post - 1) XOR pre" and ?last = "ucast (post - 1) :: uint256"
    have "1 \<le> post" using gap by (simp add: word_le_nat_alt)
    then have last: "checked_sub (ucast post :: uint256) 1 = (Inr ?last :: 'h revert + uint256)"
      using ucast_simps64(1,3) [of 1 post] by (simp add: checked_sub_def)
    have post1: "unat (post - 1) = unat post - 1" using gap by (intro unat_pred) linarith
    have "?x \<noteq> 0"
    proof
      assume "?x = 0"
      then have "post - 1 = pre" by (simp add: bit_eq_iff bit_simps)
      with gap post1 show False by simp
    qed
    note lz = LeadingZeros64_nonzero [OF this]
    have pos: "0 < unat (ucast ?x :: uint256)" using \<open>?x \<noteq> 0\<close> by (simp add: unat_gt_0)
    let ?b = "bit_len (unat ?x) - 1"
    have "unat (of_nat ?b :: uint256) = ?b" 
      using bit_len_unat_le [of ?x] by (intro unat_of_nat256 le_less_trans [of ?b 64]) simp_all
    moreover have "?last XOR ucast pre = (ucast ?x :: uint256)" by (rule ucast_simps64)
    moreover have "(ucast (post - pre) :: uint256) \<noteq> 2" using d False gap by (simp add: word_unat_eq_iff)
    ultimately have "mandatoryBisectionHeight (ucast pre) (ucast post) = (Inr (?last AND push_bit ?b (- 1)) :: 'h revert + uint256)"
      using sub two last mostSignificantBit_bit_len [OF pos, where 'a = 'h] by (simp add: mandatoryBisectionHeight_def)
    moreover have "m = (post - 1) AND push_bit ?b (- 1)"
    proof -
      have "\<not> pre + 2 > post" "pre + 2 \<noteq> post" using pre2 gap False by (auto simp: word_less_nat_alt)
      then show ?thesis using m lz by (simp add: Bisect_def Let_def)
    qed
    moreover have "?last AND push_bit ?b (- 1) = ucast ((post - 1) AND push_bit ?b (- 1))"
      unfolding word_unat_eq_iff unat_ucast64 unat_and_high_mask ..
    ultimately show ?thesis by simp
  qed
qed

text \<open>
  The mandatory bisection height of the contract is the bisection point of the validator: for 64-bit heights the
  two functions return the same height, and both fail when the edge is too short to bisect.
\<close>

theorem mandatoryBisectionHeight_is_Bisect:
  fixes pre post :: uint64
  assumes "unat pre + 2 < 2 ^ 64"
  shows "case Bisect pre post of
      Inr m \<Rightarrow> mandatoryBisectionHeight (ucast pre) (ucast post) = (Inr (ucast m) :: 'h revert + uint256)
    | Inl _ \<Rightarrow> \<exists>e. mandatoryBisectionHeight (ucast pre) (ucast post) = (Inl e :: 'h revert + uint256)"
proof (cases "unat pre + 2 \<le> unat post")
  case True
  then obtain m where "Bisect pre post = Inr m" using Bisect_point by blast
  with mandatoryBisectionHeight_Bisect [OF True this] show ?thesis by simp
next
  case False
  then have "Bisect pre post = Inl ErrUnableToBisect" using assms by (intro Bisect_error) auto
  moreover have "\<exists>e. mandatoryBisectionHeight (ucast pre) (ucast post) = (Inl e :: 'h revert + uint256)"
  proof (cases "pre \<le> post")
    case le: True
    have "(ucast (post - pre) :: uint256) < 2" using unat_sub [OF le] False by (simp add: word_less_nat_alt)
    then show ?thesis using le by (simp add: mandatoryBisectionHeight_def checked_sub_def ucast_simps64)
  qed (simp add: mandatoryBisectionHeight_def checked_sub_def ucast_simps64)
  ultimately show ?thesis by simp
qed

theorem mandatoryBisectionHeight_is_Bisect_witness:
  "Bisect 4 8 = Inr 6 \<and> mandatoryBisectionHeight 4 8 = (Inr 6 :: sym revert + uint256)"
proof -
  have "Bisect 4 8 = Inr 6" by code_simp
  with mandatoryBisectionHeight_is_Bisect [of 4 8, where 'h = sym] show ?thesis by simp
qed

subsection \<open>A bisection that the contract accepts\<close>

lemma good_keccak_never_zero: "good_keccak (keccak256 c) \<Longrightarrow> never_zero (kec c)"
  by (simp add: good_keccak_def never_zero_def keccak_of_def)

lemma store_add_succeeds:
  assumes "\<not> present st (edge_id K e)" "ce_startHeight e < ce_endHeight e"
  shows "\<exists>d st'. store_add K st e = Inr (d, st') \<and> edges_map st' = (edges_map st)(edge_id K e := e)"
proof -
  have "edge_length K e = Inr (ce_endHeight e - ce_startHeight e)"
    using assms(2) less_imp_neq [OF assms(2)] by (simp add: edge_length_def checked_sub_def less_imp_le)
  then show ?thesis using assms(1) by (simp add: store_add_def Let_def present_def)
qed

lemma add_lower_child_succeeds:
  assumes "ce_startHeight e < ce_endHeight e"
  shows "\<exists>la st1. add_lower_child K st e = Inr (la, st1) \<and>
    (\<forall>j. j \<noteq> edge_id K e \<or> present st j \<longrightarrow> edges_map st1 j = edges_map st j)"
proof (cases "present st (edge_id K e)")
  case True
  then show ?thesis by (simp add: add_lower_child_def present_def)
next
  case False
  then show ?thesis using store_add_succeeds [OF False assms] by (auto simp: add_lower_child_def present_def)
qed

lemma store_bisectEdge_accepts:
  fixes st :: "'h::zero EdgeStore" and c :: "('h, 'z) store_ctx_scheme"
  assumes K: "good_keccak (keccak256 c)" and ce: "ce = edges_map st i"
    and i: "present st i" "ce_status ce = Pending" "hasRival (keccak256 c) st i = Inr True" "hashes_ok ce"
      "ce_lowerChildId ce = 0" "ce_upperChildId ce = 0"
    and mid: "mandatoryBisectionHeight (ce_startHeight ce) (ce_endHeight ce) = (Inr mid :: 'h revert + uint256)"
      "ce_startHeight ce < mid" "mid < ce_endHeight ce" "unat (ce_endHeight ce) + 1 < 2 ^ 256"
    and pf: "decode_prefix c bytes = Some (preExp, pf)" "r \<noteq> 0"
      "verifyPrefixProof_sol (kec c) r (mid + 1) (ce_endHistoryRoot ce) (ce_endHeight ce + 1) preExp pf = Inr ()"
    and up: "\<not> present st (idComponent (keccak256 c) (ce_level ce) (ce_originId ce) mid r (ce_endHeight ce) (ce_endHistoryRoot ce))"
  shows "\<exists>res. store_bisectEdge c st i r bytes = Inr res"
proof -
  let ?K = "keccak256 c"
  have h: "ce_originId ce \<noteq> 0" "ce_startHistoryRoot ce \<noteq> 0" "ce_endHistoryRoot ce \<noteq> 0" using i(4) by (simp_all add: hashes_ok_def)
  have lt: "\<not> mid \<le> ce_startHeight ce" "\<not> ce_endHeight ce \<le> mid" using mid(2,3) by (simp_all add: not_le)
  obtain lo where lo: "newChildEdge c (ce_originId ce) (ce_startHistoryRoot ce) (ce_startHeight ce) r mid (ce_level ce) = Inr lo"
    using h lt pf(2) by (simp add: newChildEdge_def newEdgeChecks_def)
  obtain upc where u: "newChildEdge c (ce_originId ce) r mid (ce_endHistoryRoot ce) (ce_endHeight ce) (ce_level ce) = Inr upc"
    using h lt pf(2) by (simp add: newChildEdge_def newEdgeChecks_def)
  note L = newChildEdge_Inr [OF lo] and U = newChildEdge_Inr [OF u]
  have uid: "edge_id ?K upc = idComponent ?K (ce_level ce) (ce_originId ce) mid r (ce_endHeight ce) (ce_endHistoryRoot ce)"
    using U by (simp add: edge_id_def)
  have ne: "edge_id ?K upc \<noteq> edge_id ?K lo" using L U mid(2) by (auto simp: edge_id_inject [OF K])
  obtain la st1 where 1: "add_lower_child ?K st lo = Inr (la, st1)"
      "\<And>j. j \<noteq> edge_id ?K lo \<or> present st j \<Longrightarrow> edges_map st1 j = edges_map st j"
    using add_lower_child_succeeds [of lo ?K st] L by auto
  have "\<not> present st1 (edge_id ?K upc)" using 1(2) [of "edge_id ?K upc"] ne up uid by (simp add: present_def)
  then obtain ua st2 where 2: "store_add ?K st1 upc = Inr (ua, st2)" "edges_map st2 = (edges_map st1)(edge_id ?K upc := upc)"
    using store_add_succeeds [of st1 ?K upc] U by auto
  have "edges_map st2 i = ce" using 1(2) [of i] 2(2) i(1) up uid ce by auto
  then have "\<exists>e. setChildren ?K (edges_map st2 i) (edge_id ?K lo) (added_edgeId ua) = Inr e"
    using i(5,6) by (simp add: setChildren_Inr)
  moreover have "checked_add mid 1 = (Inr (mid + 1) :: 'h revert + uint256)"
      "checked_add (ce_endHeight ce) 1 = (Inr (ce_endHeight ce + 1) :: 'h revert + uint256)"
    using mid(3,4) by (simp_all add: checked_add_def word_less_nat_alt)
  ultimately show ?thesis
    using i(2,3) mid(1) pf lo u 1(1) 2(1)
    by (auto simp: store_bisectEdge_def getNoCheck_def abi_decode_def Let_def simp flip: ce)
qed

text \<open>The environment of an edge tracker whose state provider is the history commitment provider.\<close>

definition provided_by ::
    "('h::zero list \<Rightarrow> 'h) \<Rightarrow> go_runtime \<Rightarrow> ('h list \<Rightarrow> 'h list \<Rightarrow> uint8 list res) \<Rightarrow> 'h HistoryCommitmentProvider \<Rightarrow>
     ('w, 'h, 'a) Environment \<Rightarrow> bool" where
  "provided_by keccak rt pack p env \<longleftrightarrow>
     (\<forall>req w. Provider_HistoryCommitment env req w = (HistoryCommitment keccak rt p req, w)) \<and>
     (\<forall>req height w r. ProvePrefix keccak rt pack p req height = Some r \<longrightarrow> Provider_PrefixProof env req height w = (r, w))"

text \<open>The heights of the claimed edges above the edge of a tracker; none for a block challenge edge.\<close>

definition claimed_heights :: "('w, 'h, 'a) Environment \<Rightarrow> 'h Tracker \<Rightarrow> 'w \<Rightarrow> uint64 list \<Rightarrow> bool" where
  "claimed_heights env et w heights \<longleftrightarrow>
     (if GetChallengeLevel (edge et) = NewBlockChallengeLevel then heights = []
      else Edge_TopLevelClaimHeight env (EdgeId (edge et)) w = (Inr heights, w))"

text \<open>The edge of a tracker and the edge of the contract have the same heights and the same end root.\<close>

definition edge_matches :: "'h Edge \<Rightarrow> 'h ChallengeEdge \<Rightarrow> bool" where
  "edge_matches e ce \<longleftrightarrow>
     ce_startHeight ce = ucast (fst (StartCommitment e)) \<and> ce_endHeight ce = ucast (fst (EndCommitment e)) \<and>
     ce_endHistoryRoot ce = snd (EndCommitment e)"

lemma DetermineBisectionHistoryWithProof_eq:
  assumes "claimed_heights env et w heights" "Bisect (fst (StartCommitment (edge et))) (fst (EndCommitment (edge et))) = Inr mid"
    "Provider_HistoryCommitment env (history_request (associatedAssertionMetadata et) heights (Some mid)) w = (Inr h, w)"
    "Provider_PrefixProof env (history_request (associatedAssertionMetadata et) heights (Some (fst (EndCommitment (edge et))))) mid w
       = (Inr bytes, w)"
  shows "DetermineBisectionHistoryWithProof env et w = (Inr (h, bytes), w)"
  using assms by (auto simp: DetermineBisectionHistoryWithProof_def claimed_heights_def Let_def bindM_def liftM_def returnM_def
      split: if_splits)

lemma merkle_root_leaves_nonzero:
  assumes "never_zero keccak" "xs \<noteq> []"
  shows "merkle_root keccak (map (\<lambda>x. keccak [x]) xs) \<noteq> 0"
proof (cases "2 \<le> length xs")
  case True
  have "0 \<notin> set (map (\<lambda>x. keccak [x]) xs)" using assms(1) by (auto simp: never_zero_def)
  with True obtain c d where "merkle_root keccak (map (\<lambda>x. keccak [x]) xs) = keccak [c, d]"
    using merkle_root_top [OF assms(1), of "map (\<lambda>x. keccak [x]) xs"] by auto
  then show ?thesis using assms(1) by (simp add: never_zero_def)
next
  case False
  with assms(2) obtain x where "xs = [x]" by (cases xs) (auto simp: not_le)
  then show ?thesis using assms(1) by (simp add: never_zero_def)
qed

lemma last_ExpansionFromLeaves:
  assumes "never_zero keccak" "xs \<noteq> []" "length xs < 2 ^ 64" "ExpansionFromLeaves keccak xs = Inr e"
  shows "last e \<noteq> 0"
proof -
  have "e = expansion keccak (map (\<lambda>x. keccak [x]) xs)" using ExpansionFromLeaves_expansion [OF assms(1,3)] assms(4) by simp
  moreover have "0 \<notin> set (map (\<lambda>x. keccak [x]) xs)" using assms(1) by (auto simp: never_zero_def)
  ultimately show ?thesis using last_expansion_nonzero [OF assms(1), of "map (\<lambda>x. keccak [x]) xs"] assms(2) by simp
qed

text \<open>What a tracker determines for a bisection, in the terms of the contract.\<close>

lemma determined_bisection:
  fixes c :: "('h::zero, 'z) store_ctx_scheme" and env :: "('w, 'h, 'a) Environment" and et :: "'h Tracker"
  defines "start \<equiv> fst (StartCommitment (edge et))" and "finish \<equiv> fst (EndCommitment (edge et))"
    and "req \<equiv> history_request (associatedAssertionMetadata et)"
  assumes nz: "never_zero (kec c)" and rt: "go_scheduler rt"
    and abi: "\<forall>a b. \<exists>bytes. pack a b = Inr bytes \<and> decode_prefix c bytes = Some (a, b)"
    and env: "provided_by (kec c) rt pack p env" "claimed_heights env et w heights"
    and len: "unat start + 2 \<le> unat finish" "unat finish + 1 < 2 ^ 63"
    and mid: "Bisect start finish = Inr mid"
    and leaves: "historyCommitmentImpl p (req heights (Some finish)) = Inr leaves" "length leaves = unat finish + 1"
      "historyCommitmentImpl p (req heights (Some mid)) = Inr (take (unat mid + 1) leaves)"
    and honest: "History_New (kec c) rt leaves = Inr commit"
  obtains h bytes preExp rest where "DetermineBisectionHistoryWithProof env et w = (Inr (h, bytes), w)" "Merkle h \<noteq> 0"
    "decode_prefix c bytes = Some (preExp, rest)"
    "verifyPrefixProof_sol (kec c) (Merkle h) (ucast (mid + 1)) (Merkle commit) (ucast (finish + 1)) preExp rest = Inr ()"
proof -
  let ?roots = "\<lambda>xs. merkle_root (kec c) (map (\<lambda>x. kec c [x]) xs)"
  have m: "unat start < unat mid" "unat mid < unat finish" using Bisect_point [OF len(1)] mid by auto
  obtain preExp rest where pf: "ProvePrefix (kec c) rt pack p (req heights (Some finish)) mid = Some (pack preExp rest)"
      "ExpansionFromLeaves (kec c) (take (unat mid + 1) leaves) = Inr preExp"
      "VerifyPrefixProof (kec c) \<lparr>PreRoot = ?roots (take (unat mid + 1) leaves), PreSize = mid + 1, PostRoot = ?roots leaves,
         PostSize = finish + 1, PreExpansion = preExp, PrefixProof = rest\<rparr> = Inr ()"
    using ProvePrefix_verifies [OF nz rt leaves(1), of finish mid pack] leaves(2) len m
    by (auto simp: history_request_def req_def)
  obtain bytes where bytes: "pack preExp rest = Inr bytes" "decode_prefix c bytes = Some (preExp, rest)" using abi by blast
  have pre: "take (unat mid + 1) leaves \<noteq> []" "length (take (unat mid + 1) leaves) < 2 ^ 64" using leaves(2) len by auto
  have all: "leaves \<noteq> []" "length leaves < 2 ^ 64" using leaves(2) len by auto
  obtain h where h: "History_New (kec c) rt (take (unat mid + 1) leaves) = Inr h" "Merkle h = ?roots (take (unat mid + 1) leaves)"
    using History_New_root [OF nz rt pre] by auto
  have root: "Merkle commit = ?roots leaves" using History_New_root [OF nz rt all] honest by auto
  have "DetermineBisectionHistoryWithProof env et w = (Inr (h, bytes), w)"
    using env mid leaves(3) h(1) pf(1) bytes(1) unfolding start_def finish_def req_def
    by (intro DetermineBisectionHistoryWithProof_eq) (auto simp: provided_by_def HistoryCommitment_def)
  moreover have "Merkle h \<noteq> 0" unfolding h(2) using nz pre(1) by (rule merkle_root_leaves_nonzero)
  moreover have "verifyPrefixProof_sol (kec c) (Merkle h) (ucast (mid + 1)) (Merkle commit) (ucast (finish + 1)) preExp rest = Inr ()"
    using pf(3) last_ExpansionFromLeaves [OF nz pre pf(2)] h(2) root by (simp add: verifyPrefixProof_sol_iff [OF nz])
  ultimately show ?thesis using bytes(2) by (intro that)
qed

text \<open>
  C2. An honest bisection is accepted. Let a tracker follow an edge that the contract has as pending, rivaled and not
  bisected, with the root of the provider's own commitment at its end. Then the commitment and the prefix proof that the
  tracker determines from the provider, packed and decoded by the ABI, make the contract's \<^verbatim>\<open>bisectEdge\<close> succeed,
  unless the upper child was added already.
\<close>

theorem honest_bisection_accepted:
  fixes c :: "('h::zero, 'z) store_ctx_scheme" and s :: "('h, 't) EdgeChallengeManager"
    and env :: "('w, 'h, 'a) Environment" and et :: "'h Tracker"
  defines "start \<equiv> fst (StartCommitment (edge et))" and "finish \<equiv> fst (EndCommitment (edge et))"
    and "req \<equiv> history_request (associatedAssertionMetadata et)"
  assumes K: "good_keccak (keccak256 c)" and rt: "go_scheduler rt"
    and abi: "\<forall>a b. \<exists>bytes. pack a b = Inr bytes \<and> decode_prefix c bytes = Some (a, b)"
    and env: "provided_by (kec c) rt pack p env" "claimed_heights env et w heights"
    and len: "unat start + 2 \<le> unat finish" "unat finish + 1 < 2 ^ 63"
    and mid: "Bisect start finish = Inr mid"
    and leaves: "historyCommitmentImpl p (req heights (Some finish)) = Inr leaves" "length leaves = unat finish + 1"
      "historyCommitmentImpl p (req heights (Some mid)) = Inr (take (unat mid + 1) leaves)"
    and honest: "History_New (kec c) rt leaves = Inr commit" "snd (EndCommitment (edge et)) = Merkle commit"
    and chain: "ecm_reach (keccak256 c) P R T s" "ecm_getEdge s i = Inr ce" "edge_matches (edge et) ce" "ce_status ce = Pending"
      "ecm_hasRival (keccak256 c) s i = Inr True" "ce_lowerChildId ce = 0" "ce_upperChildId ce = 0"
  shows "\<exists>h bytes. DetermineBisectionHistoryWithProof env et w = (Inr (h, bytes), w) \<and>
    (\<not> ecm_edgeExists s (calculateEdgeId (keccak256 c) (ce_level ce) (ce_originId ce) (ucast mid) (Merkle h) (ce_endHeight ce)
        (ce_endHistoryRoot ce)) \<longrightarrow>
     (\<exists>kids s'. bisectEdge c i (Merkle h) bytes s = Inr (kids, s')))"
proof -
  let ?upper = "\<lambda>h. calculateEdgeId (keccak256 c) (ce_level ce) (ce_originId ce) (ucast mid) (Merkle h) (ce_endHeight ce)
      (ce_endHistoryRoot ce)"
  have nz: "never_zero (kec c)" using K by (rule good_keccak_never_zero)
  have m: "unat start < unat mid" "unat mid < unat finish" using Bisect_point [OF len(1)] mid by auto
  obtain h bytes preExp rest where d: "DetermineBisectionHistoryWithProof env et w = (Inr (h, bytes), w)" "Merkle h \<noteq> 0"
      "decode_prefix c bytes = Some (preExp, rest)"
      "verifyPrefixProof_sol (kec c) (Merkle h) (ucast (mid + 1)) (Merkle commit) (ucast (finish + 1)) preExp rest = Inr ()"
    using determined_bisection [OF nz rt abi env, of mid leaves commit] len mid leaves honest(1) unfolding start_def finish_def req_def by blast
  have ce: "present (ecm_store s) i" "ce = edges_map (ecm_store s) i" using chain(2) by (simp_all add: ecm_getEdge_Inr)
  have ok: "hashes_ok ce" using store_okD(6) [OF ecm_reach_ok [OF chain(1) K] ce(1)] ce(2) by (simp add: layer_ok_def)
  have hs: "ce_startHeight ce = ucast (start)" "ce_endHeight ce = ucast (finish)" "ce_endHistoryRoot ce = Merkle commit"
    using chain(3) honest(2) by (simp_all add: edge_matches_def start_def finish_def)
  have "\<exists>res. store_bisectEdge c (ecm_store s) i (Merkle h) bytes = Inr res" if up: "\<not> ecm_edgeExists s (?upper h)"
  proof (rule store_bisectEdge_accepts [OF K ce(2,1) chain(4) _ ok chain(6,7)])
    show "hasRival (keccak256 c) (ecm_store s) i = Inr True" using chain(5) by (simp add: ecm_hasRival_def)
    show "mandatoryBisectionHeight (ce_startHeight ce) (ce_endHeight ce) = Inr (ucast mid)"
      unfolding hs using mandatoryBisectionHeight_Bisect [OF len(1) mid] .
    show "verifyPrefixProof_sol (kec c) (Merkle h) (ucast mid + 1) (ce_endHistoryRoot ce) (ce_endHeight ce + 1) preExp rest = Inr ()"
      unfolding hs using d(4) unat_ucast_succ [of mid] unat_ucast_succ [of "finish"] len m by simp
  qed (use hs m len d(2,3) up in \<open>simp_all add: word_less_nat_alt ecm_edgeExists_def present_def calculateEdgeId_def\<close>)
  then have "\<exists>kids s'. bisectEdge c i (Merkle h) bytes s = Inr (kids, s')" if "\<not> ecm_edgeExists s (?upper h)"
    using that by (fastforce simp: bisectEdge_def Let_def)
  with d(1) show ?thesis by blast
qed

text \<open>The first validator of the example bisects its edge. Bytes encode the decoded lists by their number.\<close>

instance packed :: (countable) countable
  by countable_datatype

instance psym :: countable
  by countable_datatype

definition sample_pack :: "psym list \<Rightarrow> psym list \<Rightarrow> uint8 list res" where
  "sample_pack a b = Inr (replicate (to_nat (a, b)) 0)"

definition sample_abi :: "(psym, address \<Rightarrow> nat) manager_ctx" where
  "sample_abi = (sample_ctx 9 1)\<lparr>decode_prefix := \<lambda>bytes. Some (from_nat (length bytes))\<rparr>"

definition sample_provider :: "psym HistoryCommitmentProvider" where
  "sample_provider =
     \<lparr>L2MessageStatesUpTo = (\<lambda>_ upTo _ _. Inr (case upTo of None \<Rightarrow> [PAtom 0, PAtom 11, PAtom 12]
        | Some h \<Rightarrow> take (unat h + 1) [PAtom 0, PAtom 11, PAtom 12])),
      CollectMachineHashes = (\<lambda>_. Inr []), CollectProof = (\<lambda>_ _ _ _. Inr []), challengeLeafHeights = [2, 1, 1]\<rparr>"

definition sample_tracker :: "psym Tracker" where
  "sample_tracker =
     \<lparr>edge = \<lparr>EdgeId = sample_id1, GetChallengeLevel = NewBlockChallengeLevel, GetReversedChallengeLevel = 2,
        StartCommitment = (0, sample_leaf 0), EndCommitment = (2, sample_root 11 12), CreatedAtBlock = Inr 5,
        MutualId = sample_group, OriginId = PAtom 100, ClaimId = Some (PAtom 101)\<rparr>,
      fsm = empty_fsm, fsmOpts = [], actInterval = 0, tr_validatorName = [],
      associatedAssertionMetadata = \<lparr>Meta_FromBatch = 0, Meta_ToBatch = 1, Meta_WasmModuleRoot = PAtom 60\<rparr>\<rparr>"

definition sample_env :: "(unit, psym, unit) Environment" where
  "sample_env =
     \<lparr>Edge_HasConfirmedRival = (\<lambda>_. returnM False), Edge_LowerChild = (\<lambda>_. returnM None),
      Edge_UpperChild = (\<lambda>_. returnM None), Edge_AssertionHash = (\<lambda>_. returnM (PAtom 100)), Edge_HasRival = (\<lambda>_. returnM True),
      Edge_Status = (\<lambda>_. returnM StatusPending), Edge_HasLengthOneRival = (\<lambda>_. returnM False),
      Edge_TopLevelClaimHeight = (\<lambda>_. returnM []), Edge_GetTotalChallengeLevels = (\<lambda>_ _. 3),
      Edge_Bisect = (\<lambda>_ _ _. failM (ErrMsg ''no'')), Edge_ConfirmByTimer = (\<lambda>_ _. failM (ErrMsg ''no'')),
      Edge_ConfirmByClaim = (\<lambda>_ _. failM (ErrMsg ''no'')), Edge_ConfirmByChildren = (\<lambda>_. failM (ErrMsg ''no'')),
      Chain_SpecChallengeManager = returnM (), Chain_ReadAssertionCreationInfo = (\<lambda>_. failM (ErrMsg ''no'')),
      Manager_GetEdge = (\<lambda>_. returnM None), Manager_ChallengePeriodBlocks = returnM 5,
      Manager_AddSubChallengeLevelZeroEdge = (\<lambda>_ _ _ _ _ _. failM (ErrMsg ''no'')),
      Manager_ConfirmEdgeByOneStepProof = (\<lambda>_ _ _ _. failM (ErrMsg ''no'')),
      Provider_HistoryCommitment = (\<lambda>req w. (HistoryCommitment (kec sample_abi) (sequential_runtime 1) sample_provider req, w)),
      Provider_PrefixProof = (\<lambda>req h w. (case ProvePrefix (kec sample_abi) (sequential_runtime 1) sample_pack sample_provider req h of
        Some r \<Rightarrow> (r, w) | None \<Rightarrow> (Inl (ErrMsg ''no''), w))),
      Provider_OneStepProofData = (\<lambda>_ _ _ _ _ _. failM (ErrMsg ''no'')),
      Watcher_ConfirmedEdgeWithClaimExists = (\<lambda>_ _ _. None),
      Watcher_ComputeHonestPathTimer = (\<lambda>_ _. returnM (0, [], [])),
      Watcher_HasConfirmableAncestor = (\<lambda>_ _ _. returnM False), Watcher_AddVerifiedHonestEdge = (\<lambda>_. returnM ()),
      IsTrackingEdge = (\<lambda>_ _. False), MarkTrackedEdge = (\<lambda>_ w. w)\<rparr>"

lemma sample_commit:
  "\<exists>commit. History_New (kec sample_abi) (sequential_runtime 1) [PAtom 0, PAtom 11, PAtom 12] = Inr commit \<and>
     Merkle commit = sample_root 11 12"
proof -
  have "keccak256 sample_abi = PKec" by (simp add: sample_abi_def)
  then have nz: "never_zero (kec sample_abi)" using good_keccak_never_zero [of sample_abi] by simp
  have "merkle_root (kec sample_abi) (map (\<lambda>l. kec sample_abi [l]) [PAtom 0, PAtom 11, PAtom 12]) = sample_root 11 12"
    using \<open>keccak256 sample_abi = PKec\<close>
    by (simp add: merkle_root_step keccak_of_def sample_root_def zero_psym_def)
  with History_New_root [OF nz, of "sequential_runtime 1" "[PAtom 0, PAtom 11, PAtom 12]"] show ?thesis by auto
qed

lemma sample_abi_round_trip: "\<forall>a b. \<exists>bytes. sample_pack a b = Inr bytes \<and> decode_prefix sample_abi bytes = Some (a, b)"
  by (simp add: sample_pack_def sample_abi_def)

lemma sample_provided: "provided_by (kec sample_abi) (sequential_runtime 1) sample_pack sample_provider sample_env"
  by (simp add: provided_by_def sample_env_def)

lemma sample_tracked:
  "claimed_heights sample_env sample_tracker () []" "StartCommitment (edge sample_tracker) = (0, sample_leaf 0)"
  "EndCommitment (edge sample_tracker) = (2, sample_root 11 12)" "edge_matches (edge sample_tracker) sample_edge1"
  by (simp_all add: claimed_heights_def sample_tracker_def edge_matches_def sample_edge_def)

lemma sample_leaves:
  "historyCommitmentImpl sample_provider (history_request (associatedAssertionMetadata sample_tracker) [] (Some h)) =
     Inr (take (unat h + 1) [PAtom 0, PAtom 11, PAtom 12])"
  by (simp add: historyCommitmentImpl_def sample_provider_def history_request_def validateOriginHeights_def)

lemma sample_upper_absent: "\<not> ecm_edgeExists sample_s2 (calculateEdgeId PKec l oid 1 r eh er)"
proof -
  have "calculateEdgeId PKec l oid 1 r eh er \<noteq> edge_id PKec (sample_edge m n k a b)" for m n k a b
    by (simp add: calculateEdgeId_def edge_id_def idComponent_def mutualIdComponent_def sample_edge_def)
  from this [of 11 12 101 1 5] this [of 21 22 102 2 8] show ?thesis
    by (simp add: ecm_edgeExists_def edge_exists_def sample_s2_def sample_id1_def sample_id2_def no_edge_def)
qed

theorem honest_bisection_accepted_witness:
  "\<exists>h bytes. DetermineBisectionHistoryWithProof sample_env sample_tracker () = (Inr (h, bytes), ()) \<and>
    (\<exists>kids s'. bisectEdge sample_abi sample_id1 (Merkle h) bytes sample_s2 = Inr (kids, s'))"
proof -
  obtain commit where commit: "History_New (kec sample_abi) (sequential_runtime 1) [PAtom 0, PAtom 11, PAtom 12] = Inr commit"
    "Merkle commit = sample_root 11 12" using sample_commit by blast
  have K: "keccak256 sample_abi = PKec" by (simp add: sample_abi_def)
  have reach: "ecm_reach (keccak256 sample_abi) (\<lambda>_. True) (\<lambda>_ _. True) 8 sample_s2" unfolding K by (rule sample_reach2) simp_all
  have bisect: "Bisect (fst (StartCommitment (edge sample_tracker))) (fst (EndCommitment (edge sample_tracker))) = Inr 1"
    unfolding sample_tracked fst_conv by code_simp
  have edge1: "ce_status sample_edge1 = Pending" "ecm_hasRival (keccak256 sample_abi) sample_s2 sample_id1 = Inr True"
      "ce_lowerChildId sample_edge1 = 0" "ce_upperChildId sample_edge1 = 0"
    using sample_getEdge(2) K by (simp_all add: sample_edge_def zero_psym_def)
  from honest_bisection_accepted [OF _ _ sample_abi_round_trip sample_provided sample_tracked(1) _ _ bisect _ _ _ commit(1) _ reach
      sample_getEdge(1) sample_tracked(4) edge1]
  show ?thesis using sample_leaves sample_upper_absent commit(2) K by (simp add: sample_tracked)
qed

end
