(* ===== verification/Retry.thy ===== *)
theory Retry
  imports Bold_Prelude
begin

text \<open>
  \<^verbatim>\<open>runtime/retry.go\<close>: calling a function again until it succeeds. An operation that may not end returns an option,
  and \<open>None\<close> is a call that never returns.
\<close>

subsection \<open>Operations that may not end\<close>

type_synonym ('s, 'a) oop = "'s \<Rightarrow> ('a res \<times> 's) option"

definition returnO :: "'a \<Rightarrow> ('s, 'a) oop" where
  "returnO x s = Some (Inr x, s)"

definition failO :: "go_error \<Rightarrow> ('s, 'a) oop" where
  "failO e s = Some (Inl e, s)"

definition ofM :: "('s, 'a) op \<Rightarrow> ('s, 'a) oop" where
  "ofM m s = Some (m s)"

definition bindO :: "('s, 'a) oop \<Rightarrow> ('a \<Rightarrow> ('s, 'b) oop) \<Rightarrow> ('s, 'b) oop" where
  "bindO m k s =
     (case m s of
        None \<Rightarrow> None
      | Some r \<Rightarrow> (case r of (Inl e, s') \<Rightarrow> Some (Inl e, s') | (Inr x, s') \<Rightarrow> k x s'))"

text \<open>Handling an error in place.\<close>

definition tryO :: "('s, 'a) oop \<Rightarrow> ('s, 'a res) oop" where
  "tryO m s =
     (case m s of
        None \<Rightarrow> None
      | Some (r, s') \<Rightarrow> Some (if r = Inl GoPanic then Inl GoPanic else Inr r, s'))"

lemma bindO_Some:
  "bindO m k s = Some (r, s') \<longleftrightarrow>
     (\<exists>x s1. m s = Some (Inr x, s1) \<and> k x s1 = Some (r, s')) \<or> (\<exists>e. m s = Some (Inl e, s') \<and> r = Inl e)"
  by (auto simp: bindO_def split: option.splits prod.splits sum.splits)

lemma bindO_Inr_E:
  assumes "bindO m k s = Some (Inr y, s')"
  obtains x s1 where "m s = Some (Inr x, s1)" "k x s1 = Some (Inr y, s')"
  using assms by (auto simp: bindO_Some)

lemma oop_Some [simp]: "returnO x s = Some r \<longleftrightarrow> r = (Inr x, s)" "failO e s = Some r \<longleftrightarrow> r = (Inl e, s)"
  "ofM m s = Some r \<longleftrightarrow> r = m s"
  by (auto simp: returnO_def failO_def ofM_def)

lemma tryO_Some:
  "tryO m s = Some (r, s') \<longleftrightarrow> (\<exists>r'. m s = Some (r', s') \<and> r = (if r' = Inl GoPanic then Inl GoPanic else Inr r'))"
  by (auto simp: tryO_def split: option.splits)

lemma tryO_Inr: "tryO m s = Some (Inr r, s') \<Longrightarrow> m s = Some (r, s') \<and> r \<noteq> Inl GoPanic"
  by (auto simp: tryO_Some split: if_splits)

text \<open>Every run of an operation, whether it succeeds or fails, is a sequence of steps of a relation.\<close>

definition leads :: "('s \<Rightarrow> 's \<Rightarrow> bool) \<Rightarrow> ('s, 'a) oop \<Rightarrow> bool" where
  "leads R m \<longleftrightarrow> (\<forall>s r s'. m s = Some (r, s') \<longrightarrow> R\<^sup>*\<^sup>* s s')"

lemma leadsD: "leads R m \<Longrightarrow> m s = Some (r, s') \<Longrightarrow> R\<^sup>*\<^sup>* s s'"
  by (simp add: leads_def)

lemma leads_step: "(\<And>s r s'. m s = Some (r, s') \<Longrightarrow> R s s') \<Longrightarrow> leads R m"
  by (auto simp: leads_def)

lemma leads_bindO:
  assumes "leads R m" "\<And>s x s'. m s = Some (Inr x, s') \<Longrightarrow> leads R (k x)"
  shows "leads R (bindO m k)"
  using assms unfolding leads_def bindO_Some by (blast intro: rtranclp_trans)

lemma leads_simple: "leads R (returnO x)" "leads R (failO e)" "leads R (ofM (getM f))"
  by (auto simp: leads_def getM_def)

lemma leads_modify: "(\<And>s. R\<^sup>*\<^sup>* s (f s)) \<Longrightarrow> leads R (ofM (modifyM f))"
  by (auto simp: leads_def modifyM_def)

lemma leads_tryO: "leads R m \<Longrightarrow> leads R (tryO m)"
  by (auto simp: leads_def tryO_Some)

lemma leads_mono: "leads R m \<Longrightarrow> R \<le> R' \<Longrightarrow> leads R' m"
  unfolding leads_def by (meson predicate2D rtranclp_mono)

lemmas leads_intros = leads_simple leads_bindO leads_tryO

text \<open>A property of states that the steps of a relation keep.\<close>

lemma steps_keep: "R\<^sup>*\<^sup>* s s' \<Longrightarrow> I s \<Longrightarrow> (\<And>s s'. I s \<Longrightarrow> R s s' \<Longrightarrow> I s') \<Longrightarrow> I s'"
  by (induction rule: rtranclp_induct) auto

subsection \<open>The source\<close>

record RetryConfig =
  sleepTime :: int

definition defaultSleepTime :: int where
  "defaultSleepTime = 1000000000"

type_synonym retry_opt = "RetryConfig \<Rightarrow> RetryConfig"

definition WithInterval :: "int \<Rightarrow> retry_opt" where
  "WithInterval d rc = rc\<lparr>sleepTime := d\<rparr>"

text \<open>
  The loop: \<open>ctxErr\<close> is \<^verbatim>\<open>ctx.Err()\<close> in a state and \<open>sleep\<close> what the rest of the program does in the meantime. A panic
  of the function unwinds the loop.
\<close>

partial_function (option) retry_loop ::
    "('s \<Rightarrow> go_error option) \<Rightarrow> (int \<Rightarrow> 's \<Rightarrow> 's) \<Rightarrow> int \<Rightarrow> ('s, 'a) oop \<Rightarrow> ('s, 'a) oop" where
  "retry_loop ctxErr sleep d fn s =
     (case ctxErr s of
        Some e \<Rightarrow> Some (Inl e, s)
      | None \<Rightarrow>
          (case fn s of
             None \<Rightarrow> None
           | Some (r, s') \<Rightarrow>
               (case r of
                  Inr x \<Rightarrow> Some (Inr x, s')
                | Inl e \<Rightarrow> if e = GoPanic then Some (Inl GoPanic, s') else retry_loop ctxErr sleep d fn (sleep d s'))))"

declare retry_loop.simps [code]

definition UntilSucceedsMultipleReturnValue ::
    "('s \<Rightarrow> go_error option) \<Rightarrow> (int \<Rightarrow> 's \<Rightarrow> 's) \<Rightarrow> ('s, 'a) oop \<Rightarrow> retry_opt list \<Rightarrow> ('s, 'a) oop" where
  "UntilSucceedsMultipleReturnValue ctxErr sleep fn opts =
     (let cfg = foldl (\<lambda>cfg o'. o' cfg) \<lparr>sleepTime = defaultSleepTime\<rparr> opts
      in retry_loop ctxErr sleep (sleepTime cfg) fn)"

text \<open>The options of \<^verbatim>\<open>UntilSucceeds\<close> are not passed on.\<close>

definition UntilSucceeds ::
    "('s \<Rightarrow> go_error option) \<Rightarrow> (int \<Rightarrow> 's \<Rightarrow> 's) \<Rightarrow> ('s, 'a) oop \<Rightarrow> retry_opt list \<Rightarrow> ('s, 'a) oop" where
  "UntilSucceeds ctxErr sleep fn opts = UntilSucceedsMultipleReturnValue ctxErr sleep fn []"

subsection \<open>What a retry returns\<close>

text \<open>The state in which the next attempt starts after \<open>n\<close> failed ones.\<close>

fun after_failures ::
    "('s \<Rightarrow> go_error option) \<Rightarrow> (int \<Rightarrow> 's \<Rightarrow> 's) \<Rightarrow> int \<Rightarrow> ('s, 'a) oop \<Rightarrow> nat \<Rightarrow> 's \<Rightarrow> 's option" where
  "after_failures ctxErr sleep d fn 0 s = Some s"
| "after_failures ctxErr sleep d fn (Suc n) s =
     (case ctxErr s of
        Some _ \<Rightarrow> None
      | None \<Rightarrow>
          (case fn s of
             Some (Inl e, s') \<Rightarrow> if e = GoPanic then None else after_failures ctxErr sleep d fn n (sleep d s')
           | _ \<Rightarrow> None))"

text \<open>An attempt that ends the loop: the context is done, or the function succeeds or panics.\<close>

definition last_attempt :: "('s \<Rightarrow> go_error option) \<Rightarrow> ('s, 'a) oop \<Rightarrow> 's \<Rightarrow> 'a res \<times> 's \<Rightarrow> bool" where
  "last_attempt ctxErr fn s r \<longleftrightarrow>
     (case ctxErr s of
        Some e \<Rightarrow> r = (Inl e, s)
      | None \<Rightarrow> fn s = Some r \<and> (fst r = Inl GoPanic \<or> (\<exists>x. fst r = Inr x)))"

lemma last_attempt_returns: "last_attempt ctxErr fn s r \<Longrightarrow> retry_loop ctxErr sleep d fn s = Some r"
  by (auto simp: last_attempt_def retry_loop.simps [of ctxErr sleep d fn s] split: option.splits)

lemma retry_loop_returns:
  "after_failures ctxErr sleep d fn n s = Some s' \<Longrightarrow> last_attempt ctxErr fn s' r \<Longrightarrow> retry_loop ctxErr sleep d fn s = Some r"
proof (induction n arbitrary: s)
  case 0
  then show ?case by (simp add: last_attempt_returns)
next
  case (Suc n)
  then show ?case
    by (auto simp: retry_loop.simps [of ctxErr sleep d fn s] split: option.splits sum.splits if_splits)
qed

lemma retry_loop_last_attempt:
  assumes "retry_loop ctxErr sleep d fn s = Some r"
  shows "\<exists>n s'. after_failures ctxErr sleep d fn n s = Some s' \<and> last_attempt ctxErr fn s' r"
  using assms
proof (induction rule: retry_loop.raw_induct [rotated, consumes 1, case_names step])
  case (step loop ctxErr sleep d fn s r)
  from step(2) consider (finished) "last_attempt ctxErr fn s r"
    | (again) e s' where "ctxErr s = None" "fn s = Some (Inl e, s')" "e \<noteq> GoPanic" "loop ctxErr sleep d fn (sleep d s') = Some r"
    by (auto simp: last_attempt_def split: option.splits sum.splits if_splits)
  then show ?case
  proof cases
    case finished
    then show ?thesis by (intro exI [of _ 0] exI [of _ s]) simp
  next
    case again
    from step(1) [OF again(4)] obtain n s'' where "after_failures ctxErr sleep d fn n (sleep d s') = Some s''" "last_attempt ctxErr fn s'' r"
      by blast
    with again show ?thesis by (intro exI [of _ "Suc n"] exI [of _ s'']) simp
  qed
qed

lemma after_failures_leads:
  assumes "leads R fn" "\<And>s. R\<^sup>*\<^sup>* s (sleep d s)" "after_failures ctxErr sleep d fn n s = Some s'"
  shows "R\<^sup>*\<^sup>* s s'"
  using assms(3)
proof (induction n arbitrary: s)
  case (Suc n)
  then obtain e s1 where s1: "fn s = Some (Inl e, s1)" "after_failures ctxErr sleep d fn n (sleep d s1) = Some s'"
    by (auto split: option.splits sum.splits if_splits)
  have "R\<^sup>*\<^sup>* s s1" using assms(1) s1(1) by (rule leadsD)
  also have "R\<^sup>*\<^sup>* s1 (sleep d s1)" by (rule assms(2))
  also have "R\<^sup>*\<^sup>* (sleep d s1) s'" using s1(2) by (rule Suc.IH)
  finally show ?case .
qed simp

lemma leads_retry:
  assumes "leads R fn" "\<And>d s. R\<^sup>*\<^sup>* s (sleep d s)"
  shows "leads R (UntilSucceeds ctxErr sleep fn opts)"
  unfolding leads_def
proof (intro allI impI)
  fix s r s'
  assume "UntilSucceeds ctxErr sleep fn opts s = Some (r, s')"
  then obtain n s1 where s1: "after_failures ctxErr sleep defaultSleepTime fn n s = Some s1" "last_attempt ctxErr fn s1 (r, s')"
    using retry_loop_last_attempt by (fastforce simp: UntilSucceeds_def UntilSucceedsMultipleReturnValue_def)
  have "R\<^sup>*\<^sup>* s s1" using assms s1(1) by (rule after_failures_leads)
  moreover have "R\<^sup>*\<^sup>* s1 s'"
    using s1(2) leadsD [OF assms(1)] by (auto simp: last_attempt_def split: option.splits)
  ultimately show "R\<^sup>*\<^sup>* s s'" by (rule rtranclp_trans)
qed

text \<open>A retry that succeeds ends with a successful attempt.\<close>

lemma retry_Inr:
  assumes "UntilSucceeds ctxErr sleep fn opts s = Some (Inr x, s')"
  shows "\<exists>n s1. after_failures ctxErr sleep defaultSleepTime fn n s = Some s1 \<and> fn s1 = Some (Inr x, s')"
  using assms retry_loop_last_attempt [of ctxErr sleep defaultSleepTime fn s "(Inr x, s')"]
  by (auto simp: UntilSucceeds_def UntilSucceedsMultipleReturnValue_def last_attempt_def split: option.splits)


end
