(* ===== verification/Watcher.thy ===== *)
theory Watcher
  imports Retry Path_Timers Edge_Tracker
begin

text \<open>
  \<^verbatim>\<open>challenge-manager/chain-watcher/watcher.go\<close>: the service that scans the chain for created and confirmed edges,
  keeps a tree of honest edges per challenge and answers the confirmation questions of the edge trackers.
  The chain, the backend and the history checker are interfaces, operations on an unspecified world \<open>'w\<close>.
  The metadata reader and the history checker of a tree are those of the world at the time of a call.
\<close>

subsection \<open>State and interfaces\<close>

record ('h, 'a) trackedChallenge =
  honestEdgeTree :: "('h, 'a) HonestChallengeTree"
  confirmedLevelZeroEdgeClaimIds :: "('h, 'h) gomap"

record ('w, 'h, 'a) Watcher =
  wt_world :: 'w
  pollEventsInterval :: int
  challenges :: "('h, ('h, 'a) trackedChallenge) gomap"
  wt_validatorName :: string
  numBigStepLevels :: uint8
  initialSyncCompleted :: bool

text \<open>
  The events of a filter query, in the order the iterator gives them; \<open>None\<close> is a step at which \<^verbatim>\<open>it.Error()\<close> is
  set. The iterator ends, with or without an error, at the end of the list.
\<close>

type_synonym 'h events = "'h option list"

record ('w, 'h, 'a, 'm) WatcherEnv = "('w, 'h, 'a) Environment" +
  Chain_Reader :: "'w \<Rightarrow> ('h, 'a) MetadataReader"
  Hist_Checker :: "'w \<Rightarrow> 'h HistoryChecker"
  Edge_Reader :: "'w \<Rightarrow> 'h EdgeReader"
  Chain_IsChallengeComplete :: "'h \<Rightarrow> ('w, bool) op"
  Chain_ConfirmAssertionByChallengeWinner :: "'h \<Rightarrow> 'h \<Rightarrow> ('w, unit) op"
  Chain_LatestConfirmed :: "('w, 'h) op"
  Assertion_CreatedAtBlock :: "'h \<Rightarrow> ('w, uint64) op"
  HeaderByNumber :: "('w, int) op"
  NewEdgeChallengeManagerFilterer :: "('w, unit) op"
  FilterEdgeAdded :: "uint64 \<Rightarrow> uint64 \<Rightarrow> ('w, 'h events) op"
  FilterEdgeConfirmedByOneStepProof :: "uint64 \<Rightarrow> uint64 \<Rightarrow> ('w, 'h events) op"
  FilterEdgeConfirmedByTime :: "uint64 \<Rightarrow> uint64 \<Rightarrow> ('w, 'h events) op"
  FilterEdgeConfirmedByChildren :: "uint64 \<Rightarrow> uint64 \<Rightarrow> ('w, 'h events) op"
  FilterEdgeConfirmedByClaim :: "uint64 \<Rightarrow> uint64 \<Rightarrow> ('w, 'h events) op"
  ctx_err :: "'w \<Rightarrow> go_error option"
  ctx_err_at :: "'w \<Rightarrow> ChallengeLevel \<Rightarrow> nat \<Rightarrow> go_error option"
  Sleep :: "int \<Rightarrow> 'w \<Rightarrow> 'w"
  TrackEdge :: "'h Edge \<Rightarrow> (('w, 'h, 'a, 'm) Watcher_scheme, unit) oop"

type_synonym ('w, 'h, 'a, 'm, 'b) wop = "(('w, 'h, 'a, 'm) Watcher_scheme, 'b) oop"

text \<open>A call of the outside world, and a call that is retried until it succeeds.\<close>

definition on_w :: "('w, 'b) op \<Rightarrow> ('w, 'h, 'a, 'm, 'b) wop" where
  "on_w m s = (case m (wt_world s) of (r, w) \<Rightarrow> Some (r, s\<lparr>wt_world := w\<rparr>))"

definition retryW :: "('w, 'h, 'a, 'm) WatcherEnv \<Rightarrow> ('w, 'h, 'a, 'm, 'b) wop \<Rightarrow> ('w, 'h, 'a, 'm, 'b) wop" where
  "retryW env fn =
     UntilSucceeds (\<lambda>s. ctx_err env (wt_world s)) (\<lambda>d s. s\<lparr>wt_world := Sleep env d (wt_world s)\<rparr>) fn []"

text \<open>An operation on the tree of a tracked challenge; a challenge that is not tracked is a nil pointer.\<close>

definition fresh_reads ::
    "('w, 'h, 'a, 'm) WatcherEnv \<Rightarrow> 'w \<Rightarrow> ('h, 'a) HonestChallengeTree \<Rightarrow> ('h, 'a) HonestChallengeTree" where
  "fresh_reads env w ht = ht\<lparr>metadataReader := Chain_Reader env w, histChecker := Hist_Checker env w\<rparr>"

definition on_tree ::
    "('w, 'h, 'a, 'm) WatcherEnv \<Rightarrow> 'h \<Rightarrow> (('h, 'a) HonestChallengeTree, 'b) oop \<Rightarrow> ('w, 'h, 'a, 'm, 'b) wop" where
  "on_tree env assertionHash m s =
     (case Map_TryGet (challenges s) assertionHash of
        None \<Rightarrow> Some (Inl GoPanic, s)
      | Some chal \<Rightarrow>
          (case m (fresh_reads env (wt_world s) (honestEdgeTree chal)) of
             None \<Rightarrow> None
           | Some (r, ht) \<Rightarrow>
               Some (r, s\<lparr>challenges := Map_Put assertionHash (chal\<lparr>honestEdgeTree := ht\<rparr>) (challenges s)\<rparr>)))"

text \<open>\<^verbatim>\<open>big.Int.IsUint64\<close>.\<close>

definition IsUint64 :: "int \<Rightarrow> bool" where
  "IsUint64 n \<longleftrightarrow> 0 \<le> n \<and> n < 2 ^ 64"

subsection \<open>Construction and queries\<close>

definition Watcher_New :: "'w \<Rightarrow> int \<Rightarrow> uint8 \<Rightarrow> string \<Rightarrow> ('w, 'h, 'a) Watcher res" where
  "Watcher_New w interval numBigSteps name =
     (if interval = 0 then Inl (ErrMsg ''chain watcher polling interval must be greater than 0'')
      else Inr \<lparr>wt_world = w, pollEventsInterval = interval, challenges = NewMap, wt_validatorName = name,
                numBigStepLevels = numBigSteps, initialSyncCompleted = False\<rparr>)"

definition watcher_HonestBlockChallengeRootEdge :: "'h \<Rightarrow> ('w, 'h, 'a, 'm) Watcher_scheme \<Rightarrow> 'h Edge res" where
  "watcher_HonestBlockChallengeRootEdge assertionHash s =
     (case Map_TryGet (challenges s) assertionHash of
        None \<Rightarrow> Inl (ErrMsg ''no challenge for assertion hash %#x'')
      | Some chal \<Rightarrow> HonestBlockChallengeRootEdge (honestEdgeTree chal))"

definition ConfirmedEdgeWithClaimExists :: "'h \<Rightarrow> 'h \<Rightarrow> ('w, 'h, 'a, 'm) Watcher_scheme \<Rightarrow> 'h option" where
  "ConfirmedEdgeWithClaimExists assertionHash claimId s =
     (case Map_TryGet (challenges s) assertionHash of
        None \<Rightarrow> None
      | Some challenge \<Rightarrow> Map_TryGet (confirmedLevelZeroEdgeClaimIds challenge) claimId)"

definition ComputeHonestPathTimerByBlockNumber ::
    "('w, 'h, 'a, 'm) WatcherEnv \<Rightarrow> 'h \<Rightarrow> 'h \<Rightarrow> uint64 \<Rightarrow> ('w, 'h, 'a, 'm, uint64 \<times> 'h list \<times> uint64 list) wop" where
  "ComputeHonestPathTimerByBlockNumber env assertionHash edgeId blockNumber s =
     (if Map_TryGet (challenges s) assertionHash = None
      then Some (Inl (ErrMsg ''could not get challenge for top level assertion %#x''), s)
      else
        bindO (on_tree env assertionHash
          (ComputeAncestorsWithTimers (ctx_err_at env (wt_world s)) (Edge_Reader env (wt_world s)) edgeId blockNumber)) (\<lambda>response.
        bindO (on_tree env assertionHash
          (ofM (ComputeHonestPathTimer edgeId (AncestorLocalTimers response) blockNumber))) (\<lambda>pathTimer.
          returnO (pathTimer, AncestorEdgeIds response, AncestorLocalTimers response))) s)"

definition watcher_ComputeHonestPathTimer ::
    "('w, 'h, 'a, 'm) WatcherEnv \<Rightarrow> 'h \<Rightarrow> 'h \<Rightarrow> ('w, 'h, 'a, 'm, uint64 \<times> 'h list \<times> uint64 list) wop" where
  "watcher_ComputeHonestPathTimer env assertionHash edgeId =
     bindO (on_w (HeaderByNumber env)) (\<lambda>number.
       if \<not> IsUint64 number then failO (ErrMsg ''latest block header number is not a uint64'')
       else ComputeHonestPathTimerByBlockNumber env assertionHash edgeId (of_int number))"

definition watcher_HasConfirmableAncestor ::
    "('w, 'h, 'a, 'm) WatcherEnv \<Rightarrow> 'h \<Rightarrow> uint64 list \<Rightarrow> uint64 \<Rightarrow> ('w, 'h, 'a, 'm) Watcher_scheme \<Rightarrow> bool res" where
  "watcher_HasConfirmableAncestor env assertionHash ancestorLocalTimers challengePeriodBlocks s =
     (case Map_TryGet (challenges s) assertionHash of
        None \<Rightarrow> Inl (ErrMsg ''could not get challenge for top level assertion %#x'')
      | Some chal \<Rightarrow>
          HasConfirmableAncestor (fresh_reads env (wt_world s) (honestEdgeTree chal)) ancestorLocalTimers challengePeriodBlocks)"

definition IsSynced :: "('w, 'h, 'a, 'm) Watcher_scheme \<Rightarrow> bool" where
  "IsSynced s = initialSyncCompleted s"

text \<open>\<^verbatim>\<open>GetEdge\<close>, and the same steps in \<^verbatim>\<open>getEdgeFromEvent\<close>.\<close>

definition edge_by_id :: "go_error \<Rightarrow> ('w, 'h, 'a, 'm) WatcherEnv \<Rightarrow> 'h \<Rightarrow> ('w, 'h, 'a, 'm, 'h Edge) wop" where
  "edge_by_id none env edgeId =
     bindO (on_w (Chain_SpecChallengeManager env)) (\<lambda>_.
     bindO (on_w (Manager_GetEdge env edgeId)) (\<lambda>edgeOpt.
       case edgeOpt of None \<Rightarrow> failO none | Some e \<Rightarrow> returnO e))"

definition watcher_GetEdge :: "('w, 'h, 'a, 'm) WatcherEnv \<Rightarrow> 'h \<Rightarrow> ('w, 'h, 'a, 'm, 'h Edge) wop" where
  "watcher_GetEdge env = edge_by_id (ErrMsg ''no edge found with id %#x'') env"

definition getEdgeFromEvent :: "('w, 'h, 'a, 'm) WatcherEnv \<Rightarrow> 'h \<Rightarrow> ('w, 'h, 'a, 'm, 'h Edge) wop" where
  "getEdgeFromEvent env = edge_by_id (ErrMsg ''no edge found with id %#x'') env"

record filterRange =
  startBlockNum :: uint64
  endBlockNum :: uint64

definition getStartEndBlockNum :: "('w, 'h, 'a, 'm) WatcherEnv \<Rightarrow> ('w, 'h, 'a, 'm, filterRange) wop" where
  "getStartEndBlockNum env =
     bindO (on_w (Chain_LatestConfirmed env)) (\<lambda>latestConfirmed.
     bindO (on_w (Assertion_CreatedAtBlock env latestConfirmed)) (\<lambda>startBlock.
     bindO (on_w (HeaderByNumber env)) (\<lambda>number.
       if \<not> IsUint64 number then failO (ErrMsg ''header number is not a uint64'')
       else returnO \<lparr>startBlockNum = startBlock, endBlockNum = of_int number\<rparr>)))"

definition get_filterer :: "('w, 'h, 'a, 'm) WatcherEnv \<Rightarrow> ('w, 'h, 'a, 'm, unit) wop" where
  "get_filterer env =
     bindO (retryW env (on_w (Chain_SpecChallengeManager env))) (\<lambda>_.
       retryW env (on_w (NewEdgeChallengeManagerFilterer env)))"

text \<open>
  \<^verbatim>\<open>getAllEdges\<close>. The error of the iterator is not the one that is wrapped: that one is nil, and so is its wrapping.
\<close>

fun all_edges_loop :: "('w, 'h, 'a, 'm) WatcherEnv \<Rightarrow> 'h events \<Rightarrow> 'h Edge list \<Rightarrow> ('w, 'h, 'a, 'm, 'h Edge list) wop" where
  "all_edges_loop env [] es = returnO es"
| "all_edges_loop env (None # events) es = returnO []"
| "all_edges_loop env (Some edgeId # events) es =
     bindO (retryW env (getEdgeFromEvent env edgeId)) (\<lambda>e. all_edges_loop env events (es @ [e]))"

definition getAllEdges :: "('w, 'h, 'a, 'm) WatcherEnv \<Rightarrow> uint64 \<Rightarrow> uint64 \<Rightarrow> ('w, 'h, 'a, 'm, 'h Edge list) wop" where
  "getAllEdges env fromBlock toBlock =
     bindO (on_w (FilterEdgeAdded env fromBlock toBlock)) (\<lambda>events. all_edges_loop env events [])"

definition watcher_GetEdges :: "('w, 'h, 'a, 'm) WatcherEnv \<Rightarrow> ('w, 'h, 'a, 'm, 'h Edge list) wop" where
  "watcher_GetEdges env =
     bindO (retryW env (getStartEndBlockNum env)) (\<lambda>scanRange.
     bindO (get_filterer env) (\<lambda>_.
       retryW env (getAllEdges env (startBlockNum scanRange) (endBlockNum scanRange))))"

definition GetHonestEdges :: "('w, 'h, 'a, 'm) Watcher_scheme \<Rightarrow> 'h Edge list" where
  "GetHonestEdges s =
     snd (Map_ForEach (\<lambda>assertionHash t syncEdges.
            (Inr (), snd (Map_ForEach (\<lambda>edgeId e syncEdges. (Inr (), syncEdges @ [e])) (edges (honestEdgeTree t)) syncEdges)))
          (challenges s) [])"

subsection \<open>Confirmable and evil edges\<close>

definition put_edge :: "string \<Rightarrow> 'h Edge \<Rightarrow> (string, 'h Edge list) gomap \<Rightarrow> (string, 'h Edge list) gomap" where
  "put_edge k e m = Map_Put k (Map_Get [] m k @ [e]) m"

text \<open>The way an honest edge can be confirmed, the body of the loop of \<^verbatim>\<open>GetHonestConfirmableEdges\<close>.\<close>

definition confirmable_by_time :: "('w, 'h, 'a, 'm) WatcherEnv \<Rightarrow> 'h \<Rightarrow> 'h Edge \<Rightarrow> ('w, 'h, 'a, 'm, string option) wop" where
  "confirmable_by_time env assertionHash e =
     bindO (tryO (watcher_ComputeHonestPathTimer env assertionHash (EdgeId e))) (\<lambda>result.
       case result of
         Inl err \<Rightarrow> if err = ErrNoLowerChildYet then returnO None else failO err
       | Inr (timer, _, _) \<Rightarrow>
           bindO (on_w (Manager_ChallengePeriodBlocks env)) (\<lambda>chalPeriod.
             returnO (if timer \<ge> chalPeriod then Some ''confirmable_by_timer'' else None)))"

definition confirmable_by :: "('w, 'h, 'a, 'm) WatcherEnv \<Rightarrow> 'h Edge \<Rightarrow> ('w, 'h, 'a, 'm, string option) wop" where
  "confirmable_by env e =
     bindO (on_w (Edge_Status env (EdgeId e))) (\<lambda>status.
       if status = StatusConfirmed then returnO None
       else
         bindO (on_w (CanOneStepProve (Environment.truncate env) e)) (\<lambda>canOsp.
           if canOsp then returnO (Some ''confirmable_by_osp'')
           else
             bindO (on_w (Edge_HasConfirmedRival env (EdgeId e))) (\<lambda>hasConfirmedRival.
               if hasConfirmedRival then returnO None
               else
                 bindO (on_w (Edge_AssertionHash env (EdgeId e))) (\<lambda>assertionHash.
                 bindO (on_w (Chain_SpecChallengeManager env)) (\<lambda>_.
                 bindO (on_w (ChildrenAreConfirmed (Environment.truncate env) e)) (\<lambda>childrenConfirmed.
                   if childrenConfirmed then returnO (Some ''confirmable_by_children'')
                   else
                     bindO (ofM (getM (ConfirmedEdgeWithClaimExists assertionHash (EdgeId e)))) (\<lambda>claiming.
                       if claiming \<noteq> None then returnO (Some ''confirmable_by_claim'')
                       else confirmable_by_time env assertionHash e)))))))"

fun confirmable_edges_loop ::
    "('w, 'h, 'a, 'm) WatcherEnv \<Rightarrow> 'h Edge list \<Rightarrow> (string, 'h Edge list) gomap \<Rightarrow>
     ('w, 'h, 'a, 'm, (string, 'h Edge list) gomap) wop" where
  "confirmable_edges_loop env [] m = returnO m"
| "confirmable_edges_loop env (e # es) m =
     bindO (confirmable_by env e) (\<lambda>way.
       confirmable_edges_loop env es (case way of None \<Rightarrow> m | Some k \<Rightarrow> put_edge k e m))"

definition GetHonestConfirmableEdges ::
    "('w, 'h, 'a, 'm) WatcherEnv \<Rightarrow> ('w, 'h, 'a, 'm, (string, 'h Edge list) gomap) wop" where
  "GetHonestConfirmableEdges env =
     bindO (ofM (getM GetHonestEdges)) (\<lambda>honestEdges.
       let m = Map_Put ''confirmable_by_children'' [] NewMap;
           m = Map_Put ''confirmable_by_claim'' [] m;
           m = Map_Put ''confirmable_by_timer'' [] m;
           m = Map_Put ''confirmable_by_osp'' [] m
       in confirmable_edges_loop env honestEdges m)"

fun confirmed_loop :: "('w, 'h, 'a, 'm) WatcherEnv \<Rightarrow> 'h Edge list \<Rightarrow> 'h Edge list \<Rightarrow> ('w, 'h, 'a, 'm, 'h Edge list) wop" where
  "confirmed_loop env [] acc = returnO acc"
| "confirmed_loop env (e # es) acc =
     bindO (on_w (Edge_Status env (EdgeId e))) (\<lambda>status.
       confirmed_loop env es (if status = StatusConfirmed then acc @ [e] else acc))"

definition GetEvilConfirmedEdges :: "('w, 'h, 'a, 'm) WatcherEnv \<Rightarrow> ('w, 'h, 'a, 'm, 'h Edge list) wop" where
  "GetEvilConfirmedEdges env =
     bindO (watcher_GetEdges env) (\<lambda>es.
     bindO (ofM (getM GetHonestEdges)) (\<lambda>honestEdges.
       let honestEdgesMap = fold (\<lambda>e m. Map_Put (EdgeId e) e m) honestEdges NewMap;
           evilEdges = filter (\<lambda>e. Map_TryGet honestEdgesMap (EdgeId e) = None) es
       in confirmed_loop env evilEdges []))"

subsection \<open>Adding edges\<close>

text \<open>The entry of a challenge, made when it is not tracked yet.\<close>

definition ensure_challenge ::
    "('w, 'h, 'a, 'm) WatcherEnv \<Rightarrow> 'h \<Rightarrow> ('w, 'h, 'a, 'm) Watcher_scheme \<Rightarrow> ('w, 'h, 'a, 'm) Watcher_scheme" where
  "ensure_challenge env assertionHash s =
     (case Map_TryGet (challenges s) assertionHash of
        Some _ \<Rightarrow> s
      | None \<Rightarrow>
          let tree = Tree_New assertionHash (Chain_Reader env (wt_world s)) (Hist_Checker env (wt_world s))
                       (numBigStepLevels s) (wt_validatorName s)
          in s\<lparr>challenges :=
                 Map_Put assertionHash \<lparr>honestEdgeTree = tree, confirmedLevelZeroEdgeClaimIds = NewMap\<rparr> (challenges s)\<rparr>)"

definition AddVerifiedHonestEdge :: "('w, 'h, 'a, 'm) WatcherEnv \<Rightarrow> 'h Edge \<Rightarrow> ('w, 'h, 'a, 'm, unit) wop" where
  "AddVerifiedHonestEdge env e =
     bindO (on_w (Edge_AssertionHash env (EdgeId e))) (\<lambda>assertionHash.
     bindO (ofM (modifyM (ensure_challenge env assertionHash))) (\<lambda>_.
       on_tree env assertionHash (ofM (AddHonestEdge e))))"

definition watcher_AddEdge :: "('w, 'h, 'a, 'm) WatcherEnv \<Rightarrow> 'h Edge \<Rightarrow> ('w, 'h, 'a, 'm, unit) wop" where
  "watcher_AddEdge env e =
     bindO (on_w (Edge_AssertionHash env (EdgeId e))) (\<lambda>challengeParentAssertionHash.
     bindO (on_w (Chain_IsChallengeComplete env challengeParentAssertionHash)) (\<lambda>challengeComplete.
       if challengeComplete then returnO ()
       else
         bindO (ofM (modifyM (ensure_challenge env challengeParentAssertionHash))) (\<lambda>_.
         bindO (tryO (on_tree env challengeParentAssertionHash (ofM (AddEdge e)))) (\<lambda>result.
           case result of
             Inl err \<Rightarrow> if err \<noteq> ErrAlreadyBeingTracked then failO err else returnO ()
           | Inr agreement \<Rightarrow> if IsHonestEdge agreement then TrackEdge env e else returnO ()))))"

definition processEdgeAddedEvent :: "('w, 'h, 'a, 'm) WatcherEnv \<Rightarrow> 'h \<Rightarrow> ('w, 'h, 'a, 'm, unit) wop" where
  "processEdgeAddedEvent env edgeId =
     bindO (edge_by_id (ErrMsg ''no edge found with id %#x'') env edgeId) (watcher_AddEdge env)"

subsection \<open>Scanning\<close>

text \<open>
  The loop over the events of a query that the five checks share. As in \<^verbatim>\<open>getAllEdges\<close> the error of the iterator
  is lost.
\<close>

fun events_loop :: "('h \<Rightarrow> ('w, 'h, 'a, 'm, unit) wop) \<Rightarrow> 'h events \<Rightarrow> ('w, 'h, 'a, 'm, unit) wop" where
  "events_loop process [] = returnO ()"
| "events_loop process (None # events) = returnO ()"
| "events_loop process (Some edgeId # events) = bindO (process edgeId) (\<lambda>_. events_loop process events)"

definition checkForEdgeAdded :: "('w, 'h, 'a, 'm) WatcherEnv \<Rightarrow> uint64 \<Rightarrow> uint64 \<Rightarrow> ('w, 'h, 'a, 'm, unit) wop" where
  "checkForEdgeAdded env fromBlock toBlock =
     bindO (on_w (FilterEdgeAdded env fromBlock toBlock)) (\<lambda>events.
       events_loop (\<lambda>edgeId. retryW env (processEdgeAddedEvent env edgeId)) events)"

definition processEdgeConfirmation :: "('w, 'h, 'a, 'm) WatcherEnv \<Rightarrow> 'h \<Rightarrow> ('w, 'h, 'a, 'm, unit) wop" where
  "processEdgeConfirmation env edgeId =
     bindO (edge_by_id (ErrMsg ''no edge found'') env edgeId) (\<lambda>e.
     bindO (on_w (Edge_AssertionHash env (EdgeId e))) (\<lambda>challengeParentAssertionHash.
       case ClaimId e of
         None \<Rightarrow> returnO ()
       | Some claimId \<Rightarrow>
           bindO (ofM (getM (\<lambda>s. Map_TryGet (challenges s) challengeParentAssertionHash))) (\<lambda>tracked.
             if tracked = None then returnO ()
             else
               bindO (on_w (Chain_IsChallengeComplete env challengeParentAssertionHash)) (\<lambda>challengeComplete.
                 if challengeComplete then returnO ()
                 else
                   bindO (if GetChallengeLevel e = NewBlockChallengeLevel
                          then on_w (Chain_ConfirmAssertionByChallengeWinner env claimId edgeId)
                          else returnO ()) (\<lambda>_.
                     ofM (modifyM (\<lambda>s.
                       case Map_TryGet (challenges s) challengeParentAssertionHash of
                         None \<Rightarrow> s
                       | Some chal \<Rightarrow>
                           s\<lparr>challenges :=
                               Map_Put challengeParentAssertionHash
                                 (chal\<lparr>confirmedLevelZeroEdgeClaimIds :=
                                         Map_Put claimId (EdgeId e) (confirmedLevelZeroEdgeClaimIds chal)\<rparr>)
                                 (challenges s)\<rparr>)))))))"

definition checkForEdgeConfirmedByOneStepProof ::
    "('w, 'h, 'a, 'm) WatcherEnv \<Rightarrow> uint64 \<Rightarrow> uint64 \<Rightarrow> ('w, 'h, 'a, 'm, unit) wop" where
  "checkForEdgeConfirmedByOneStepProof env fromBlock toBlock =
     bindO (on_w (FilterEdgeConfirmedByOneStepProof env fromBlock toBlock)) (\<lambda>events.
       events_loop (\<lambda>edgeId. retryW env (processEdgeConfirmation env edgeId)) events)"

definition checkForEdgeConfirmedByTime ::
    "('w, 'h, 'a, 'm) WatcherEnv \<Rightarrow> uint64 \<Rightarrow> uint64 \<Rightarrow> ('w, 'h, 'a, 'm, unit) wop" where
  "checkForEdgeConfirmedByTime env fromBlock toBlock =
     bindO (on_w (FilterEdgeConfirmedByTime env fromBlock toBlock)) (\<lambda>events.
       events_loop (\<lambda>edgeId. retryW env (processEdgeConfirmation env edgeId)) events)"

definition checkForEdgeConfirmedByChildren ::
    "('w, 'h, 'a, 'm) WatcherEnv \<Rightarrow> uint64 \<Rightarrow> uint64 \<Rightarrow> ('w, 'h, 'a, 'm, unit) wop" where
  "checkForEdgeConfirmedByChildren env fromBlock toBlock =
     bindO (on_w (FilterEdgeConfirmedByChildren env fromBlock toBlock)) (\<lambda>events.
       events_loop (\<lambda>edgeId. retryW env (processEdgeConfirmation env edgeId)) events)"

definition checkForEdgeConfirmedByClaim ::
    "('w, 'h, 'a, 'm) WatcherEnv \<Rightarrow> uint64 \<Rightarrow> uint64 \<Rightarrow> ('w, 'h, 'a, 'm, unit) wop" where
  "checkForEdgeConfirmedByClaim env fromBlock toBlock =
     bindO (on_w (FilterEdgeConfirmedByClaim env fromBlock toBlock)) (\<lambda>events.
       events_loop (\<lambda>edgeId. retryW env (processEdgeConfirmation env edgeId)) events)"

subsection \<open>The service\<close>

text \<open>
  \<^verbatim>\<open>Start\<close>: the first scan, then a scan at every tick. The first scan ends with the block the next one starts from.
\<close>

definition initial_sync :: "('w, 'h, 'a, 'm) WatcherEnv \<Rightarrow> ('w, 'h, 'a, 'm, uint64) wop" where
  "initial_sync env =
     bindO (retryW env (getStartEndBlockNum env)) (\<lambda>scanRange.
     bindO (get_filterer env) (\<lambda>_.
       let fromBlock = startBlockNum scanRange; toBlock = endBlockNum scanRange in
       bindO (retryW env (checkForEdgeAdded env fromBlock toBlock)) (\<lambda>_.
       bindO (retryW env (checkForEdgeConfirmedByOneStepProof env fromBlock toBlock)) (\<lambda>_.
       bindO (retryW env (checkForEdgeConfirmedByChildren env fromBlock toBlock)) (\<lambda>_.
       bindO (retryW env (checkForEdgeConfirmedByClaim env fromBlock toBlock)) (\<lambda>_.
       bindO (retryW env (checkForEdgeConfirmedByTime env fromBlock toBlock)) (\<lambda>_.
       bindO (ofM (modifyM (\<lambda>s. s\<lparr>initialSyncCompleted := True\<rparr>))) (\<lambda>_.
         returnO toBlock))))))))"

definition scan_range :: "('w, 'h, 'a, 'm) WatcherEnv \<Rightarrow> uint64 \<Rightarrow> uint64 \<Rightarrow> ('w, 'h, 'a, 'm, unit) wop" where
  "scan_range env fromBlock toBlock =
     bindO (checkForEdgeAdded env fromBlock toBlock) (\<lambda>_.
     bindO (checkForEdgeConfirmedByOneStepProof env fromBlock toBlock) (\<lambda>_.
     bindO (checkForEdgeConfirmedByChildren env fromBlock toBlock) (\<lambda>_.
     bindO (checkForEdgeConfirmedByTime env fromBlock toBlock) (\<lambda>_.
       checkForEdgeConfirmedByClaim env fromBlock toBlock))))"

text \<open>The work at a tick: the block to go on from, or \<open>None\<close> when the loop returns.\<close>

definition poll_tick :: "('w, 'h, 'a, 'm) WatcherEnv \<Rightarrow> uint64 \<Rightarrow> ('w, 'h, 'a, 'm, uint64 option) wop" where
  "poll_tick env fromBlock =
     bindO (tryO (on_w (HeaderByNumber env))) (\<lambda>latestBlock.
       case latestBlock of
         Inl _ \<Rightarrow> returnO (Some fromBlock)
       | Inr number \<Rightarrow>
           if \<not> IsUint64 number then returnO (Some fromBlock)
           else
             let toBlock = of_int number in
             if fromBlock = toBlock then returnO (Some fromBlock)
             else
               bindO (tryO (get_filterer env)) (\<lambda>filterer.
                 case filterer of
                   Inl _ \<Rightarrow> returnO None
                 | Inr _ \<Rightarrow>
                     bindO (tryO (scan_range env fromBlock toBlock)) (\<lambda>scanned.
                       returnO (Some (case scanned of Inl _ \<Rightarrow> fromBlock | Inr _ \<Rightarrow> toBlock)))))"

text \<open>
  What the service came to after the given wake-ups: still watching, with the block its next scan starts from, returned,
  or ended by a panic.
\<close>

datatype watching = Watching uint64 | Returned | Crashed

fun poll_loop ::
    "('w, 'h, 'a, 'm) WatcherEnv \<Rightarrow> wakeup list \<Rightarrow> uint64 \<Rightarrow> ('w, 'h, 'a, 'm) Watcher_scheme \<Rightarrow>
     (watching \<times> ('w, 'h, 'a, 'm) Watcher_scheme) option" where
  "poll_loop env [] fromBlock s = Some (Watching fromBlock, s)"
| "poll_loop env (CtxDone # ws) fromBlock s = Some (Returned, s)"
| "poll_loop env (Tick # ws) fromBlock s =
     (case poll_tick env fromBlock s of
        None \<Rightarrow> None
      | Some (Inl _, s') \<Rightarrow> Some (Crashed, s')
      | Some (Inr None, s') \<Rightarrow> Some (Returned, s')
      | Some (Inr (Some fromBlock'), s') \<Rightarrow> poll_loop env ws fromBlock' s')"

definition watcher_Start ::
    "('w, 'h, 'a, 'm) WatcherEnv \<Rightarrow> wakeup list \<Rightarrow> ('w, 'h, 'a, 'm) Watcher_scheme \<Rightarrow>
     (watching \<times> ('w, 'h, 'a, 'm) Watcher_scheme) option" where
  "watcher_Start env ws s =
     (case initial_sync env s of
        None \<Rightarrow> None
      | Some (Inl e, s') \<Rightarrow> Some (if e = GoPanic then Crashed else Returned, s')
      | Some (Inr fromBlock, s') \<Rightarrow> poll_loop env ws fromBlock s')"

end
