(* ===== verification/Watcher_Safety.thy ===== *)
theory Watcher_Safety
  imports Watcher
begin

text \<open>
  What the chain watcher guarantees: every run of its operations is a sequence of a few kinds of steps, the trees only hold
  edges that the history checker agreed with or that the validator made itself, the confirmed claims come from events of
  confirmations, and a scanned range of blocks leaves no event unsettled.
\<close>

subsection \<open>Steps\<close>

text \<open>The history checker of some time answered whether it agrees with the end commitment of an edge.\<close>

definition checked :: "('w, 'h, 'a, 'm) WatcherEnv \<Rightarrow> 'h Edge \<Rightarrow> bool \<Rightarrow> bool" where
  "checked env e answer \<longleftrightarrow>
     (\<exists>w req. FromHeight req = 0 \<and> UpToHeight req = Some (fst (EndCommitment e)) \<and>
        (if GetChallengeLevel e = NewBlockChallengeLevel then UpperChallengeOriginHeights req = []
         else TopLevelClaimHeights (Chain_Reader env w) (EdgeId e) = Inr (UpperChallengeOriginHeights req)) \<and>
        Hist_Checker env w (GetChallengeLevel e) req
          \<lparr>l2_Height = fst (EndCommitment e), MerkleRoot = snd (EndCommitment e)\<rparr> = Inr answer)"

abbreviation agreed :: "('w, 'h, 'a, 'm) WatcherEnv \<Rightarrow> 'h Edge \<Rightarrow> bool" where
  "agreed env e \<equiv> checked env e True"

text \<open>The edges the chain returns, and the ids that the filters for confirmations deliver.\<close>

definition on_chain :: "('w, 'h, 'a, 'm) WatcherEnv \<Rightarrow> 'h \<Rightarrow> 'h Edge \<Rightarrow> bool" where
  "on_chain env i e \<longleftrightarrow> (\<exists>w w'. Manager_GetEdge env i w = (Inr (Some e), w'))"

definition confirmation_seen :: "('w, 'h, 'a, 'm) WatcherEnv \<Rightarrow> 'h \<Rightarrow> bool" where
  "confirmation_seen env i \<longleftrightarrow>
     (\<exists>fr to w evs w'. Some i \<in> set evs \<and>
        (FilterEdgeConfirmedByOneStepProof env fr to w = (Inr evs, w') \<or> FilterEdgeConfirmedByTime env fr to w = (Inr evs, w') \<or>
         FilterEdgeConfirmedByChildren env fr to w = (Inr evs, w') \<or> FilterEdgeConfirmedByClaim env fr to w = (Inr evs, w')))"

definition put_claim :: "'h \<Rightarrow> 'h \<Rightarrow> 'h \<Rightarrow> ('w, 'h, 'a, 'm) Watcher_scheme \<Rightarrow> ('w, 'h, 'a, 'm) Watcher_scheme" where
  "put_claim assertionHash claimId i s =
     (case Map_TryGet (challenges s) assertionHash of
        None \<Rightarrow> s
      | Some chal \<Rightarrow>
          s\<lparr>challenges :=
              Map_Put assertionHash
                (chal\<lparr>confirmedLevelZeroEdgeClaimIds := Map_Put claimId i (confirmedLevelZeroEdgeClaimIds chal)\<rparr>)
                (challenges s)\<rparr>)"

inductive watch_step ::
    "('w, 'h, 'a, 'm) WatcherEnv \<Rightarrow> 'h Edge set \<Rightarrow> ('w, 'h, 'a, 'm) Watcher_scheme \<Rightarrow> ('w, 'h, 'a, 'm) Watcher_scheme \<Rightarrow> bool"
  for env own where
  step_world: "watch_step env own s (s\<lparr>wt_world := w\<rparr>)"
| step_synced: "watch_step env own s (s\<lparr>initialSyncCompleted := True\<rparr>)"
| step_challenge: "watch_step env own s (ensure_challenge env a s)"
| step_add: "on_chain env i e \<Longrightarrow> on_tree env a (ofM (AddEdge e)) s = Some (r, s') \<Longrightarrow> watch_step env own s s'"
| step_own: "e \<in> own \<Longrightarrow> on_tree env a (ofM (AddHonestEdge e)) s = Some (r, s') \<Longrightarrow> watch_step env own s s'"
| step_path_timer: "on_tree env a (ofM (ComputeHonestPathTimer i timers T)) s = Some (r, s') \<Longrightarrow> watch_step env own s s'"
| step_ancestors: "on_tree env a (ComputeAncestorsWithTimers ctxErr ch i T) s = Some (r, s') \<Longrightarrow> watch_step env own s s'"
| step_claim: "confirmation_seen env i \<Longrightarrow> on_chain env i e \<Longrightarrow> ClaimId e = Some c \<Longrightarrow> watch_step env own s (put_claim a c (EdgeId e) s)"
| step_track: "on_chain env i e \<Longrightarrow> agreed env e \<Longrightarrow> TrackEdge env e s = Some (r, s') \<Longrightarrow> watch_step env own s s'"

abbreviation watches ::
    "('w, 'h, 'a, 'm) WatcherEnv \<Rightarrow> 'h Edge set \<Rightarrow> ('w, 'h, 'a, 'm) Watcher_scheme \<Rightarrow> ('w, 'h, 'a, 'm) Watcher_scheme \<Rightarrow> bool" where
  "watches env own \<equiv> (watch_step env own)\<^sup>*\<^sup>*"

subsection \<open>Every operation is made of steps\<close>

lemma leads_on_w: "leads (watch_step env own) (on_w m)"
  by (rule leads_step) (auto simp: on_w_def intro: step_world split: prod.splits)

lemma leads_retryW: "leads (watch_step env own) fn \<Longrightarrow> leads (watch_step env own) (retryW env fn)"
  unfolding retryW_def by (rule leads_retry) (auto intro: step_world)

lemma leads_ensure: "leads (watch_step env own) (ofM (modifyM (ensure_challenge env a)))"
  by (rule leads_modify) (auto intro: step_challenge)

lemmas watch_intros = leads_simple leads_tryO leads_on_w leads_retryW leads_ensure leads_bindO

lemma on_w_Inr: "on_w m s = Some (Inr x, s') \<Longrightarrow> \<exists>w'. m (wt_world s) = (Inr x, w') \<and> s' = s\<lparr>wt_world := w'\<rparr>"
  by (auto simp: on_w_def split: prod.splits)

lemma edge_by_id_Inr: "edge_by_id err env i s = Some (Inr e, s') \<Longrightarrow> on_chain env i e"
  unfolding on_chain_def by (fastforce simp: edge_by_id_def bindO_Some dest!: on_w_Inr split: option.splits)

lemma leads_edge_by_id: "leads (watch_step env own) (edge_by_id err env i)"
  unfolding edge_by_id_def by (intro watch_intros) (auto intro: watch_intros split: option.splits)

lemma leads_getStartEndBlockNum: "leads (watch_step env own) (getStartEndBlockNum env)"
  unfolding getStartEndBlockNum_def by (intro watch_intros) (auto intro: watch_intros)

lemma leads_get_filterer: "leads (watch_step env own) (get_filterer env)"
  unfolding get_filterer_def by (intro watch_intros)

lemma leads_ComputeByBlockNumber: "leads (watch_step env own) (ComputeHonestPathTimerByBlockNumber env a i T)"
proof -
  have "leads (watch_step env own) (bindO (on_tree env a (ComputeAncestorsWithTimers ctxErr ch i T)) (\<lambda>response.
      bindO (on_tree env a (ofM (ComputeHonestPathTimer i (AncestorLocalTimers response) T))) (\<lambda>pathTimer.
        returnO (pathTimer, AncestorEdgeIds response, AncestorLocalTimers response))))" for ctxErr ch
    by (intro watch_intros leads_step) (auto intro: step_ancestors step_path_timer)
  then show ?thesis
    unfolding leads_def [of _ "ComputeHonestPathTimerByBlockNumber env a i T"] ComputeHonestPathTimerByBlockNumber_def
    by (auto dest: leadsD)
qed

lemma leads_ComputeHonestPathTimer: "leads (watch_step env own) (watcher_ComputeHonestPathTimer env a i)"
  unfolding watcher_ComputeHonestPathTimer_def
  by (intro watch_intros) (auto intro: watch_intros leads_ComputeByBlockNumber)

lemma edge_agreement_checked:
  fixes ht :: "('h, 'a) HonestChallengeTree"
  assumes "edge_agreement e (fresh_reads env w ht) = Inr ag"
  shows "checked env e (IsHonestEdge ag)"
proof -
  obtain sh sr where st: "StartCommitment e = (sh, sr)" by (cases "StartCommitment e")
  obtain eh er where en: "EndCommitment e = (eh, er)" by (cases "EndCommitment e")
  define req where "req i hs = \<lparr>Req_WasmModuleRoot = WasmModuleRoot i,
       FromBatch = Batch (GoGlobalStateFromSolidity (sol_GlobalState (BeforeState i))),
       ToBatch = Batch (GoGlobalStateFromSolidity (sol_GlobalState (AfterState i))),
       UpperChallengeOriginHeights = (if GetChallengeLevel e = NewBlockChallengeLevel then [] else hs),
       FromHeight = 0, UpToHeight = Some eh\<rparr>" for i :: "('h, 'a) AssertionCreatedInfo" and hs
  from assms obtain x i hs where "ReadAssertionCreationInfo (Chain_Reader env w) x = Inr i"
    "TopLevelClaimHeights (Chain_Reader env w) (EdgeId e) = Inr hs"
    "Hist_Checker env w (GetChallengeLevel e) (req i hs) \<lparr>l2_Height = eh, MerkleRoot = er\<rparr> = Inr (IsHonestEdge ag)"
    unfolding req_def
    by (fastforce simp: edge_agreement_def bindR_eq_Inr Let_def st en fresh_reads_def split del: if_split split: if_split_asm)
  moreover have "FromHeight (req i hs) = 0" "UpToHeight (req i hs) = Some eh"
    "UpperChallengeOriginHeights (req i hs) = (if GetChallengeLevel e = NewBlockChallengeLevel then [] else hs)" for i hs
    by (simp_all add: req_def)
  ultimately show ?thesis unfolding checked_def en by (intro exI [of _ w] exI [of _ "req i hs"]) auto
qed

lemma AddEdge_Inr_checked:
  assumes "on_tree env a (ofM (AddEdge e)) s = Some (Inr ag, s')"
  shows "checked env e (IsHonestEdge ag)"
proof -
  from assms obtain chal ht where "Map_TryGet (challenges s) a = Some chal"
    "AddEdge e (fresh_reads env (wt_world s) (honestEdgeTree chal)) = (Inr ag, ht)"
    by (auto simp: on_tree_def split: option.splits prod.splits)
  then have "edge_agreement e (fresh_reads env (wt_world s) (honestEdgeTree chal)) = Inr ag"
    by (auto simp: AddEdge_def Let_def bindM_def returnM_def split: if_splits sum.splits prod.splits)
  then show ?thesis by (rule edge_agreement_checked)
qed

lemma AddEdge_Inr_agreed: "on_tree env a (ofM (AddEdge e)) s = Some (Inr ag, s') \<Longrightarrow> IsHonestEdge ag \<Longrightarrow> agreed env e"
  using AddEdge_Inr_checked by fastforce

lemma leads_AddEdge:
  assumes "on_chain env i e"
  shows "leads (watch_step env own) (watcher_AddEdge env e)"
proof -
  have tree: "leads (watch_step env own) (on_tree env a (ofM (AddEdge e)))" for a
    by (rule leads_step) (rule step_add [OF assms])
  have track: "leads (watch_step env own) (TrackEdge env e)" if "agreed env e"
    by (rule leads_step) (rule step_track [OF assms that])
  show ?thesis
    unfolding watcher_AddEdge_def
    by (intro watch_intros leads_bindO tree)
      (auto intro!: watch_intros tree track AddEdge_Inr_agreed simp: tryO_Some split: sum.splits if_splits)
qed

lemma leads_processEdgeAdded: "leads (watch_step env own) (processEdgeAddedEvent env i)"
  unfolding processEdgeAddedEvent_def
  by (intro leads_bindO leads_edge_by_id) (auto dest: edge_by_id_Inr intro: leads_AddEdge)

lemma leads_AddVerifiedHonestEdge: "e \<in> own \<Longrightarrow> leads (watch_step env own) (AddVerifiedHonestEdge env e)"
  unfolding AddVerifiedHonestEdge_def by (intro watch_intros leads_step) (rule step_own)

lemma leads_put_claim:
  assumes "confirmation_seen env i" "on_chain env i e" "ClaimId e = Some c"
  shows "leads (watch_step env own) (ofM (modifyM (put_claim a c (EdgeId e))))"
  by (rule leads_modify) (auto intro: step_claim [OF assms])

lemma leads_processEdgeConfirmation:
  assumes "confirmation_seen env i"
  shows "leads (watch_step env own) (processEdgeConfirmation env i)"
  unfolding processEdgeConfirmation_def put_claim_def [symmetric]
  by (intro leads_bindO leads_edge_by_id leads_on_w)
    (auto intro!: watch_intros leads_put_claim [OF assms] dest!: edge_by_id_Inr split: option.splits)

lemma leads_events_loop:
  assumes "\<And>i. Some i \<in> set evs \<Longrightarrow> leads R (process i)"
  shows "leads R (events_loop process evs)"
  using assms
proof (induction evs)
  case (Cons x evs)
  then show ?case by (cases x) (auto intro!: leads_simple leads_bindO)
qed (simp add: leads_simple)

lemma leads_checkForEdgeAdded: "leads (watch_step env own) (checkForEdgeAdded env fr to)"
  unfolding checkForEdgeAdded_def
  by (intro leads_bindO leads_on_w leads_events_loop leads_retryW leads_processEdgeAdded)

lemma leads_confirmed_checks:
  "leads (watch_step env own) (checkForEdgeConfirmedByOneStepProof env fr to)"
  "leads (watch_step env own) (checkForEdgeConfirmedByTime env fr to)"
  "leads (watch_step env own) (checkForEdgeConfirmedByChildren env fr to)"
  "leads (watch_step env own) (checkForEdgeConfirmedByClaim env fr to)"
  unfolding checkForEdgeConfirmedByOneStepProof_def checkForEdgeConfirmedByTime_def
    checkForEdgeConfirmedByChildren_def checkForEdgeConfirmedByClaim_def
  by (intro leads_bindO leads_on_w leads_events_loop leads_retryW leads_processEdgeConfirmation;
      force simp: confirmation_seen_def dest!: on_w_Inr)+

lemmas leads_checks = leads_checkForEdgeAdded leads_confirmed_checks

lemma leads_synced: "leads (watch_step env own) (ofM (modifyM (\<lambda>s. s\<lparr>initialSyncCompleted := True\<rparr>)))"
  by (rule leads_modify) (auto intro: step_synced)

lemma leads_initial_sync: "leads (watch_step env own) (initial_sync env)"
  unfolding initial_sync_def Let_def
  by (intro leads_bindO leads_retryW leads_getStartEndBlockNum leads_get_filterer leads_checks leads_synced leads_simple)

lemma leads_scan_range: "leads (watch_step env own) (scan_range env fr to)"
  unfolding scan_range_def by (intro leads_bindO leads_checks)

lemma leads_poll_tick: "leads (watch_step env own) (poll_tick env fr)"
  unfolding poll_tick_def Let_def
  by (auto intro!: watch_intros leads_get_filterer leads_scan_range split: sum.splits)

lemma poll_loop_watches: "poll_loop env ws fr s = Some (out, s') \<Longrightarrow> watches env own s s'"
proof (induction env ws fr s rule: poll_loop.induct)
  case (3 env ws fr s)
  then show ?case
    by (auto split: option.splits sum.splits dest!: leadsD [OF leads_poll_tick, of _ _ _ _ _ own] intro: rtranclp_trans)
qed auto

lemma watcher_Start_watches: "watcher_Start env ws s = Some (out, s') \<Longrightarrow> watches env own s s'"
  unfolding watcher_Start_def
  by (auto split: option.splits sum.splits dest!: leadsD [OF leads_initial_sync, of _ _ _ _ own] poll_loop_watches [where own = own]
      intro: rtranclp_trans)

subsection \<open>Invariants of the tracked challenges\<close>

definition all_challenges ::
    "('h \<Rightarrow> ('h, 'a) trackedChallenge \<Rightarrow> bool) \<Rightarrow> ('w, 'h, 'a, 'm) Watcher_scheme \<Rightarrow> bool" where
  "all_challenges P s \<longleftrightarrow> (\<forall>a chal. Map_TryGet (challenges s) a = Some chal \<longrightarrow> P a chal)"

lemma all_challengesD: "all_challenges P s \<Longrightarrow> Map_TryGet (challenges s) a = Some chal \<Longrightarrow> P a chal"
  by (simp add: all_challenges_def)

lemma all_challenges_put:
  "all_challenges P s \<Longrightarrow> P a chal \<Longrightarrow> all_challenges P (s\<lparr>challenges := Map_Put a chal (challenges s)\<rparr>)"
  by (auto simp: all_challenges_def)

lemma all_challenges_other: "challenges s' = challenges s \<Longrightarrow> all_challenges P s' = all_challenges P s"
  by (simp add: all_challenges_def)

lemma on_tree_all:
  assumes "on_tree env a m s = Some (r, s')" "all_challenges P s"
    "\<And>chal ht. P a chal \<Longrightarrow> m (fresh_reads env (wt_world s) (honestEdgeTree chal)) = Some (r, ht) \<Longrightarrow>
      P a (chal\<lparr>honestEdgeTree := ht\<rparr>)"
  shows "all_challenges P s'"
  using assms by (auto simp: on_tree_def split: option.splits prod.splits intro!: all_challenges_put dest: all_challengesD)

lemma on_tree_all_ofM:
  assumes "on_tree env a (ofM f) s = Some (r, s')" "all_challenges P s"
    "\<And>chal. P a chal \<Longrightarrow> P a (chal\<lparr>honestEdgeTree := snd (f (fresh_reads env (wt_world s) (honestEdgeTree chal)))\<rparr>)"
  shows "all_challenges P s'"
proof (rule on_tree_all [OF assms(1,2)])
  fix chal ht
  assume "P a chal" "ofM f (fresh_reads env (wt_world s) (honestEdgeTree chal)) = Some (r, ht)"
  then show "P a (chal\<lparr>honestEdgeTree := ht\<rparr>)" using assms(3) [of chal] by (simp add: ofM_def)
qed

lemma add_mutual_fields [simp]:
  "edges (snd (add_mutual e ht)) = edges ht" "topLevelAssertionHash (snd (add_mutual e ht)) = topLevelAssertionHash ht"
  using same_tree_fields [OF same_tree_ensure [of ht "MutualId e"]]
  by (simp_all add: add_mutual_def Let_def split: sum.splits)

lemma topLevel_track [simp]: "topLevelAssertionHash (track e ht) = topLevelAssertionHash ht"
  by (simp add: track_def add_root_def Let_def split: option.splits)

lemma AddEdge_topLevel [simp]: "topLevelAssertionHash (snd (AddEdge e ht)) = topLevelAssertionHash ht"
  by (rule AddEdge_cases [of e ht]) auto

lemma AddEdge_edges:
  assumes "Map_TryGet (edges (snd (AddEdge e ht))) i = Some e'"
  shows "Map_TryGet (edges ht) i = Some e' \<or>
    i = EdgeId e \<and> e' = e \<and> (\<exists>ag. edge_agreement e ht = Inr ag \<and> IsHonestEdge ag)"
  using assms by (cases rule: AddEdge_cases [of e ht]) (auto split: if_splits)

lemma AddEdge_keeps_edges: "Map_TryGet (edges ht) i = Some e' \<Longrightarrow> Map_TryGet (edges (snd (AddEdge e ht))) i = Some e'"
  by (rule AddEdge_cases [of e ht]) (auto split: if_splits)

lemma AddHonestEdge_edges:
  "topLevelAssertionHash (snd (AddHonestEdge e ht)) = topLevelAssertionHash ht"
  "Map_TryGet (edges (snd (AddHonestEdge e ht))) i =
     (case Map_TryGet (edges ht) i of Some e' \<Rightarrow> Some e' | None \<Rightarrow> if i = EdgeId e then Some e else None)"
  by (auto simp: AddHonestEdge_def split: option.splits)

lemma fresh_reads_fields [simp]:
  "edges (fresh_reads env w ht) = edges ht" "topLevelAssertionHash (fresh_reads env w ht) = topLevelAssertionHash ht"
  "honestRootEdgesByLevel (fresh_reads env w ht) = honestRootEdgesByLevel ht"
  "totalChallengeLevels (fresh_reads env w ht) = totalChallengeLevels ht" "mutuals_of (fresh_reads env w ht) = mutuals_of ht"
  by (simp_all add: fresh_reads_def mutuals_of_def fun_eq_iff)

lemma fresh_reads_tree_ok [simp]: "tree_ok chain (fresh_reads env w ht) = tree_ok chain ht"
  by (simp add: tree_ok_def recorded_def roots_at_def)

definition tracked :: "('w, 'h, 'a, 'm) Watcher_scheme \<Rightarrow> 'h \<Rightarrow> 'h \<Rightarrow> 'h Edge option" where
  "tracked s a i =
     (case Map_TryGet (challenges s) a of None \<Rightarrow> None | Some chal \<Rightarrow> Map_TryGet (edges (honestEdgeTree chal)) i)"

lemma on_tree_tracked:
  assumes "on_tree env b m s = Some (r, s')" "tracked s a i = Some e"
    "\<And>ht ht'. m (fresh_reads env (wt_world s) ht) = Some (r, ht') \<Longrightarrow> Map_TryGet (edges ht) i = Some e \<Longrightarrow>
      Map_TryGet (edges ht') i = Some e"
  shows "tracked s' a i = Some e"
  using assms by (auto simp: on_tree_def tracked_def split: option.splits prod.splits if_splits)

text \<open>
  What holds of a tracked challenge: its tree is the one of its assertion, holds edges of the validator itself and edges that
  were agreed with, and its confirmed claims are claims of edges whose confirmation was seen.
\<close>

definition honest_challenge ::
    "('w, 'h, 'a, 'm) WatcherEnv \<Rightarrow> 'h Edge set \<Rightarrow> 'h \<Rightarrow> ('h, 'a) trackedChallenge \<Rightarrow> bool" where
  "honest_challenge env own a chal \<longleftrightarrow>
     topLevelAssertionHash (honestEdgeTree chal) = a \<and>
     (\<forall>i e. Map_TryGet (edges (honestEdgeTree chal)) i = Some e \<longrightarrow> EdgeId e = i \<and> (e \<in> own \<or> agreed env e)) \<and>
     (\<forall>c j. Map_TryGet (confirmedLevelZeroEdgeClaimIds chal) c = Some j \<longrightarrow>
        (\<exists>i e. confirmation_seen env i \<and> on_chain env i e \<and> ClaimId e = Some c \<and> EdgeId e = j))"

text \<open>What an edge knows of itself is determined by its id.\<close>

definition chain_view :: "('w, 'h, 'a, 'm) WatcherEnv \<Rightarrow> 'h Edge set \<Rightarrow> ('h \<Rightarrow> 'h Edge) \<Rightarrow> bool" where
  "chain_view env own chain \<longleftrightarrow>
     (\<forall>i e. on_chain env i e \<longrightarrow> chain (EdgeId e) = e) \<and> (\<forall>e\<in>own. chain (EdgeId e) = e)"

text \<open>The contract of the watcher's edge manager: starting a tracker does not touch the tracked challenges.\<close>

locale edge_manager =
  fixes env :: "('w, 'h, 'a, 'm) WatcherEnv"
  assumes TrackEdge_challenges: "TrackEdge env e s = Some (r, s') \<Longrightarrow> challenges s' = challenges s"
begin

lemma watch_step_all:
  assumes "watch_step env own s s'" "all_challenges P s"
    and new: "\<And>a w n name. P a \<lparr>honestEdgeTree = Tree_New a (Chain_Reader env w) (Hist_Checker env w) n name,
        confirmedLevelZeroEdgeClaimIds = NewMap\<rparr>"
    and add: "\<And>a chal i e w. P a chal \<Longrightarrow> on_chain env i e \<Longrightarrow>
        P a (chal\<lparr>honestEdgeTree := snd (AddEdge e (fresh_reads env w (honestEdgeTree chal)))\<rparr>)"
    and own: "\<And>a chal e w. P a chal \<Longrightarrow> e \<in> own \<Longrightarrow>
        P a (chal\<lparr>honestEdgeTree := snd (AddHonestEdge e (fresh_reads env w (honestEdgeTree chal)))\<rparr>)"
    and same: "\<And>a chal w ht. P a chal \<Longrightarrow> same_tree (fresh_reads env w (honestEdgeTree chal)) ht \<Longrightarrow>
        P a (chal\<lparr>honestEdgeTree := ht\<rparr>)"
    and claim: "\<And>a chal i e c. P a chal \<Longrightarrow> confirmation_seen env i \<Longrightarrow> on_chain env i e \<Longrightarrow> ClaimId e = Some c \<Longrightarrow>
        P a (chal\<lparr>confirmedLevelZeroEdgeClaimIds := Map_Put c (EdgeId e) (confirmedLevelZeroEdgeClaimIds chal)\<rparr>)"
  shows "all_challenges P s'"
  using assms(1)
proof cases
  case (step_challenge a)
  then show ?thesis using assms(2) new
    by (auto simp: ensure_challenge_def Let_def split: option.splits intro!: all_challenges_put)
next
  case (step_add i e a r)
  show ?thesis by (rule on_tree_all_ofM [OF step_add(2) assms(2)]) (rule add [OF _ step_add(1)])
next
  case (step_own e a r)
  show ?thesis by (rule on_tree_all_ofM [OF step_own(2) assms(2)]) (rule own [OF _ step_own(1)])
next
  case (step_path_timer a i timers T r)
  show ?thesis by (rule on_tree_all_ofM [OF step_path_timer assms(2)]) (rule same [OF _ ComputeHonestPathTimer_same_tree])
next
  case (step_ancestors a ctxErr ch i T r)
  show ?thesis by (rule on_tree_all [OF step_ancestors assms(2)], rule same) (auto dest: ComputeAncestors_same_tree)
next
  case (step_claim i e c a)
  then show ?thesis using assms(2) by (auto simp: put_claim_def split: option.splits intro!: all_challenges_put claim dest: all_challengesD)
next
  case (step_track i e r)
  then show ?thesis using assms(2) by (simp add: all_challenges_other [OF TrackEdge_challenges])
qed (use assms(2) in \<open>auto simp: all_challenges_def\<close>)

text \<open>An edge stays in the tree of its challenge.\<close>

lemma watch_step_tracked:
  assumes "watch_step env own s s'" "tracked s a i = Some e"
  shows "tracked s' a i = Some e"
  using assms(1)
proof cases
  case (step_add j e' b r)
  show ?thesis by (rule on_tree_tracked [OF step_add(2) assms(2)]) (metis AddEdge_keeps_edges fresh_reads_fields(1) ofM_def option.inject snd_conv)
next
  case (step_own e' b r)
  have "Map_TryGet (edges ht) i = Some e \<Longrightarrow> Map_TryGet (edges (snd (AddHonestEdge e' ht))) i = Some e" for ht :: "('h, 'a) HonestChallengeTree"
    by (simp add: AddHonestEdge_edges)
  then show ?thesis
    by (intro on_tree_tracked [OF step_own(2) assms(2)]) (metis fresh_reads_fields(1) ofM_def option.inject snd_conv)
next
  case (step_path_timer b j timers T r)
  show ?thesis
    by (rule on_tree_tracked [OF step_path_timer assms(2)])
      (metis ComputeHonestPathTimer_same_tree fresh_reads_fields(1) ofM_def option.inject same_tree_fields(1) snd_conv)
next
  case (step_ancestors b ctxErr ch j T r)
  show ?thesis
    by (rule on_tree_tracked [OF step_ancestors assms(2)])
      (metis ComputeAncestors_same_tree fresh_reads_fields(1) same_tree_fields(1))
next
  case (step_track j e' r)
  then show ?thesis using assms(2) TrackEdge_challenges by (simp add: tracked_def)
qed (use assms(2) in \<open>auto simp: tracked_def ensure_challenge_def put_claim_def Let_def split: option.splits if_splits\<close>)

lemma watches_tracked: "watches env own s s' \<Longrightarrow> tracked s a i = Some e \<Longrightarrow> tracked s' a i = Some e"
  by (induction rule: rtranclp_induct) (auto intro: watch_step_tracked)

lemma watch_step_honest:
  assumes "watch_step env own s s'" "all_challenges (honest_challenge env own) s"
  shows "all_challenges (honest_challenge env own) s'"
proof (rule watch_step_all [OF assms], goal_cases)
  case (2 a chal i e w)
  then show ?case
    using AddEdge_edges [of e "fresh_reads env w (honestEdgeTree chal)"] edge_agreement_checked [of e env w "honestEdgeTree chal"]
    by (fastforce simp: honest_challenge_def)
next
  case (4 a chal w ht)
  then show ?case using same_tree_fields [OF 4(2)] by (simp add: honest_challenge_def)
next
  case (5 a chal i e c)
  then show ?case by (auto simp: honest_challenge_def split: if_splits)
qed (auto simp: honest_challenge_def Tree_New_def NewMap_def Map_TryGet_def [of "[]"] AddHonestEdge_edges split: option.splits if_splits)

lemma watch_step_tree_ok:
  assumes "watch_step env own s s'" "all_challenges (\<lambda>_ chal. tree_ok chain (honestEdgeTree chal)) s" "chain_view env own chain"
  shows "all_challenges (\<lambda>_ chal. tree_ok chain (honestEdgeTree chal)) s'"
proof (rule watch_step_all [OF assms(1,2)], goal_cases)
  case (2 a chal i e w)
  then show ?case using assms(3) AddEdge_ok [of chain e "fresh_reads env w (honestEdgeTree chal)"] by (auto simp: chain_view_def)
next
  case (3 a chal e w)
  then show ?case
    using assms(3) AddHonestEdge_ok [of chain e "fresh_reads env w (honestEdgeTree chal)"] by (auto simp: chain_view_def)
next
  case (4 a chal w ht)
  then show ?case using same_tree_ok [OF 4(2), of chain] by simp
qed (simp_all add: Tree_New_ok)

end

end
