(* ===== verification/Challenge_Manager.thy ===== *)
theory Challenge_Manager
  imports Watcher_Safety Tracker_Safety
begin

text \<open>
  \<^verbatim>\<open>challenge-manager/manager.go\<close> and \<^verbatim>\<open>challenges.go\<close>: the challenge manager, which owns the chain watcher, opens
  challenges and starts an edge tracker for every honest edge. Its state extends the watcher's, and its \<^verbatim>\<open>TrackEdge\<close> is
  the edge manager of the watcher. Logging and the API server are left out.
\<close>

subsection \<open>State and interfaces\<close>

text \<open>\<^verbatim>\<open>challenge-manager/types/mode.go\<close>; modes are compared by their position.\<close>

datatype Mode = WatchTowerMode | DefensiveMode | ResolveMode | MakeMode

fun Mode_value :: "Mode \<Rightarrow> nat" where
  "Mode_value WatchTowerMode = 0"
| "Mode_value DefensiveMode = 1"
| "Mode_value ResolveMode = 2"
| "Mode_value MakeMode = 3"

record LayerZeroHeights =
  lz_BlockChallengeHeight :: uint64
  lz_BigStepChallengeHeight :: uint64
  lz_SmallStepChallengeHeight :: uint64

text \<open>
  \<open>mgr_spawned\<close> are the trackers the manager started with \<^verbatim>\<open>go trk.Spawn(ctx)\<close>, in order. Durations are in nanoseconds.
  Whether an RPC client is set and whether the API server runs are flags.
\<close>

record ('w, 'h, 'a) Manager = "('w, 'h, 'a) Watcher" +
  mgr_address :: "'a option"
  mgr_name :: string
  edgeTrackerWakeInterval :: int
  chainWatcherInterval :: int
  trackedEdgeIds :: "('h, bool) gomap"
  batchIndexForAssertionCache :: "('h, 'h AssociatedAssertionMetadata) gomap"
  assertionPostingInterval :: int
  assertionScanningInterval :: int
  assertionConfirmingInterval :: int
  averageTimeForBlockCreation :: int
  mgr_mode :: Mode
  maxDelaySeconds :: int
  challengedAssertions :: "('h, bool) gomap"
  apiAddr :: string
  has_client :: bool
  has_api :: bool
  mgr_spawned :: "'h Tracker list"

record ('w, 'h, 'a, 'x) ManagerEnv =
  wenv :: "('w, 'h, 'a, ('h, 'a, 'x) Manager_ext) WatcherEnv"
  Chain_GetAssertion :: "'h \<Rightarrow> ('w, 'h) op"
  Assertion_PrevId :: "'h \<Rightarrow> ('w, 'h) op"
  Chain_AssertionStatus :: "'h \<Rightarrow> ('w, AssertionStatus) op"
  Manager_LayerZeroHeights :: "('w, LayerZeroHeights) op"
  Manager_CalculateEdgeId :: "ChallengeLevel \<Rightarrow> 'h \<Rightarrow> uint64 \<Rightarrow> 'h \<Rightarrow> uint64 \<Rightarrow> 'h \<Rightarrow> ('w, 'h) op"
  Manager_AddBlockChallengeLevelZeroEdge :: "'h \<Rightarrow> 'h History \<Rightarrow> 'h History \<Rightarrow> uint8 list \<Rightarrow> ('w, 'h Edge) op"

type_synonym ('w, 'h, 'a, 'x, 'b) mop = "(('w, 'h, 'a, 'x) Manager_scheme, 'b) oop"

subsection \<open>Options\<close>

definition WithName :: "string \<Rightarrow> ('w, 'h, 'a, 'x) Manager_scheme \<Rightarrow> ('w, 'h, 'a, 'x) Manager_scheme" where
  "WithName name val = val\<lparr>mgr_name := name\<rparr>"

definition WithAddress :: "'a \<Rightarrow> ('w, 'h, 'a, 'x) Manager_scheme \<Rightarrow> ('w, 'h, 'a, 'x) Manager_scheme" where
  "WithAddress addr val = val\<lparr>mgr_address := Some addr\<rparr>"

definition WithEdgeTrackerWakeInterval :: "int \<Rightarrow> ('w, 'h, 'a, 'x) Manager_scheme \<Rightarrow> ('w, 'h, 'a, 'x) Manager_scheme" where
  "WithEdgeTrackerWakeInterval d val = val\<lparr>edgeTrackerWakeInterval := d\<rparr>"

definition WithAssertionPostingInterval :: "int \<Rightarrow> ('w, 'h, 'a, 'x) Manager_scheme \<Rightarrow> ('w, 'h, 'a, 'x) Manager_scheme" where
  "WithAssertionPostingInterval d val = val\<lparr>assertionPostingInterval := d\<rparr>"

definition WithAssertionScanningInterval :: "int \<Rightarrow> ('w, 'h, 'a, 'x) Manager_scheme \<Rightarrow> ('w, 'h, 'a, 'x) Manager_scheme" where
  "WithAssertionScanningInterval d val = val\<lparr>assertionScanningInterval := d\<rparr>"

definition WithAssertionConfirmingInterval :: "int \<Rightarrow> ('w, 'h, 'a, 'x) Manager_scheme \<Rightarrow> ('w, 'h, 'a, 'x) Manager_scheme" where
  "WithAssertionConfirmingInterval d val = val\<lparr>assertionConfirmingInterval := d\<rparr>"

definition WithMode :: "Mode \<Rightarrow> ('w, 'h, 'a, 'x) Manager_scheme \<Rightarrow> ('w, 'h, 'a, 'x) Manager_scheme" where
  "WithMode m val = val\<lparr>mgr_mode := m\<rparr>"

definition WithAPIEnabled :: "string \<Rightarrow> ('w, 'h, 'a, 'x) Manager_scheme \<Rightarrow> ('w, 'h, 'a, 'x) Manager_scheme" where
  "WithAPIEnabled addr val = val\<lparr>apiAddr := addr\<rparr>"

definition WithRPCClient :: "bool \<Rightarrow> ('w, 'h, 'a, 'x) Manager_scheme \<Rightarrow> ('w, 'h, 'a, 'x) Manager_scheme" where
  "WithRPCClient client val = val\<lparr>has_client := client\<rparr>"

subsection \<open>Tracking edges\<close>

definition mgr_IsTrackingEdge :: "'h \<Rightarrow> ('w, 'h, 'a, 'x) Manager_scheme \<Rightarrow> bool" where
  "mgr_IsTrackingEdge edgeId m = Set_Has (trackedEdgeIds m) edgeId"

definition mgr_MarkTrackedEdge :: "'h \<Rightarrow> ('w, 'h, 'a, 'x) Manager_scheme \<Rightarrow> ('w, 'h, 'a, 'x) Manager_scheme" where
  "mgr_MarkTrackedEdge edgeId m = m\<lparr>trackedEdgeIds := Set_Insert edgeId (trackedEdgeIds m)\<rparr>"

definition assertion_metadata ::
    "('h, 'a) AssertionCreatedInfo \<Rightarrow> ('h, 'a) AssertionCreatedInfo \<Rightarrow> 'h AssociatedAssertionMetadata" where
  "assertion_metadata creationInfo prevCreationInfo =
     \<lparr>Meta_FromBatch = Batch (GoGlobalStateFromSolidity (sol_GlobalState (BeforeState creationInfo))),
      Meta_ToBatch = Batch (GoGlobalStateFromSolidity (sol_GlobalState (AfterState creationInfo))),
      Meta_WasmModuleRoot = WasmModuleRoot prevCreationInfo\<rparr>"

text \<open>The part of \<^verbatim>\<open>getTrackerForEdge\<close> that gets the batches and the module root of the claimed assertion, from the cache when it has them.\<close>

definition cached_metadata :: "('w, 'h, 'a, 'x) ManagerEnv \<Rightarrow> 'h \<Rightarrow> ('w, 'h, 'a, 'x, 'h AssociatedAssertionMetadata) mop" where
  "cached_metadata env claimedAssertionId =
     bindO (ofM (getM (\<lambda>m. Map_TryGet (batchIndexForAssertionCache m) claimedAssertionId))) (\<lambda>cached.
       case cached of
         Some info \<Rightarrow> returnO info
       | None \<Rightarrow>
           bindO (retryW (wenv env) (on_w (Chain_ReadAssertionCreationInfo (wenv env) claimedAssertionId))) (\<lambda>assertionCreationInfo.
           bindO (retryW (wenv env)
             (on_w (Chain_ReadAssertionCreationInfo (wenv env) (ParentAssertionHash assertionCreationInfo)))) (\<lambda>prevCreationInfo.
             let info = assertion_metadata assertionCreationInfo prevCreationInfo in
             bindO (ofM (modifyM (\<lambda>m. m\<lparr>batchIndexForAssertionCache :=
                 Map_Put claimedAssertionId info (batchIndexForAssertionCache m)\<rparr>))) (\<lambda>_.
               returnO info))))"

definition new_tracker ::
    "'h Edge \<Rightarrow> 'h AssociatedAssertionMetadata \<Rightarrow> ('w, 'h, 'a, 'x) Manager_scheme \<Rightarrow> 'h Tracker res" where
  "new_tracker e info m =
     Tracker_New e info [WithActInterval (edgeTrackerWakeInterval m), WithValidatorName (mgr_name m)]"

definition getTrackerForEdge :: "('w, 'h, 'a, 'x) ManagerEnv \<Rightarrow> 'h Edge \<Rightarrow> ('w, 'h, 'a, 'x, 'h Tracker) mop" where
  "getTrackerForEdge env e =
     bindO (retryW (wenv env) (on_w (Edge_AssertionHash (wenv env) (EdgeId e)))) (\<lambda>assertionHash.
     bindO (ofM (\<lambda>m. (watcher_HonestBlockChallengeRootEdge assertionHash m, m))) (\<lambda>blockChallengeRootEdge.
       case ClaimId blockChallengeRootEdge of
         None \<Rightarrow> failO (ErrMsg ''block challenge root edge %#x did not have a claim id for challenged assertion %#x'')
       | Some claimedAssertionId \<Rightarrow>
           bindO (cached_metadata env claimedAssertionId) (\<lambda>info.
             retryW (wenv env) (ofM (\<lambda>m. (new_tracker e info m, m))))))"

definition go_spawn_tracker :: "'h Tracker \<Rightarrow> ('w, 'h, 'a, 'x, unit) mop" where
  "go_spawn_tracker trk = ofM (modifyM (\<lambda>m. m\<lparr>mgr_spawned := mgr_spawned m @ [trk]\<rparr>))"

definition mgr_TrackEdge :: "('w, 'h, 'a, 'x) ManagerEnv \<Rightarrow> 'h Edge \<Rightarrow> ('w, 'h, 'a, 'x, unit) mop" where
  "mgr_TrackEdge env e =
     bindO (ofM (getM (\<lambda>m. Set_Has (trackedEdgeIds m) (EdgeId e)))) (\<lambda>tracked.
       if tracked then returnO ()
       else bindO (getTrackerForEdge env e) go_spawn_tracker)"

text \<open>The interfaces of the watcher when its edge manager is the challenge manager.\<close>

definition manager_env :: "('w, 'h, 'a, 'x) ManagerEnv \<Rightarrow> ('w, 'h, 'a, ('h, 'a, 'x) Manager_ext) WatcherEnv" where
  "manager_env env = (wenv env)\<lparr>TrackEdge := mgr_TrackEdge env\<rparr>"

subsection \<open>Opening a challenge\<close>

definition block_request :: "'h \<Rightarrow> uint64 \<Rightarrow> uint64 \<Rightarrow> uint64 \<Rightarrow> 'h HistoryCommitmentRequest" where
  "block_request wasmModuleRoot fromBatch toBatch upTo =
     \<lparr>Req_WasmModuleRoot = wasmModuleRoot, FromBatch = fromBatch, ToBatch = toBatch, UpperChallengeOriginHeights = [],
      FromHeight = 0, UpToHeight = Some upTo\<rparr>"

text \<open>
  \<^verbatim>\<open>addBlockChallengeLevelZeroEdge\<close>: the new edge and its metadata when there is one, and the flag \<^verbatim>\<open>alreadyExists\<close>. An
  error of \<^verbatim>\<open>GetEdge\<close> is treated as an edge that does not exist.
\<close>

definition addBlockChallengeLevelZeroEdge ::
    "('w, 'h, 'a, 'x) ManagerEnv \<Rightarrow> 'h \<Rightarrow>
     ('w, 'h, 'a, 'x, ('h Edge \<times> 'h AssociatedAssertionMetadata) option \<times> bool) mop" where
  "addBlockChallengeLevelZeroEdge env assertionId =
     bindO (on_w (Chain_ReadAssertionCreationInfo (wenv env) assertionId)) (\<lambda>creationInfo.
     bindO (on_w (Chain_ReadAssertionCreationInfo (wenv env) (ParentAssertionHash creationInfo))) (\<lambda>prevCreationInfo.
       let info = assertion_metadata creationInfo prevCreationInfo;
           req = block_request (Meta_WasmModuleRoot info) (Meta_FromBatch info) (Meta_ToBatch info) in
       bindO (on_w (Provider_HistoryCommitment (wenv env) (req 0))) (\<lambda>startCommit.
       bindO (on_w (Chain_SpecChallengeManager (wenv env))) (\<lambda>_.
       bindO (on_w (Manager_LayerZeroHeights env)) (\<lambda>layerZeroHeights.
         let upTo = lz_BlockChallengeHeight layerZeroHeights in
         bindO (on_w (Provider_HistoryCommitment (wenv env) (req upTo))) (\<lambda>endCommit.
         bindO (on_w (Manager_CalculateEdgeId env NewBlockChallengeLevel (ParentAssertionHash creationInfo)
             (Height startCommit) (Merkle startCommit) (Height endCommit) (Merkle endCommit))) (\<lambda>precomputedEdgeId.
         bindO (tryO (on_w (Manager_GetEdge (wenv env) precomputedEdgeId))) (\<lambda>someLevelZeroEdge.
           case someLevelZeroEdge of
             Inr (Some _) \<Rightarrow> returnO (None, True)
           | _ \<Rightarrow>
               bindO (on_w (Provider_PrefixProof (wenv env) (req upTo) 0)) (\<lambda>startEndPrefixProof.
               bindO (on_w (Manager_AddBlockChallengeLevelZeroEdge env assertionId startCommit endCommit startEndPrefixProof)) (\<lambda>e.
                 returnO (Some (e, info), True)))))))))))"

definition ChallengeAssertion :: "('w, 'h, 'a, 'x) ManagerEnv \<Rightarrow> 'h \<Rightarrow> ('w, 'h, 'a, 'x, unit) mop" where
  "ChallengeAssertion env assertionHash =
     bindO (on_w (Chain_GetAssertion env assertionHash)) (\<lambda>assertion.
     bindO (on_w (Assertion_PrevId env assertion)) (\<lambda>parentAssertionHash.
     bindO (ofM (getM (\<lambda>m. Set_Has (challengedAssertions m) parentAssertionHash))) (\<lambda>challenged.
       if challenged then returnO ()
       else
         bindO (on_w (Chain_AssertionStatus env assertion)) (\<lambda>assertionStatus.
           if assertionStatus = AssertionConfirmed then returnO ()
           else
             bindO (addBlockChallengeLevelZeroEdge env assertion) (\<lambda>(added, alreadyExists).
               if alreadyExists then returnO ()
               else
                 case added of
                   None \<Rightarrow> failO GoPanic
                 | Some (levelZeroEdge, info) \<Rightarrow>
                     bindO (tryO (AddVerifiedHonestEdge (manager_env env) levelZeroEdge)) (\<lambda>_.
                     bindO (ofM (\<lambda>m. (new_tracker levelZeroEdge info m, m))) (\<lambda>tracker.
                     bindO (go_spawn_tracker tracker) (\<lambda>_.
                       ofM (modifyM (\<lambda>m. m\<lparr>challengedAssertions :=
                         Set_Insert parentAssertionHash (challengedAssertions m)\<rparr>))))))))))"

end
