(* ===== verification/Watcher_Scan.thy ===== *)
theory Watcher_Scan
  imports Watcher_Safety
begin

text \<open>
  Completeness of the chain watcher's scans: a range of blocks that was scanned without an error leaves no event of a new edge
  unsettled, and the ranges scanned from the start of the service on follow each other without a gap.
\<close>

subsection \<open>Settled events\<close>

text \<open>
  An event of a new edge is settled when the edge is in the tree of its challenge, was not agreed with, or belongs to a challenge
  that was complete.
\<close>

definition settled :: "('w, 'h, 'a, 'm) WatcherEnv \<Rightarrow> 'h \<Rightarrow> ('w, 'h, 'a, 'm) Watcher_scheme \<Rightarrow> bool" where
  "settled env i s \<longleftrightarrow>
     (\<exists>e a w w'. on_chain env i e \<and> Edge_AssertionHash env (EdgeId e) w = (Inr a, w') \<and>
        (tracked s a (EdgeId e) \<noteq> None \<or> checked env e False \<or>
         (\<exists>v v'. Chain_IsChallengeComplete env a v = (Inr True, v'))))"

text \<open>A range of blocks whose events of new edges are settled, when the iterator reported no error.\<close>

definition range_settled ::
    "('w, 'h, 'a, 'm) WatcherEnv \<Rightarrow> ('w, 'h, 'a, 'm) Watcher_scheme \<Rightarrow> uint64 \<Rightarrow> uint64 \<Rightarrow> bool" where
  "range_settled env s fromBlock toBlock \<longleftrightarrow>
     (\<exists>w evs w'. FilterEdgeAdded env fromBlock toBlock w = (Inr evs, w') \<and>
        (None \<in> set evs \<or> (\<forall>i. Some i \<in> set evs \<longrightarrow> settled env i s)))"

text \<open>The interfaces do not return the sentinel error of the challenge tree.\<close>

definition foreign_errors :: "('w, 'h, 'a, 'm) WatcherEnv \<Rightarrow> bool" where
  "foreign_errors env \<longleftrightarrow>
     (\<forall>w i. TopLevelAssertion (Chain_Reader env w) i \<noteq> Inl ErrAlreadyBeingTracked \<and>
        TopLevelClaimHeights (Chain_Reader env w) i \<noteq> Inl ErrAlreadyBeingTracked \<and>
        ReadAssertionCreationInfo (Chain_Reader env w) i \<noteq> Inl ErrAlreadyBeingTracked) \<and>
     (\<forall>w l req h. Hist_Checker env w l req h \<noteq> Inl ErrAlreadyBeingTracked) \<and>
     (\<forall>i e. on_chain env i e \<longrightarrow> CreatedAtBlock e \<noteq> Inl ErrAlreadyBeingTracked)"

lemma bindR_Inl: "bindR m k = Inl err \<longleftrightarrow> m = Inl err \<or> (\<exists>x. m = Inr x \<and> k x = Inl err)"
  by (cases m) auto

lemma claimed_assertion_error: "claimed_assertion e ht \<noteq> Inl ErrAlreadyBeingTracked"
  by (auto simp: claimed_assertion_def bindR_Inl HonestBlockChallengeRootEdge_def Unwrap_def Slice_Get_def split: option.splits if_splits)

lemma edge_agreement_error:
  assumes "foreign_errors env"
  shows "edge_agreement e (fresh_reads env w ht) \<noteq> Inl ErrAlreadyBeingTracked"
proof -
  have "metadataReader (fresh_reads env w ht) = Chain_Reader env w" "histChecker (fresh_reads env w ht) = Hist_Checker env w"
    by (simp_all add: fresh_reads_def)
  with assms claimed_assertion_error [of e "fresh_reads env w ht"] show ?thesis
    unfolding edge_agreement_def foreign_errors_def
    by (auto simp: bindR_Inl Let_def split: prod.splits if_splits)
qed

lemma AddEdge_already_tracked:
  fixes ht :: "('h, 'a) HonestChallengeTree"
  assumes "foreign_errors env" "on_chain env i e" "AddEdge e (fresh_reads env w ht) = (Inl ErrAlreadyBeingTracked, ht')"
  shows "Map_TryGet (edges ht') (EdgeId e) \<noteq> None"
proof (rule ccontr)
  assume none: "\<not> ?thesis"
  have created: "CreatedAtBlock e \<noteq> Inl ErrAlreadyBeingTracked" using assms(1,2) by (auto simp: foreign_errors_def)
  have fresh: "Map_TryGet (edges (fresh_reads env w ht)) (EdgeId e) = None"
    using none AddEdge_keeps_edges [of "fresh_reads env w ht" "EdgeId e" _ e] assms(3)
    by (cases "Map_TryGet (edges ht) (EdgeId e)") auto
  have top: "TopLevelAssertion (metadataReader (fresh_reads env w ht)) (EdgeId e) \<noteq> Inl ErrAlreadyBeingTracked"
    using assms(1) by (simp add: foreign_errors_def fresh_reads_def)
  have "fst (add_mutual e ht) \<noteq> Inl ErrAlreadyBeingTracked" for ht :: "('h, 'a) HonestChallengeTree"
    using created by (auto simp: add_mutual_def Let_def split: sum.splits)
  then have "add_mutual e ht \<noteq> (Inl ErrAlreadyBeingTracked, ht')" for ht by (metis fst_conv)
  then show False
    using assms(3) fresh top edge_agreement_error [OF assms(1), of e w ht]
    by (auto simp: AddEdge_def Let_def bindM_def returnM_def split: sum.splits if_splits prod.splits)
qed

lemma AddEdge_honest_tracked:
  assumes "AddEdge e ht = (Inr ag, ht')" "IsHonestEdge ag"
  shows "Map_TryGet (edges ht') (EdgeId e) \<noteq> None"
proof -
  from assms have "ht' = snd (add_mutual e (track e ht))"
    by (auto simp: AddEdge_def Let_def bindM_def returnM_def split: sum.splits if_splits prod.splits)
  then show ?thesis by simp
qed

lemma on_tree_result:
  assumes "on_tree env a (ofM f) s = Some (r, s')" "r \<noteq> Inl GoPanic"
  obtains ht ht' where "f (fresh_reads env (wt_world s) ht) = (r, ht')" "\<And>i. tracked s' a i = Map_TryGet (edges ht') i"
  using assms by (auto simp: on_tree_def tracked_def split: option.splits prod.splits)

subsection \<open>Scanning settles\<close>

lemma bindO_then_leads:
  assumes "bindO m k s = Some (Inr y, s')" "\<And>x. leads R (k x)"
  obtains x s1 where "m s = Some (Inr x, s1)" "R\<^sup>*\<^sup>* s1 s'"
  using assms by (meson bindO_Inr_E leadsD)

lemma bindO3_then_leads:
  fixes c :: "'x \<Rightarrow> ('s, unit) oop"
  assumes "bindO m (\<lambda>x. bindO n (\<lambda>_. bindO (c x) (\<lambda>_. k x))) s = Some (Inr y, s')" "\<And>x. leads R (k x)"
  obtains x s1 s2 s3 where "m s = Some (Inr x, s1)" "c x s2 = Some (Inr (), s3)" "R\<^sup>*\<^sup>* s3 s'" "k x s3 = Some (Inr y, s')"
proof -
  from assms(1) obtain x s1 s2 u s3 where "m s = Some (Inr x, s1)" "c x s2 = Some (Inr u, s3)" and k: "k x s3 = Some (Inr y, s')"
    by (elim bindO_Inr_E)
  with leadsD [OF assms(2) k] that show thesis by simp
qed

context edge_manager
begin

lemma AddEdge_settles:
  assumes "foreign_errors env" "on_chain env i e" "watcher_AddEdge env e s = Some (Inr (), s')"
  shows "settled env i s'"
proof -
  from assms(3) [unfolded watcher_AddEdge_def] obtain a s1 c s2 where a: "on_w (Edge_AssertionHash env (EdgeId e)) s = Some (Inr a, s1)"
    and c: "on_w (Chain_IsChallengeComplete env a) s1 = Some (Inr c, s2)"
    and rest: "(if c then returnO () else bindO (ofM (modifyM (ensure_challenge env a))) (\<lambda>_.
         bindO (tryO (on_tree env a (ofM (AddEdge e)))) (\<lambda>result.
           case result of
             Inl err \<Rightarrow> if err \<noteq> ErrAlreadyBeingTracked then failO err else returnO ()
           | Inr agreement \<Rightarrow> if IsHonestEdge agreement then TrackEdge env e else returnO ()))) s2 = Some (Inr (), s')"
    by (elim bindO_Inr_E) blast
  from a obtain w w' where hash: "Edge_AssertionHash env (EdgeId e) w = (Inr a, w')" by (auto dest: on_w_Inr)
  show ?thesis
  proof (cases c)
    case True
    with c obtain v v' where "Chain_IsChallengeComplete env a v = (Inr True, v')" by (auto dest: on_w_Inr)
    with assms(2) hash show ?thesis unfolding settled_def by blast
  next
    case False
    with rest obtain r s3 s4 where tree: "on_tree env a (ofM (AddEdge e)) s3 = Some (r, s4)" "r \<noteq> Inl GoPanic"
      and k: "(case r of Inl err \<Rightarrow> if err \<noteq> ErrAlreadyBeingTracked then failO err else returnO ()
           | Inr agreement \<Rightarrow> if IsHonestEdge agreement then TrackEdge env e else returnO ()) s4 = Some (Inr (), s')"
      by (auto simp: bindO_Some tryO_Some split: if_splits)
    obtain ht ht' where ht: "AddEdge e (fresh_reads env (wt_world s3) ht) = (r, ht')" "\<And>i. tracked s4 a i = Map_TryGet (edges ht') i"
      using on_tree_result [OF tree] by blast
    have "tracked s' a (EdgeId e) \<noteq> None \<or> checked env e False"
    proof (cases r)
      case (Inl err)
      with k have "err = ErrAlreadyBeingTracked" "s' = s4" by (auto split: if_splits)
      with Inl ht AddEdge_already_tracked [OF assms(1,2)] show ?thesis by metis
    next
      case (Inr ag)
      show ?thesis
      proof (cases "IsHonestEdge ag")
        case True
        with k Inr have "challenges s' = challenges s4" by (auto dest: TrackEdge_challenges)
        with Inr True ht AddEdge_honest_tracked show ?thesis by (metis tracked_def)
      next
        case False
        with AddEdge_Inr_checked tree(1) Inr show ?thesis by fastforce
      qed
    qed
    with assms(2) hash show ?thesis unfolding settled_def by blast
  qed
qed

lemma processEdgeAdded_settles:
  assumes "foreign_errors env" "processEdgeAddedEvent env i s = Some (Inr (), s')"
  shows "settled env i s'"
proof -
  from assms(2) obtain e s1 where "edge_by_id (ErrMsg ''no edge found with id %#x'') env i s = Some (Inr e, s1)"
    "watcher_AddEdge env e s1 = Some (Inr (), s')"
    by (auto simp: processEdgeAddedEvent_def bindO_Some)
  with assms(1) show ?thesis by (blast intro: AddEdge_settles edge_by_id_Inr)
qed

lemma settled_mono:
  assumes "watches env own s s'" "settled env i s"
  shows "settled env i s'"
  using assms(2) watches_tracked [OF assms(1)] unfolding settled_def by (metis not_None_eq)

lemma added_events_settled:
  assumes "foreign_errors env" "events_loop (\<lambda>i. retryW env (processEdgeAddedEvent env i)) evs s = Some (Inr (), s')"
    "None \<notin> set evs" "Some i \<in> set evs"
  shows "settled env i s'"
  using assms(2-4)
proof (induction evs arbitrary: s)
  case (Cons x evs)
  then obtain j s1 where x: "x = Some j" and s1: "retryW env (processEdgeAddedEvent env j) s = Some (Inr (), s1)"
    "events_loop (\<lambda>i. retryW env (processEdgeAddedEvent env i)) evs s1 = Some (Inr (), s')"
    by (cases x) (auto simp: bindO_Some)
  show ?case
  proof (cases "Some i \<in> set evs")
    case False
    with x Cons.prems have "i = j" by simp
    from s1(1) obtain s0 where "processEdgeAddedEvent env j s0 = Some (Inr (), s1)"
      unfolding retryW_def by (blast dest: retry_Inr)
    with assms(1) \<open>i = j\<close> have "settled env i s1" by (simp add: processEdgeAdded_settles)
    moreover have "watches env {} s1 s'"
      using s1(2) by (rule leadsD [OF leads_events_loop [OF leads_retryW [OF leads_processEdgeAdded]]])
    ultimately show ?thesis using settled_mono by blast
  qed (use Cons s1(2) in auto)
qed simp

lemma checkForEdgeAdded_settles:
  assumes "foreign_errors env" "checkForEdgeAdded env fr to s = Some (Inr (), s')"
  shows "range_settled env s' fr to"
proof -
  from assms(2) obtain evs s1 where "on_w (FilterEdgeAdded env fr to) s = Some (Inr evs, s1)"
    "events_loop (\<lambda>i. retryW env (processEdgeAddedEvent env i)) evs s1 = Some (Inr (), s')"
    by (auto simp: checkForEdgeAdded_def bindO_Some)
  with added_events_settled [OF assms(1)] show ?thesis unfolding range_settled_def by (blast dest: on_w_Inr)
qed

lemma range_settled_mono: "watches env own s s' \<Longrightarrow> range_settled env s fr to \<Longrightarrow> range_settled env s' fr to"
  unfolding range_settled_def using settled_mono by blast

lemma settles_later:
  "checkForEdgeAdded env fr to s = Some (Inr (), s1) \<Longrightarrow> watches env {} s1 s' \<Longrightarrow> foreign_errors env \<Longrightarrow> range_settled env s' fr to"
  by (rule range_settled_mono [OF _ checkForEdgeAdded_settles])

lemma poll_tick_settles:
  assumes "foreign_errors env" "poll_tick env fr s = Some (Inr (Some to), s')"
  shows "to = fr \<or> range_settled env s' fr to"
proof -
  from assms(2) [unfolded poll_tick_def Let_def] obtain h s1 where
    "tryO (on_w (HeaderByNumber env)) s = Some (Inr h, s1)" and h: "(case h of
         Inl _ \<Rightarrow> returnO (Some fr)
       | Inr number \<Rightarrow>
           if \<not> IsUint64 number then returnO (Some fr)
           else if fr = of_int number then returnO (Some fr)
           else
               bindO (tryO (get_filterer env)) (\<lambda>filterer.
                 case filterer of
                   Inl _ \<Rightarrow> returnO None
                 | Inr _ \<Rightarrow>
                     bindO (tryO (scan_range env fr (of_int number))) (\<lambda>scanned.
                       returnO (Some (case scanned of Inl _ \<Rightarrow> fr | Inr _ \<Rightarrow> of_int number))))) s1 = Some (Inr (Some to), s')"
    by (elim bindO_Inr_E) blast
  have "to = fr \<or> (\<exists>s1. scan_range env fr to s1 = Some (Inr (), s'))"
  proof (cases h)
    case (Inr number)
    show ?thesis
    proof (cases "IsUint64 number \<and> fr \<noteq> of_int number")
      case True
      with h Inr obtain f s2 where "tryO (get_filterer env) s1 = Some (Inr f, s2)" and f: "(case f of Inl _ \<Rightarrow> returnO None | Inr _ \<Rightarrow>
          bindO (tryO (scan_range env fr (of_int number))) (\<lambda>scanned.
            returnO (Some (case scanned of Inl _ \<Rightarrow> fr | Inr _ \<Rightarrow> of_int number)))) s2 = Some (Inr (Some to), s')"
        by (auto elim!: bindO_Inr_E)
      from f obtain scanned where "tryO (scan_range env fr (of_int number)) s2 = Some (Inr scanned, s')"
        "to = (case scanned of Inl _ \<Rightarrow> fr | Inr _ \<Rightarrow> of_int number)"
        by (cases f) (auto elim!: bindO_Inr_E)
      then show ?thesis by (cases scanned) (auto dest!: tryO_Inr)
    next
      case False
      with h Inr show ?thesis by (simp split: if_splits)
    qed
  qed (use h in simp)
  then consider "to = fr" | s1 where "scan_range env fr to s1 = Some (Inr (), s')" by blast
  then show ?thesis
  proof cases
    case 2
    obtain u s2 where "checkForEdgeAdded env fr to s1 = Some (Inr u, s2)" "watches env {} s2 s'"
      by (rule bindO_then_leads [OF 2 [unfolded scan_range_def], of "watch_step env {}"]) (intro leads_bindO leads_checks)
    then show ?thesis using settles_later [OF _ _ assms(1), of fr to s1 s2 s'] by simp
  qed simp
qed

lemma poll_loop_settles:
  assumes "foreign_errors env" "poll_loop env ws fr s = Some (Watching to, s')"
  shows "(range_settled env s')\<^sup>*\<^sup>* fr to"
  using assms(2)
proof (induction ws arbitrary: fr s)
  case (Cons x ws)
  show ?case
  proof (cases x)
    case Tick
    with Cons.prems obtain fr' s1 where tick: "poll_tick env fr s = Some (Inr (Some fr'), s1)"
      and rest: "poll_loop env ws fr' s1 = Some (Watching to, s')"
      by (auto split: option.splits sum.splits)
    have "fr' = fr \<or> range_settled env s1 fr fr'" using assms(1) tick by (rule poll_tick_settles)
    moreover have "watches env {} s1 s'" using rest by (rule poll_loop_watches)
    ultimately have "(range_settled env s')\<^sup>*\<^sup>* fr fr'" using range_settled_mono by blast
    with Cons.IH [OF rest] show ?thesis by simp
  qed (use Cons.prems in simp)
qed simp

lemma initial_sync_settles:
  assumes "foreign_errors env" "initial_sync env s = Some (Inr to, s')"
  shows "\<exists>a fr w w' v v'. Chain_LatestConfirmed env w = (Inr a, w') \<and> Assertion_CreatedAtBlock env a v = (Inr fr, v') \<and>
    range_settled env s' fr to"
proof -
  obtain range s1 s2 s3 where range: "retryW env (getStartEndBlockNum env) s = Some (Inr range, s1)"
    and added: "retryW env (checkForEdgeAdded env (startBlockNum range) (endBlockNum range)) s2 = Some (Inr (), s3)"
    and rest: "watches env {} s3 s'" and to: "to = endBlockNum range"
    using assms(2) unfolding initial_sync_def Let_def
    by (rule bindO3_then_leads [where R = "watch_step env {}"])
      (intro leads_bindO leads_retryW leads_checks leads_synced leads_simple, elim bindO_Inr_E, simp)
  from range obtain s0 where "getStartEndBlockNum env s0 = Some (Inr range, s1)"
    unfolding retryW_def by (blast dest: retry_Inr)
  then obtain a w w' v v' where start: "Chain_LatestConfirmed env w = (Inr a, w')"
    "Assertion_CreatedAtBlock env a v = (Inr (startBlockNum range), v')"
    by (auto simp: getStartEndBlockNum_def elim!: bindO_Inr_E dest!: on_w_Inr split: if_splits)
  from added obtain s4 where "checkForEdgeAdded env (startBlockNum range) (endBlockNum range) s4 = Some (Inr (), s3)"
    unfolding retryW_def by (blast dest: retry_Inr)
  then have "range_settled env s' (startBlockNum range) to" unfolding to using rest assms(1) by (rule settles_later)
  with start show ?thesis by blast
qed

end

end
