(* ===== verification/Manager_Safety.thy ===== *)
theory Manager_Safety
  imports Challenge_Manager Watcher_Scan
begin

text \<open>
  What the challenge manager guarantees together with its watcher: the trackers it starts belong to edges the history checker
  agreed with and carry the batches of an assertion the chain knows, its watcher's scans leave no gap, and opening a
  challenge changes nothing but the chain.
\<close>

subsection \<open>Steps of the manager\<close>

lemma manager_env_fields [simp]:
  "checked (manager_env env) = checked (wenv env)" "on_chain (manager_env env) = on_chain (wenv env)"
  "confirmation_seen (manager_env env) = confirmation_seen (wenv env)" "TrackEdge (manager_env env) = mgr_TrackEdge env"
  "honest_challenge (manager_env env) = honest_challenge (wenv env)" "chain_view (manager_env env) = chain_view (wenv env)"
  "foreign_errors (manager_env env) = foreign_errors (wenv env)"
  by (simp_all add: fun_eq_iff manager_env_def checked_def on_chain_def confirmation_seen_def honest_challenge_def chain_view_def
      foreign_errors_def)

text \<open>The creation of an assertion and of its parent were read from the chain.\<close>

definition metadata_read :: "('w, 'h, 'a, 'x) ManagerEnv \<Rightarrow> 'h \<Rightarrow> 'h AssociatedAssertionMetadata \<Rightarrow> bool" where
  "metadata_read env c info \<longleftrightarrow>
     (\<exists>ci pi w w' v v'. Chain_ReadAssertionCreationInfo (wenv env) c w = (Inr ci, w') \<and>
        Chain_ReadAssertionCreationInfo (wenv env) (ParentAssertionHash ci) v = (Inr pi, v') \<and> info = assertion_metadata ci pi)"

definition cache_ok :: "('w, 'h, 'a, 'x) ManagerEnv \<Rightarrow> ('w, 'h, 'a, 'x) Manager_scheme \<Rightarrow> bool" where
  "cache_ok env m \<longleftrightarrow> (\<forall>c info. Map_TryGet (batchIndexForAssertionCache m) c = Some info \<longrightarrow> metadata_read env c info)"

text \<open>The parts of the manager that starting a tracker leaves as they are.\<close>

definition quiet :: "('w, 'h, 'a, 'x) Manager_scheme \<Rightarrow> ('w, 'h, 'a, 'x) Manager_scheme \<Rightarrow> bool" where
  "quiet m m' \<longleftrightarrow>
     challenges m' = challenges m \<and> mgr_spawned m' = mgr_spawned m \<and> mgr_name m' = mgr_name m \<and>
     edgeTrackerWakeInterval m' = edgeTrackerWakeInterval m"

definition quiet_step ::
    "('w, 'h, 'a, 'x) ManagerEnv \<Rightarrow> ('w, 'h, 'a, 'x) Manager_scheme \<Rightarrow> ('w, 'h, 'a, 'x) Manager_scheme \<Rightarrow> bool" where
  "quiet_step env m m' \<longleftrightarrow> quiet m m' \<and> (cache_ok env m \<longrightarrow> cache_ok env m')"

lemma quiet_steps: "(quiet_step env)\<^sup>*\<^sup>* m m' \<Longrightarrow> quiet_step env m m'"
  by (induction rule: rtranclp_induct) (auto simp: quiet_step_def quiet_def)

lemma quiet_world: "quiet_step env m (m\<lparr>wt_world := w\<rparr>)"
  by (simp add: quiet_step_def quiet_def cache_ok_def)

lemma leads_quiet_on_w: "leads (quiet_step env) (on_w f)"
  by (rule leads_step) (auto simp: on_w_def intro: quiet_world split: prod.splits)

lemma leads_quiet_retryW: "leads (quiet_step env) fn \<Longrightarrow> leads (quiet_step env) (retryW we fn)"
  unfolding retryW_def by (rule leads_retry) (auto intro: quiet_world)

lemma retryW_on_w_Inr: "retryW we (on_w f) s = Some (Inr x, s') \<Longrightarrow> \<exists>w w'. f w = (Inr x, w')"
  unfolding retryW_def by (blast dest: retry_Inr on_w_Inr)

lemma leads_cache_put:
  assumes "metadata_read env c info"
  shows "leads (quiet_step env) (ofM (modifyM (\<lambda>m. m\<lparr>batchIndexForAssertionCache :=
    Map_Put c info (batchIndexForAssertionCache m)\<rparr>)))"
  using assms by (intro leads_modify r_into_rtranclp) (auto simp: quiet_step_def quiet_def cache_ok_def)

lemma leads_cached_metadata: "leads (quiet_step env) (cached_metadata env c)"
  unfolding cached_metadata_def Let_def
  by (auto intro!: leads_simple leads_bindO leads_quiet_retryW leads_quiet_on_w leads_cache_put dest!: retryW_on_w_Inr
      simp: metadata_read_def split: option.splits) blast+

lemma cached_metadata_Inr:
  assumes "cached_metadata env c m = Some (Inr info, m')" "cache_ok env m"
  shows "metadata_read env c info"
  using assms unfolding cached_metadata_def Let_def
  by (auto elim!: bindO_Inr_E dest!: retryW_on_w_Inr simp: getM_def modifyM_def cache_ok_def metadata_read_def split: option.splits) blast+

lemma leads_new_tracker: "leads (quiet_step env) (ofM (\<lambda>m. (f m, m)))"
  by (auto simp: leads_def)

lemma leads_getTrackerForEdge: "leads (quiet_step env) (getTrackerForEdge env e)"
  unfolding getTrackerForEdge_def
  by (auto intro!: leads_simple leads_bindO leads_quiet_retryW leads_quiet_on_w leads_new_tracker leads_cached_metadata split: option.splits)

text \<open>What a new tracker of the manager is: freshly started on the edge, with metadata that were read from the chain.\<close>

definition started_for :: "('w, 'h, 'a, 'x) ManagerEnv \<Rightarrow> 'h Edge \<Rightarrow> 'h Tracker \<Rightarrow> bool" where
  "started_for env e trk \<longleftrightarrow>
     edge trk = e \<and> tracker_ok trk \<and> State (curr (fsm trk)) = EdgeStarted \<and> actInterval trk \<noteq> 0 \<and>
     (\<exists>c. metadata_read env c (associatedAssertionMetadata trk))"

lemma new_tracker_Inr:
  assumes "new_tracker e info m = Inr trk"
  shows "edge trk = e" "tracker_ok trk" "State (curr (fsm trk)) = EdgeStarted" "associatedAssertionMetadata trk = info"
    "actInterval trk = edgeTrackerWakeInterval m" "edgeTrackerWakeInterval m \<noteq> 0"
proof -
  show fields: "edge trk = e" "associatedAssertionMetadata trk = info" "actInterval trk = edgeTrackerWakeInterval m"
    "edgeTrackerWakeInterval m \<noteq> 0"
    using assms by (auto simp: new_tracker_def Tracker_New_def WithActInterval_def WithValidatorName_def Let_def bindR_eq_Inr split: if_splits)
  have "fsmOpts trk = []"
    using assms by (auto simp: new_tracker_def Tracker_New_def WithActInterval_def WithValidatorName_def Let_def bindR_eq_Inr split: if_splits)
  then show "tracker_ok trk" "State (curr (fsm trk)) = EdgeStarted"
    using Tracker_New_ok [OF assms [unfolded new_tracker_def]] by (simp_all add: keeps_state_def)
qed

lemma getTrackerForEdge_Inr:
  assumes "getTrackerForEdge env e m = Some (Inr trk, m')"
  shows "quiet_step env m m'" "edgeTrackerWakeInterval m \<noteq> 0" "cache_ok env m \<Longrightarrow> started_for env e trk"
proof -
  show "quiet_step env m m'" using leadsD [OF leads_getTrackerForEdge assms] by (rule quiet_steps)
  obtain a m1 root m2 where hash: "retryW (wenv env) (on_w (Edge_AssertionHash (wenv env) (EdgeId e))) m = Some (Inr a, m1)"
    and root: "ofM (\<lambda>m. (watcher_HonestBlockChallengeRootEdge a m, m)) m1 = Some (Inr root, m2)"
    and k: "(case ClaimId root of
         None \<Rightarrow> failO (ErrMsg ''block challenge root edge %#x did not have a claim id for challenged assertion %#x'')
       | Some claimedAssertionId \<Rightarrow>
           bindO (cached_metadata env claimedAssertionId) (\<lambda>info.
             retryW (wenv env) (ofM (\<lambda>m. (new_tracker e info m, m))))) m2 = Some (Inr trk, m')"
    using assms [unfolded getTrackerForEdge_def] by (elim bindO_Inr_E)
  then obtain c info m3 where info: "cached_metadata env c m2 = Some (Inr info, m3)"
    and trk: "retryW (wenv env) (ofM (\<lambda>m. (new_tracker e info m, m))) m3 = Some (Inr trk, m')"
    by (auto elim!: bindO_Inr_E split: option.splits)
  from trk have new: "new_tracker e info m' = Inr trk"
    unfolding retryW_def by (auto dest!: retry_Inr)
  have quiet: "quiet_step env m m1" "quiet_step env m2 m3" "quiet_step env m3 m'"
    using quiet_steps [OF leadsD [OF leads_quiet_retryW [OF leads_quiet_on_w] hash]] quiet_steps [OF leadsD [OF leads_cached_metadata info]]
      quiet_steps [OF leadsD [OF leads_quiet_retryW [OF leads_new_tracker] trk]] by blast+
  have m2: "m2 = m1" using root by auto
  show "edgeTrackerWakeInterval m \<noteq> 0" using new_tracker_Inr(6) [OF new] quiet m2 by (simp add: quiet_step_def quiet_def)
  assume "cache_ok env m"
  then have "metadata_read env c info" using cached_metadata_Inr [OF info] quiet m2 by (simp add: quiet_step_def)
  then show "started_for env e trk"
    unfolding started_for_def using new_tracker_Inr [OF new] by metis
qed

text \<open>Starting a tracker appends one to the list, or nothing.\<close>

lemma mgr_TrackEdge_cases:
  assumes "mgr_TrackEdge env e m = Some (r, m')"
  obtains (quiet) "quiet_step env m m'" "r = Inr () \<Longrightarrow> Set_Has (trackedEdgeIds m) (EdgeId e)"
  | (starts) m1 trk where "getTrackerForEdge env e m = Some (Inr trk, m1)" "m' = m1\<lparr>mgr_spawned := mgr_spawned m1 @ [trk]\<rparr>"
proof -
  have "quiet_step env m m" by (rule quiet_steps) simp
  moreover have "getTrackerForEdge env e m = Some (r', m1) \<Longrightarrow> quiet_step env m m1" for r' m1
    using leadsD [OF leads_getTrackerForEdge] by (rule quiet_steps)
  ultimately show thesis
    using assms that by (auto simp: mgr_TrackEdge_def go_spawn_tracker_def bindO_Some getM_def modifyM_def split: if_splits)
qed

lemma mgr_TrackEdge_challenges: "mgr_TrackEdge env e m = Some (r, m') \<Longrightarrow> challenges m' = challenges m"
  by (erule mgr_TrackEdge_cases) (auto dest!: getTrackerForEdge_Inr(1) simp: quiet_step_def quiet_def)

text \<open>The challenge manager keeps the contract of the watcher's edge manager.\<close>

interpretation mgr: edge_manager "manager_env env" for env :: "('w, 'h, 'a, 'x) ManagerEnv"
  by unfold_locales (simp add: mgr_TrackEdge_challenges)

text \<open>Opening a challenge only changes the world.\<close>

lemma addBlock_already_exists: "addBlockChallengeLevelZeroEdge env h m = Some (Inr (added, b), m') \<Longrightarrow> b"
  unfolding addBlockChallengeLevelZeroEdge_def Let_def
  by (auto elim!: bindO_Inr_E split: sum.splits option.splits)

definition world_step :: "('w, 'h, 'a, 'm) Watcher_scheme \<Rightarrow> ('w, 'h, 'a, 'm) Watcher_scheme \<Rightarrow> bool" where
  "world_step s s' \<longleftrightarrow> (\<exists>w. s' = s\<lparr>wt_world := w\<rparr>)"

lemma world_steps: "world_step\<^sup>*\<^sup>* s s' \<Longrightarrow> world_step s s'"
proof (induction rule: rtranclp_induct)
  case base
  show ?case unfolding world_step_def by (intro exI [of _ "wt_world s"]) simp
qed (auto simp: world_step_def)

lemma leads_world_on_w: "leads world_step (on_w f)"
  by (rule leads_step) (auto simp: on_w_def world_step_def split: prod.splits)

lemma leads_world_addBlock: "leads world_step (addBlockChallengeLevelZeroEdge env h)"
  unfolding addBlockChallengeLevelZeroEdge_def Let_def
  by (intro leads_bindO leads_world_on_w leads_tryO)
    (auto intro!: leads_bindO leads_world_on_w leads_simple split: sum.splits option.splits)

lemma leads_world_ChallengeAssertion: "leads world_step (ChallengeAssertion env h)"
  unfolding ChallengeAssertion_def
  by (intro leads_bindO leads_world_on_w leads_simple)
    (auto intro!: leads_bindO leads_world_on_w leads_simple leads_world_addBlock dest!: addBlock_already_exists)

subsection \<open>Reachable states\<close>

text \<open>
  The manager starts with nothing tracked; then its watcher works, trackers mark their edges, and challenges are opened. \<open>own\<close>
  are the edges the validator made itself.
\<close>

inductive mgr_reach ::
    "('w, 'h, 'a, 'x) ManagerEnv \<Rightarrow> 'h Edge set \<Rightarrow> ('w, 'h, 'a, 'x) Manager_scheme \<Rightarrow> bool" for env own where
  start: "challenges m = NewMap \<Longrightarrow> batchIndexForAssertionCache m = NewMap \<Longrightarrow> mgr_spawned m = [] \<Longrightarrow> mgr_reach env own m"
| by_watcher: "mgr_reach env own m \<Longrightarrow> watch_step (manager_env env) own m m' \<Longrightarrow> mgr_reach env own m'"
| by_tracker: "mgr_reach env own m \<Longrightarrow> mgr_reach env own (mgr_MarkTrackedEdge i m)"
| by_challenge: "mgr_reach env own m \<Longrightarrow> ChallengeAssertion env h m = Some (r, m') \<Longrightarrow> mgr_reach env own m'"

definition mgr_ok :: "('w, 'h, 'a, 'x) ManagerEnv \<Rightarrow> 'h Edge set \<Rightarrow> ('w, 'h, 'a, 'x) Manager_scheme \<Rightarrow> bool" where
  "mgr_ok env own m \<longleftrightarrow>
     all_challenges (honest_challenge (wenv env) own) m \<and> cache_ok env m \<and>
     (\<forall>trk\<in>set (mgr_spawned m). agreed (wenv env) (edge trk) \<and> started_for env (edge trk) trk)"

lemma watch_step_manager:
  assumes "watch_step (manager_env env) own m m'"
  obtains (other) "mgr_spawned m' = mgr_spawned m" "batchIndexForAssertionCache m' = batchIndexForAssertionCache m"
  | (track) e r where "agreed (wenv env) e" "mgr_TrackEdge env e m = Some (r, m')"
  using assms
proof cases
  case (step_track i e r)
  then show ?thesis using track by simp
qed (auto simp: on_tree_def ensure_challenge_def put_claim_def Let_def split: option.splits prod.splits intro!: other)

lemma mgr_reach_ok: "mgr_reach env own m \<Longrightarrow> mgr_ok env own m"
proof (induction rule: mgr_reach.induct)
  case (start m)
  then show ?case by (simp add: mgr_ok_def all_challenges_def cache_ok_def NewMap_def Map_TryGet_def)
next
  case (by_watcher m m')
  then have ch: "all_challenges (honest_challenge (wenv env) own) m'"
    using mgr.watch_step_honest [OF by_watcher(2)] by (simp add: mgr_ok_def)
  from by_watcher(2) show ?case
  proof (cases rule: watch_step_manager)
    case other
    with by_watcher.IH ch show ?thesis by (simp add: mgr_ok_def cache_ok_def)
  next
    case (track e r)
    from track(2) show ?thesis
    proof (cases rule: mgr_TrackEdge_cases)
      case quiet
      with by_watcher.IH ch show ?thesis by (simp add: mgr_ok_def quiet_step_def quiet_def)
    next
      case (starts m1 trk)
      have cache: "cache_ok env m" using by_watcher.IH by (simp add: mgr_ok_def)
      have "started_for env e trk" "quiet_step env m m1" using getTrackerForEdge_Inr [OF starts(1)] cache by auto
      then have "edge trk = e" "started_for env e trk" "quiet_step env m m1" by (auto simp: started_for_def)
      with by_watcher.IH ch starts(2) track(1) show ?thesis by (auto simp: mgr_ok_def quiet_step_def quiet_def cache_ok_def)
    qed
  qed
next
  case (by_tracker m i)
  then show ?case by (simp add: mgr_ok_def mgr_MarkTrackedEdge_def all_challenges_def cache_ok_def)
next
  case (by_challenge m h r m')
  from world_steps [OF leadsD [OF leads_world_ChallengeAssertion by_challenge(2)]] obtain w where "m' = m\<lparr>wt_world := w\<rparr>"
    by (auto simp: world_step_def)
  with by_challenge.IH show ?case by (simp add: mgr_ok_def all_challenges_def cache_ok_def)
qed

subsection \<open>Properties\<close>



text \<open>
  C33. The watcher misses no edge: as long as it runs, the ranges of blocks it has scanned join the block at which the latest
  confirmed assertion was created to the block its next scan starts from, and every event of a new edge in such a range is
  settled: the edge is in the tree of its challenge, or the history checker rejected it, or its challenge was complete. Only a
  range whose event iterator reported an error is excepted.
\<close>

theorem scans_leave_no_gap:
  assumes "watcher_Start (manager_env env) ws m = Some (Watching to, m')" "foreign_errors (wenv env)"
  shows "\<exists>a fr w w' v v'. Chain_LatestConfirmed (wenv env) w = (Inr a, w') \<and> Assertion_CreatedAtBlock (wenv env) a v = (Inr fr, v') \<and>
    (range_settled (manager_env env) m')\<^sup>*\<^sup>* fr to"
proof -
  have fe: "foreign_errors (manager_env env)" using assms(2) by simp
  from assms(1) obtain t m1 where sync: "initial_sync (manager_env env) m = Some (Inr t, m1)"
    and poll: "poll_loop (manager_env env) ws t m1 = Some (Watching to, m')"
    by (auto simp: watcher_Start_def split: option.splits sum.splits if_splits)
  obtain a fr w w' v v' where start: "Chain_LatestConfirmed (manager_env env) w = (Inr a, w')"
    "Assertion_CreatedAtBlock (manager_env env) a v = (Inr fr, v')" "range_settled (manager_env env) m1 fr t"
    using mgr.initial_sync_settles [OF fe sync] by blast
  have "range_settled (manager_env env) m' fr t"
    by (rule mgr.range_settled_mono [OF poll_loop_watches [OF poll] start(3)])
  with mgr.poll_loop_settles [OF fe poll] have "(range_settled (manager_env env) m')\<^sup>*\<^sup>* fr to"
    by (meson converse_rtranclp_into_rtranclp)
  with start show ?thesis unfolding manager_env_def by auto
qed


text \<open>
  With a wake-up interval of zero, which the constructor's random choice may give, no new edge is ever tracked:
  \<^verbatim>\<open>TrackEdge\<close> does not succeed for an edge that is not tracked yet.
\<close>

theorem zero_interval_tracks_nothing:
  assumes "edgeTrackerWakeInterval m = 0" "\<not> mgr_IsTrackingEdge (EdgeId e) m"
  shows "mgr_TrackEdge env e m \<noteq> Some (Inr (), m')"
proof
  assume "mgr_TrackEdge env e m = Some (Inr (), m')"
  then show False
    by (cases rule: mgr_TrackEdge_cases) (use assms in \<open>auto simp: mgr_IsTrackingEdge_def dest: getTrackerForEdge_Inr(2)\<close>)
qed

subsection \<open>An example\<close>

text \<open>
  A chain with the honest root edge 9 of the challenge on assertion 99, which claims assertion 100; its creation and its
  confirmation are events between the blocks 5 and 10.
\<close>

definition demo_wenv :: "(bool, nat, unit, (nat, unit, unit) Manager_ext) WatcherEnv" where
  "demo_wenv =
     Environment.extend (ex_env\<lparr>Edge_AssertionHash := (\<lambda>_. returnM 99), Manager_GetEdge := (\<lambda>i. returnM (Some (ex_chain i))),
         Chain_ReadAssertionCreationInfo := (\<lambda>_. returnM ex_info)\<rparr>)
       (WatcherEnv.fields (\<lambda>_. ex_reader) (\<lambda>_ _ _ commit. Inr (MerkleRoot commit = 0 \<or> MerkleRoot commit = 7))
         (\<lambda>_. ex_children) (\<lambda>_. returnM False) (\<lambda>_ _. returnM ()) (returnM 98) (\<lambda>_. returnM 5) (returnM 10) (returnM ())
         (\<lambda>_ _. returnM [Some 9]) (\<lambda>_ _. returnM []) (\<lambda>_ _. returnM [Some 9]) (\<lambda>_ _. returnM []) (\<lambda>_ _. returnM [])
         (\<lambda>_. None) (\<lambda>_ _ _. None) (\<lambda>_ w. w) (\<lambda>_ s. Some (Inr (), s)))"

definition demo_env :: "(bool, nat, unit, unit) ManagerEnv" where
  "demo_env =
     \<lparr>wenv = demo_wenv, Chain_GetAssertion = returnM, Assertion_PrevId = (\<lambda>_. returnM 99),
      Chain_AssertionStatus = (\<lambda>_. returnM AssertionPending),
      Manager_LayerZeroHeights =
        returnM \<lparr>lz_BlockChallengeHeight = 4, lz_BigStepChallengeHeight = 4, lz_SmallStepChallengeHeight = 4\<rparr>,
      Manager_CalculateEdgeId = (\<lambda>_ _ _ _ _ _. returnM 9),
      Manager_AddBlockChallengeLevelZeroEdge = (\<lambda>_ _ _ _. returnM (ex_chain 9))\<rparr>"

definition demo_manager :: "int \<Rightarrow> (bool, nat, unit) Manager" where
  "demo_manager interval =
     \<lparr>wt_world = False, pollEventsInterval = 1, challenges = NewMap, wt_validatorName = ''alice'', numBigStepLevels = 0,
      initialSyncCompleted = False, mgr_address = None, mgr_name = ''alice'', edgeTrackerWakeInterval = interval,
      chainWatcherInterval = 1, trackedEdgeIds = NewSet, batchIndexForAssertionCache = NewMap, assertionPostingInterval = 1,
      assertionScanningInterval = 1, assertionConfirmingInterval = 1, averageTimeForBlockCreation = 1, mgr_mode = MakeMode,
      maxDelaySeconds = 0, challengedAssertions = NewSet, apiAddr = [], has_client = False, has_api = False, mgr_spawned = []\<rparr>"

definition demo_run :: "(watching \<times> (bool, nat, unit) Manager) option" where
  "demo_run = watcher_Start (manager_env demo_env) [Tick] (demo_manager 1)"

lemma demo_run_result:
  "case demo_run of None \<Rightarrow> False
   | Some (out, m) \<Rightarrow> out = Watching 10 \<and> length (mgr_spawned m) = 1 \<and> ConfirmedEdgeWithClaimExists 99 100 m = Some 9"
  by code_simp

lemma demo_outcome:
  obtains m where "watcher_Start (manager_env demo_env) [Tick] (demo_manager 1) = Some (Watching 10, m)"
    "length (mgr_spawned m) = 1" "ConfirmedEdgeWithClaimExists 99 100 m = Some 9"
  using demo_run_result that unfolding demo_run_def by (auto split: option.splits)

lemma mgr_reach_watches: "watches (manager_env env) own m m' \<Longrightarrow> mgr_reach env own m \<Longrightarrow> mgr_reach env own m'"
  by (induction rule: rtranclp_induct) (auto intro: by_watcher)

lemma demo_start: "mgr_reach env {} (demo_manager interval)"
  by (rule start) (simp_all add: demo_manager_def)



lemma demo_foreign_errors: "foreign_errors (wenv demo_env)"
  by (auto simp: foreign_errors_def on_chain_def demo_env_def demo_wenv_def ex_reader_def ex_chain_def ex_edge_def
      Environment.defs WatcherEnv.defs returnM_def ex_env_def)

theorem scans_leave_no_gap_witness:
  "\<exists>m a fr w w' v v'. watcher_Start (manager_env demo_env) [Tick] (demo_manager 1) = Some (Watching 10, m) \<and>
     Chain_LatestConfirmed (wenv demo_env) w = (Inr a, w') \<and> Assertion_CreatedAtBlock (wenv demo_env) a v = (Inr fr, v') \<and>
     (range_settled (manager_env demo_env) m)\<^sup>*\<^sup>* fr 10"
proof -
  obtain m where m: "watcher_Start (manager_env demo_env) [Tick] (demo_manager 1) = Some (Watching 10, m)" by (rule demo_outcome)
  with scans_leave_no_gap [OF m demo_foreign_errors] show ?thesis by blast
qed


theorem zero_interval_tracks_nothing_witness:
  "mgr_TrackEdge demo_env (ex_chain 9) (demo_manager 0) \<noteq> Some (Inr (), demo_manager 0)"
  by (rule zero_interval_tracks_nothing) (simp_all add: demo_manager_def mgr_IsTrackingEdge_def Set_Has_def NewSet_def)

end
