(* ===== verification/Assertion_Manager.thy ===== *)
theory Assertion_Manager
  imports Retry Challenge_Manager
begin

text \<open>
  The package \<^verbatim>\<open>assertions\<close> (\<^verbatim>\<open>scanner.go\<close> and \<^verbatim>\<open>poster.go\<close>): the service that posts assertions, checks the assertions others
  post, and answers a wrong one with a rival and a challenge. The chain, the state provider and the challenge manager are
  interfaces on a world \<open>'w\<close>. Goroutines are tasks of the manager; logging is left out.
\<close>

subsection \<open>State and interfaces\<close>

datatype 'h am_task = PostAssertions | KeepConfirming 'h | ProcessCreation 'h

record ('w, 'h) AssertionManager =
  am_world :: 'w
  pollInterval :: int
  confirmationAttemptInterval :: int
  am_averageTimeForBlockCreation :: int
  am_validatorName :: string
  forksDetectedCount :: uint64
  challengesSubmittedCount :: uint64
  assertionsProcessedCount :: uint64
  postInterval :: int
  submittedAssertions :: "('h, bool) gomap"
  am_tasks :: "'h am_task list"

record ('w, 'h, 'a) AssertionEnv =
  AM_LatestConfirmed :: "('w, 'h) op"
  AM_CreatedAtBlock :: "'h \<Rightarrow> ('w, uint64) op"
  AM_ReadAssertionCreationInfo :: "'h \<Rightarrow> ('w, ('h, 'a) AssertionCreatedInfo) op"
  AM_LatestCreatedAssertionHashes :: "('w, 'h list) op"
  AM_AssertionStatus :: "'h \<Rightarrow> ('w, AssertionStatus) op"
  AM_IsStaked :: "('w, bool) op"
  AM_StakeOnNewAssertion :: "('h, 'a) AssertionCreatedInfo \<Rightarrow> 'h ExecutionState \<Rightarrow> ('w, 'h) op"
  AM_NewStakeOnNewAssertion :: "('h, 'a) AssertionCreatedInfo \<Rightarrow> 'h ExecutionState \<Rightarrow> ('w, 'h) op"
  AM_ConfirmAssertionByTime :: "'h \<Rightarrow> ('w, unit) op"
  AM_SpecChallengeManager :: "('w, unit) op"
  AM_NumBigSteps :: "('w, uint8) op"
  AM_ChallengePeriodBlocks :: "('w, uint64) op"
  AM_LayerZeroHeights :: "('w, LayerZeroHeights) op"
  AM_HeaderByNumber :: "('w, int) op"
  AM_NewRollupUserLogicFilterer :: "('w, unit) op"
  AM_FilterAssertionCreated :: "uint64 \<Rightarrow> uint64 option \<Rightarrow> ('w, 'h events) op"
  AM_AgreesWithExecutionState :: "'h ExecutionState \<Rightarrow> ('w, unit) op"
  AM_ExecutionStateAfterBatchCount :: "uint64 \<Rightarrow> ('w, 'h ExecutionState) op"
  AM_Mode :: "'w \<Rightarrow> Mode"
  AM_MaxDelaySeconds :: "'w \<Rightarrow> int"
  AM_ChallengeAssertion :: "'h \<Rightarrow> ('w, unit) oop"
  AM_rand :: "uint64 \<Rightarrow> ('w, int) op"
  AM_ctx_err :: "'w \<Rightarrow> go_error option"
  AM_Sleep :: "int \<Rightarrow> 'w \<Rightarrow> 'w"

type_synonym ('w, 'h, 'b) aop = "(('w, 'h) AssertionManager, 'b) oop"

definition on_a :: "('w, 'b) op \<Rightarrow> ('w, 'h, 'b) aop" where
  "on_a m s = (case m (am_world s) of (r, w) \<Rightarrow> Some (r, s\<lparr>am_world := w\<rparr>))"

definition on_ao :: "('w, 'b) oop \<Rightarrow> ('w, 'h, 'b) aop" where
  "on_ao m s = (case m (am_world s) of None \<Rightarrow> None | Some (r, w) \<Rightarrow> Some (r, s\<lparr>am_world := w\<rparr>))"

definition retryA :: "('w, 'h, 'a) AssertionEnv \<Rightarrow> ('w, 'h, 'b) aop \<Rightarrow> retry_opt list \<Rightarrow> ('w, 'h, 'b) aop" where
  "retryA env fn opts =
     UntilSucceeds (\<lambda>s. AM_ctx_err env (am_world s)) (\<lambda>d s. s\<lparr>am_world := AM_Sleep env d (am_world s)\<rparr>) fn opts"

definition go_task :: "'h am_task \<Rightarrow> ('w, 'h, unit) aop" where
  "go_task t = ofM (modifyM (\<lambda>s. s\<lparr>am_tasks := am_tasks s @ [t]\<rparr>))"

definition NewManager :: "'w \<Rightarrow> string \<Rightarrow> int \<Rightarrow> int \<Rightarrow> int \<Rightarrow> int \<Rightarrow> ('w, 'h) AssertionManager res" where
  "NewManager w name poll confirm post average =
     (if poll = 0 then Inl (ErrMsg ''assertion scanning interval must be greater than 0'')
      else if confirm = 0 then Inl (ErrMsg ''assertion confirmation attempt interval must be greater than 0'')
      else Inr \<lparr>am_world = w, pollInterval = poll, confirmationAttemptInterval = confirm,
                am_averageTimeForBlockCreation = average, am_validatorName = name, forksDetectedCount = 0,
                challengesSubmittedCount = 0, assertionsProcessedCount = 0, postInterval = post,
                submittedAssertions = NewSet, am_tasks = []\<rparr>)"

subsection \<open>Posting assertions\<close>

text \<open>The loop of \<^verbatim>\<open>findLatestValidAssertion\<close>, over the hashes from the newest to the oldest.\<close>

fun latest_valid_loop :: "('w, 'h, 'a) AssertionEnv \<Rightarrow> 'h list \<Rightarrow> ('w, 'h, 'h) aop" where
  "latest_valid_loop env [] = on_a (AM_LatestConfirmed env)"
| "latest_valid_loop env (h # hs) =
     bindO (on_a (AM_ReadAssertionCreationInfo env h)) (\<lambda>info.
     bindO (tryO (on_a (AM_AgreesWithExecutionState env (GoExecutionStateFromSolidity (AfterState info))))) (\<lambda>agrees.
       case agrees of Inr _ \<Rightarrow> returnO h | Inl _ \<Rightarrow> latest_valid_loop env hs))"

definition findLatestValidAssertion :: "('w, 'h, 'a) AssertionEnv \<Rightarrow> ('w, 'h, 'h) aop" where
  "findLatestValidAssertion env =
     bindO (on_a (AM_LatestCreatedAssertionHashes env)) (\<lambda>hashes. latest_valid_loop env (rev hashes))"

text \<open>\<open>None\<close> is the option without an assertion: the chain is still catching up.\<close>

definition PostAssertionBasedOnParent ::
    "('w, 'h, 'a) AssertionEnv \<Rightarrow> ('h, 'a) AssertionCreatedInfo \<Rightarrow>
     (('h, 'a) AssertionCreatedInfo \<Rightarrow> 'h ExecutionState \<Rightarrow> ('w, 'h) op) \<Rightarrow> ('w, 'h, 'h option) aop" where
  "PostAssertionBasedOnParent env parentCreationInfo submitFn =
     (if \<not> IsUint64 (int (InboxMaxCount parentCreationInfo)) then failO (ErrMsg ''inbox max count not a uint64'')
      else
        let batchCount = of_nat (InboxMaxCount parentCreationInfo) in
        bindO (tryO (on_a (AM_ExecutionStateAfterBatchCount env batchCount))) (\<lambda>state.
          case state of
            Inl err \<Rightarrow> if err = ErrChainCatchingUp then returnO None else failO err
          | Inr newState \<Rightarrow> bindO (on_a (submitFn parentCreationInfo newState)) (\<lambda>assertion. returnO (Some assertion))))"

text \<open>
  The part of \<^verbatim>\<open>PostAssertion\<close> and \<^verbatim>\<open>maybePostRivalAssertion\<close> that posts on a parent, with a new stake or the one already placed,
  and remembers what was posted.
\<close>

definition post_on_parent :: "('w, 'h, 'a) AssertionEnv \<Rightarrow> ('h, 'a) AssertionCreatedInfo \<Rightarrow> ('w, 'h, 'h option) aop" where
  "post_on_parent env parent =
     bindO (on_a (AM_IsStaked env)) (\<lambda>staked.
     bindO (PostAssertionBasedOnParent env parent
              (if staked then AM_StakeOnNewAssertion env else AM_NewStakeOnNewAssertion env)) (\<lambda>assertionOpt.
       case assertionOpt of
         None \<Rightarrow> returnO None
       | Some assertion \<Rightarrow>
           bindO (ofM (modifyM (\<lambda>s. s\<lparr>submittedAssertions := Set_Insert assertion (submittedAssertions s)\<rparr>))) (\<lambda>_.
             returnO (Some assertion))))"

definition PostAssertion :: "('w, 'h, 'a) AssertionEnv \<Rightarrow> ('w, 'h, 'h option) aop" where
  "PostAssertion env =
     bindO (findLatestValidAssertion env) (\<lambda>parentAssertionSeq.
     bindO (on_a (AM_ReadAssertionCreationInfo env parentAssertionSeq)) (\<lambda>parentAssertionCreationInfo.
       post_on_parent env parentAssertionCreationInfo))"

text \<open>The routine over the wake-ups of its \<^verbatim>\<open>select\<close>; every error is logged.\<close>

fun post_loop :: "('w, 'h, 'a) AssertionEnv \<Rightarrow> wakeup list \<Rightarrow> ('w, 'h, unit) aop" where
  "post_loop env [] = returnO ()"
| "post_loop env (CtxDone # ws) = returnO ()"
| "post_loop env (Tick # ws) = bindO (tryO (PostAssertion env)) (\<lambda>_. post_loop env ws)"

definition postAssertionRoutine :: "('w, 'h, 'a) AssertionEnv \<Rightarrow> wakeup list \<Rightarrow> ('w, 'h, unit) aop" where
  "postAssertionRoutine env ws =
     bindO (ofM (getM (\<lambda>s. AM_Mode env (am_world s)))) (\<lambda>mode.
       if Mode_value mode < Mode_value MakeMode then returnO ()
       else bindO (tryO (PostAssertion env)) (\<lambda>_. post_loop env ws))"

subsection \<open>Rivals and challenges\<close>

definition canPostRivalAssertion :: "('w, 'h, 'a) AssertionEnv \<Rightarrow> ('w, 'h) AssertionManager \<Rightarrow> bool" where
  "canPostRivalAssertion env s \<longleftrightarrow> Mode_value (AM_Mode env (am_world s)) \<ge> Mode_value DefensiveMode"

definition canPostChallenge :: "('w, 'h, 'a) AssertionEnv \<Rightarrow> ('w, 'h) AssertionManager \<Rightarrow> bool" where
  "canPostChallenge env s \<longleftrightarrow> Mode_value (AM_Mode env (am_world s)) \<ge> Mode_value DefensiveMode"

definition randUint64 :: "('w, 'h, 'a) AssertionEnv \<Rightarrow> uint64 \<Rightarrow> ('w, 'h, uint64) aop" where
  "randUint64 env upTo =
     bindO (on_a (AM_rand env upTo)) (\<lambda>n.
       if \<not> IsUint64 n then failO (ErrMsg ''not a uint64'') else returnO (of_int n))"

text \<open>
  The loop of \<^verbatim>\<open>findLastAgreedWithAncestor\<close> from a cursor towards the latest confirmed assertion, which may not end.
\<close>

partial_function (option) ancestor_loop ::
    "('w, 'h, 'a) AssertionEnv \<Rightarrow> 'h \<Rightarrow> ('h, 'a) AssertionCreatedInfo \<Rightarrow> 'h \<Rightarrow> ('w, 'h) AssertionManager \<Rightarrow>
     (('h, 'a) AssertionCreatedInfo res \<times> ('w, 'h) AssertionManager) option" where
  "ancestor_loop env agreedWithAncestor latestConfirmedInfo cursor s =
     (if cursor = agreedWithAncestor then Some (Inr latestConfirmedInfo, s)
      else case on_a (AM_ReadAssertionCreationInfo env cursor) s of
        None \<Rightarrow> None
      | Some (Inl err, s1) \<Rightarrow> Some (Inl err, s1)
      | Some (Inr parentCreationInfo, s1) \<Rightarrow>
          (case on_a (AM_AgreesWithExecutionState env (GoExecutionStateFromSolidity (AfterState parentCreationInfo))) s1 of
             None \<Rightarrow> None
           | Some (Inl err, s2) \<Rightarrow>
               if err = ErrNoExecutionState
               then ancestor_loop env agreedWithAncestor latestConfirmedInfo (ParentAssertionHash parentCreationInfo) s2
               else Some (Inl err, s2)
           | Some (Inr _, s2) \<Rightarrow> Some (Inr parentCreationInfo, s2)))"

declare ancestor_loop.simps [code]

definition findLastAgreedWithAncestor ::
    "('w, 'h, 'a) AssertionEnv \<Rightarrow> ('h, 'a) AssertionCreatedInfo \<Rightarrow> ('w, 'h, ('h, 'a) AssertionCreatedInfo) aop" where
  "findLastAgreedWithAncestor env assertionCreationInfo =
     bindO (on_a (AM_LatestConfirmed env)) (\<lambda>latestConfirmed.
     bindO (on_a (AM_ReadAssertionCreationInfo env latestConfirmed)) (\<lambda>latestConfirmedInfo.
       ancestor_loop env latestConfirmed latestConfirmedInfo (ParentAssertionHash assertionCreationInfo)))"

definition maybePostRivalAssertion ::
    "('w, 'h, 'a) AssertionEnv \<Rightarrow> ('h, 'a) AssertionCreatedInfo \<Rightarrow> ('w, 'h, 'h option) aop" where
  "maybePostRivalAssertion env creationInfo =
     bindO (findLastAgreedWithAncestor env creationInfo) (\<lambda>latestAgreedWithAncestor.
       post_on_parent env latestAgreedWithAncestor)"

definition logChallengeConfigs :: "('w, 'h, 'a) AssertionEnv \<Rightarrow> ('w, 'h, unit) aop" where
  "logChallengeConfigs env =
     bindO (on_a (AM_SpecChallengeManager env)) (\<lambda>_.
     bindO (on_a (AM_NumBigSteps env)) (\<lambda>_.
     bindO (on_a (AM_ChallengePeriodBlocks env)) (\<lambda>_.
     bindO (on_a (AM_LayerZeroHeights env)) (\<lambda>_. returnO ()))))"

text \<open>Durations are 64-bit signed integers, which wrap.\<close>

definition int64 :: "int \<Rightarrow> int" where
  "int64 n = (n + 2 ^ 63) mod 2 ^ 64 - 2 ^ 63"

text \<open>The wait before the challenge, of a random number of seconds below the configured maximum.\<close>

definition delay_challenge :: "('w, 'h, 'a) AssertionEnv \<Rightarrow> ('w, 'h, unit) aop" where
  "delay_challenge env =
     bindO (ofM (getM (\<lambda>s. AM_MaxDelaySeconds env (am_world s)))) (\<lambda>maxDelay.
     bindO (randUint64 env (of_int (if maxDelay > 1 then maxDelay else 1))) (\<lambda>randSecs.
       ofM (modifyM (\<lambda>s. s\<lparr>am_world := AM_Sleep env (int64 (int64 (uint randSecs) * 1000000000)) (am_world s)\<rparr>))))"

definition postRivalAssertionAndChallenge ::
    "('w, 'h, 'a) AssertionEnv \<Rightarrow> ('h, 'a) AssertionCreatedInfo \<Rightarrow> ('w, 'h, unit) aop" where
  "postRivalAssertionAndChallenge env creationInfo =
     (if \<not> IsUint64 (int (InboxMaxCount creationInfo)) then failO (ErrMsg ''inbox max count not a uint64'')
      else
        bindO (ofM (getM (canPostRivalAssertion env))) (\<lambda>canPost.
          if \<not> canPost then returnO ()
          else
            bindO (maybePostRivalAssertion env creationInfo) (\<lambda>correctRivalAssertion.
              case correctRivalAssertion of
                None \<Rightarrow> returnO ()
              | Some rival \<Rightarrow>
                  bindO (ofM (getM (canPostChallenge env))) (\<lambda>canChallenge.
                    if \<not> canChallenge then returnO ()
                    else
                      bindO (delay_challenge env) (\<lambda>_.
                      bindO (on_ao (AM_ChallengeAssertion env rival)) (\<lambda>_.
                      bindO (tryO (logChallengeConfigs env)) (\<lambda>_.
                        ofM (modifyM (\<lambda>s. s\<lparr>challengesSubmittedCount := challengesSubmittedCount s + 1\<rparr>)))))))))"

definition processed :: "('w, 'h, unit) aop" where
  "processed = ofM (modifyM (\<lambda>s. s\<lparr>assertionsProcessedCount := assertionsProcessedCount s + 1\<rparr>))"

definition ProcessAssertionCreationEvent :: "('w, 'h::zero, 'a) AssertionEnv \<Rightarrow> 'h \<Rightarrow> ('w, 'h, unit) aop" where
  "ProcessAssertionCreationEvent env assertionHash =
     bindO (ofM (getM (\<lambda>s. Set_Has (submittedAssertions s) assertionHash))) (\<lambda>submitted.
       if submitted \<or> assertionHash = 0 then returnO ()
       else
         bindO (on_a (AM_ReadAssertionCreationInfo env assertionHash)) (\<lambda>creationInfo.
           if ParentAssertionHash creationInfo = 0 then returnO ()
           else
             bindO (tryO (on_a (AM_AgreesWithExecutionState env (GoExecutionStateFromSolidity (AfterState creationInfo))))) (\<lambda>agrees.
               case agrees of
                 Inl err \<Rightarrow>
                   if err = ErrNoExecutionState
                   then bindO (postRivalAssertionAndChallenge env creationInfo) (\<lambda>_. processed)
                   else failO err
               | Inr _ \<Rightarrow> processed)))"

subsection \<open>Confirming by time\<close>

definition wait_blocks :: "('w, 'h, 'a) AssertionEnv \<Rightarrow> uint64 \<Rightarrow> ('w, 'h) AssertionManager \<Rightarrow> ('w, 'h) AssertionManager" where
  "wait_blocks env blocksLeft s =
     s\<lparr>am_world := AM_Sleep env (int64 (am_averageTimeForBlockCreation s * int64 (uint blocksLeft))) (am_world s)\<rparr>"

definition confirm_when_due :: "('w, 'h, 'a) AssertionEnv \<Rightarrow> 'h \<Rightarrow> ('w, 'h, bool) aop" where
  "confirm_when_due env assertionHash =
     bindO (on_a (AM_ReadAssertionCreationInfo env assertionHash)) (\<lambda>creationInfo.
     bindO (on_a (AM_ReadAssertionCreationInfo env (ParentAssertionHash creationInfo))) (\<lambda>prevCreationInfo.
     bindO (on_a (AM_HeaderByNumber env)) (\<lambda>number.
       if \<not> IsUint64 number then returnO False
       else
         let currentBlock = of_int number;
             deadline = CreationBlock creationInfo + ConfirmPeriodBlocks prevCreationInfo in
         bindO (if currentBlock < deadline then ofM (modifyM (wait_blocks env (deadline - currentBlock))) else returnO ()) (\<lambda>_.
         bindO (on_a (AM_ConfirmAssertionByTime env assertionHash)) (\<lambda>_. returnO True)))))"

text \<open>Every error is logged and answered with \<open>False\<close>.\<close>

definition assertionConfirmed :: "('w, 'h, 'a) AssertionEnv \<Rightarrow> 'h \<Rightarrow> ('w, 'h, bool) aop" where
  "assertionConfirmed env assertionHash =
     bindO (tryO (on_a (AM_AssertionStatus env assertionHash))) (\<lambda>status.
       case status of
         Inl _ \<Rightarrow> returnO False
       | Inr st \<Rightarrow>
           if st = NoAssertion then returnO False
           else if st = AssertionConfirmed then returnO True
           else bindO (tryO (confirm_when_due env assertionHash)) (\<lambda>r. returnO (r = Inr True)))"

fun confirmation_loop :: "('w, 'h, 'a) AssertionEnv \<Rightarrow> 'h \<Rightarrow> wakeup list \<Rightarrow> ('w, 'h, unit) aop" where
  "confirmation_loop env assertionHash [] = returnO ()"
| "confirmation_loop env assertionHash (CtxDone # ws) = returnO ()"
| "confirmation_loop env assertionHash (Tick # ws) =
     bindO (assertionConfirmed env assertionHash) (\<lambda>confirmed.
       if confirmed then returnO () else confirmation_loop env assertionHash ws)"

definition keepTryingAssertionConfirmation :: "('w, 'h, 'a) AssertionEnv \<Rightarrow> 'h \<Rightarrow> wakeup list \<Rightarrow> ('w, 'h, unit) aop" where
  "keepTryingAssertionConfirmation env assertionHash ws =
     bindO (ofM (getM (\<lambda>s. AM_Mode env (am_world s)))) (\<lambda>mode.
       if Mode_value mode < Mode_value ResolveMode then returnO () else confirmation_loop env assertionHash ws)"

subsection \<open>Scanning\<close>

text \<open>
  The error of the iterator is not the one that is wrapped, which is nil; the message dereferences the end of the range, a nil
  pointer in the first scan.
\<close>

fun created_loop :: "uint64 option \<Rightarrow> 'h events \<Rightarrow> ('w, 'h, unit) aop" where
  "created_loop toBlock [] = returnO ()"
| "created_loop toBlock (None # events) = (case toBlock of None \<Rightarrow> failO GoPanic | Some _ \<Rightarrow> returnO ())"
| "created_loop toBlock (Some assertionHash # events) =
     bindO (go_task (KeepConfirming assertionHash)) (\<lambda>_.
     bindO (go_task (ProcessCreation assertionHash)) (\<lambda>_. created_loop toBlock events))"

definition checkForAssertionAdded :: "('w, 'h, 'a) AssertionEnv \<Rightarrow> uint64 \<Rightarrow> uint64 option \<Rightarrow> ('w, 'h, unit) aop" where
  "checkForAssertionAdded env fromBlock toBlock =
     bindO (on_a (AM_FilterAssertionCreated env fromBlock toBlock)) (created_loop toBlock)"

text \<open>What a task does, over the wake-ups of its \<^verbatim>\<open>select\<close>.\<close>

fun run_task :: "('w, 'h::zero, 'a) AssertionEnv \<Rightarrow> 'h am_task \<Rightarrow> wakeup list \<Rightarrow> ('w, 'h, unit) aop" where
  "run_task env PostAssertions ws = postAssertionRoutine env ws"
| "run_task env (KeepConfirming assertionHash) ws = keepTryingAssertionConfirmation env assertionHash ws"
| "run_task env (ProcessCreation assertionHash) ws =
     retryA env (ProcessAssertionCreationEvent env assertionHash) [WithInterval 60000000000]"

definition am_tick :: "('w, 'h, 'a) AssertionEnv \<Rightarrow> uint64 \<Rightarrow> ('w, 'h, uint64 option) aop" where
  "am_tick env fromBlock =
     bindO (tryO (on_a (AM_HeaderByNumber env))) (\<lambda>latestBlock.
       case latestBlock of
         Inl _ \<Rightarrow> returnO (Some fromBlock)
       | Inr number \<Rightarrow>
           if \<not> IsUint64 number then returnO (Some fromBlock)
           else
             let toBlock = of_int number in
             if fromBlock = toBlock then returnO (Some fromBlock)
             else
               bindO (tryO (retryA env (checkForAssertionAdded env fromBlock (Some toBlock)) [])) (\<lambda>scanned.
                 returnO (case scanned of Inl _ \<Rightarrow> None | Inr _ \<Rightarrow> Some toBlock)))"

fun am_loop ::
    "('w, 'h, 'a) AssertionEnv \<Rightarrow> wakeup list \<Rightarrow> uint64 \<Rightarrow> ('w, 'h) AssertionManager \<Rightarrow>
     (watching \<times> ('w, 'h) AssertionManager) option" where
  "am_loop env [] fromBlock s = Some (Watching fromBlock, s)"
| "am_loop env (CtxDone # ws) fromBlock s = Some (Returned, s)"
| "am_loop env (Tick # ws) fromBlock s =
     (case am_tick env fromBlock s of
        None \<Rightarrow> None
      | Some (Inl _, s') \<Rightarrow> Some (Crashed, s')
      | Some (Inr None, s') \<Rightarrow> Some (Returned, s')
      | Some (Inr (Some fromBlock'), s') \<Rightarrow> am_loop env ws fromBlock' s')"

definition am_first_scan :: "('w, 'h, 'a) AssertionEnv \<Rightarrow> ('w, 'h, uint64) aop" where
  "am_first_scan env =
     bindO (go_task PostAssertions) (\<lambda>_.
     bindO (on_a (AM_LatestConfirmed env)) (\<lambda>latestConfirmed.
     bindO (on_a (AM_CreatedAtBlock env latestConfirmed)) (\<lambda>fromBlock.
     bindO (retryA env (on_a (AM_NewRollupUserLogicFilterer env)) []) (\<lambda>_.
     bindO (retryA env (checkForAssertionAdded env fromBlock None) []) (\<lambda>_.
       returnO fromBlock)))))"

definition am_Start ::
    "('w, 'h, 'a) AssertionEnv \<Rightarrow> wakeup list \<Rightarrow> ('w, 'h) AssertionManager \<Rightarrow> (watching \<times> ('w, 'h) AssertionManager) option" where
  "am_Start env ws s =
     (case am_first_scan env s of
        None \<Rightarrow> None
      | Some (Inl e, s') \<Rightarrow> Some (if e = GoPanic then Crashed else Returned, s')
      | Some (Inr fromBlock, s') \<Rightarrow> am_loop env ws fromBlock s')"

definition AssertionsSubmittedInProcess :: "('w, 'h) AssertionManager \<Rightarrow> 'h list" where
  "AssertionsSubmittedInProcess s = Set_ForEach (\<lambda>e hashes. hashes @ [e]) (submittedAssertions s) []"

end
