(* ===== verification/Assertion_Safety.thy ===== *)
theory Assertion_Safety
  imports Assertion_Manager
begin

text \<open>
  What the assertion manager does to the chain: it stakes only on states its own node computed, after assertions it agrees
  with, it opens challenges only with assertions it staked on itself, its search for the last valid ancestor ends at the right
  place, and its scans leave no gap.
\<close>

subsection \<open>What the manager was told\<close>

definition read_info :: "('w, 'h, 'a) AssertionEnv \<Rightarrow> 'h \<Rightarrow> ('h, 'a) AssertionCreatedInfo \<Rightarrow> bool" where
  "read_info env h ci \<longleftrightarrow> (\<exists>w w'. AM_ReadAssertionCreationInfo env h w = (Inr ci, w'))"

definition state_answer :: "('w, 'h, 'a) AssertionEnv \<Rightarrow> ('h, 'a) AssertionCreatedInfo \<Rightarrow> unit res \<Rightarrow> bool" where
  "state_answer env ci r \<longleftrightarrow> (\<exists>w w'. AM_AgreesWithExecutionState env (GoExecutionStateFromSolidity (AfterState ci)) w = (r, w'))"

definition latest_confirmed :: "('w, 'h, 'a) AssertionEnv \<Rightarrow> 'h \<Rightarrow> bool" where
  "latest_confirmed env h \<longleftrightarrow> (\<exists>w w'. AM_LatestConfirmed env w = (Inr h, w'))"

definition own_state :: "('w, 'h, 'a) AssertionEnv \<Rightarrow> ('h, 'a) AssertionCreatedInfo \<Rightarrow> 'h ExecutionState \<Rightarrow> bool" where
  "own_state env p st \<longleftrightarrow>
     InboxMaxCount p < 2 ^ 64 \<and> (\<exists>w w'. AM_ExecutionStateAfterBatchCount env (of_nat (InboxMaxCount p)) w = (Inr st, w'))"

definition mode_at_least :: "('w, 'h, 'a) AssertionEnv \<Rightarrow> Mode \<Rightarrow> bool" where
  "mode_at_least env mode \<longleftrightarrow> (\<exists>w. Mode_value mode \<le> Mode_value (AM_Mode env w))"

text \<open>A parent to build on: the validator agrees with it, or it is the latest confirmed one.\<close>

definition valid_parent :: "('w, 'h, 'a) AssertionEnv \<Rightarrow> ('h, 'a) AssertionCreatedInfo \<Rightarrow> bool" where
  "valid_parent env p \<longleftrightarrow>
     (\<exists>h ci. read_info env h p \<and> read_info env h ci \<and> (state_answer env ci (Inr ()) \<or> latest_confirmed env h))"

text \<open>An assertion of someone else that the state provider disagrees with.\<close>

definition wrong_assertion :: "('w, 'h, 'a) AssertionEnv \<Rightarrow> bool" where
  "wrong_assertion env \<longleftrightarrow> (\<exists>h ci. read_info env h ci \<and> state_answer env ci (Inl ErrNoExecutionState))"

text \<open>The reasons to stake: making assertions, or answering a wrong one.\<close>

definition may_stake :: "('w, 'h, 'a) AssertionEnv \<Rightarrow> bool" where
  "may_stake env \<longleftrightarrow> mode_at_least env MakeMode \<or> mode_at_least env DefensiveMode \<and> wrong_assertion env"

definition stakes ::
    "('w, 'h, 'a) AssertionEnv \<Rightarrow> ('h, 'a) AssertionCreatedInfo \<Rightarrow> 'h ExecutionState \<Rightarrow> ('w, 'h) op \<Rightarrow> bool" where
  "stakes env p st f \<longleftrightarrow> f = AM_StakeOnNewAssertion env p st \<or> f = AM_NewStakeOnNewAssertion env p st"

text \<open>An assertion the validator staked on, with what made it do so.\<close>

definition own_assertion :: "('w, 'h, 'a) AssertionEnv \<Rightarrow> 'h \<Rightarrow> bool" where
  "own_assertion env h \<longleftrightarrow>
     (\<exists>p st f w w'. stakes env p st f \<and> valid_parent env p \<and> own_state env p st \<and> may_stake env \<and> f w = (Inr h, w'))"

subsection \<open>Steps\<close>

inductive am_read :: "('w, 'h, 'a) AssertionEnv \<Rightarrow> 'w \<Rightarrow> 'w \<Rightarrow> bool" for env where
  by_latest: "AM_LatestConfirmed env w = (r, w') \<Longrightarrow> am_read env w w'"
| by_created: "AM_CreatedAtBlock env h w = (r, w') \<Longrightarrow> am_read env w w'"
| by_info: "AM_ReadAssertionCreationInfo env h w = (r, w') \<Longrightarrow> am_read env w w'"
| by_hashes: "AM_LatestCreatedAssertionHashes env w = (r, w') \<Longrightarrow> am_read env w w'"
| by_status: "AM_AssertionStatus env h w = (r, w') \<Longrightarrow> am_read env w w'"
| by_staked: "AM_IsStaked env w = (r, w') \<Longrightarrow> am_read env w w'"
| by_spec: "AM_SpecChallengeManager env w = (r, w') \<Longrightarrow> am_read env w w'"
| by_big_steps: "AM_NumBigSteps env w = (r, w') \<Longrightarrow> am_read env w w'"
| by_period: "AM_ChallengePeriodBlocks env w = (r, w') \<Longrightarrow> am_read env w w'"
| by_heights: "AM_LayerZeroHeights env w = (r, w') \<Longrightarrow> am_read env w w'"
| by_header: "AM_HeaderByNumber env w = (r, w') \<Longrightarrow> am_read env w w'"
| by_filterer: "AM_NewRollupUserLogicFilterer env w = (r, w') \<Longrightarrow> am_read env w w'"
| by_filter: "AM_FilterAssertionCreated env a b w = (r, w') \<Longrightarrow> am_read env w w'"
| by_agrees: "AM_AgreesWithExecutionState env st w = (r, w') \<Longrightarrow> am_read env w w'"
| by_state: "AM_ExecutionStateAfterBatchCount env n w = (r, w') \<Longrightarrow> am_read env w w'"
| by_rand: "AM_rand env n w = (r, w') \<Longrightarrow> am_read env w w'"
| by_sleep: "am_read env w (AM_Sleep env d w)"

text \<open>
  The steps of the manager's tasks. A read leaves all but the world as it is, and so does every transaction; the tasks and the
  counters change on their own.
\<close>

inductive am_step :: "('w, 'h, 'a) AssertionEnv \<Rightarrow> ('w, 'h) AssertionManager \<Rightarrow> ('w, 'h) AssertionManager \<Rightarrow> bool" for env where
  reads: "am_read env (am_world s) w \<Longrightarrow> am_step env s (s\<lparr>am_world := w\<rparr>)"
| confirms: "AM_ConfirmAssertionByTime env h (am_world s) = (r, w) \<Longrightarrow> mode_at_least env ResolveMode \<Longrightarrow>
    am_step env s (s\<lparr>am_world := w\<rparr>)"
| posts: "stakes env p st f \<Longrightarrow> valid_parent env p \<Longrightarrow> own_state env p st \<Longrightarrow> may_stake env \<Longrightarrow> f (am_world s) = (r, w) \<Longrightarrow>
    am_step env s (s\<lparr>am_world := w\<rparr>)"
| remembers: "own_assertion env h \<Longrightarrow> am_step env s (s\<lparr>submittedAssertions := Set_Insert h (submittedAssertions s)\<rparr>)"
| challenge_opened: "own_assertion env h \<Longrightarrow> mode_at_least env DefensiveMode \<Longrightarrow> wrong_assertion env \<Longrightarrow>
    AM_ChallengeAssertion env h (am_world s) = Some (r, w) \<Longrightarrow> am_step env s (s\<lparr>am_world := w\<rparr>)"
| challenge_counted: "wrong_assertion env \<Longrightarrow> am_step env s (s\<lparr>challengesSubmittedCount := challengesSubmittedCount s + 1\<rparr>)"
| process_counted: "am_step env s (s\<lparr>assertionsProcessedCount := assertionsProcessedCount s + 1\<rparr>)"
| task_started: "am_step env s (s\<lparr>am_tasks := am_tasks s @ [t]\<rparr>)"

lemma on_a_Some: "on_a f s = Some (r, s') \<longleftrightarrow> (\<exists>w. f (am_world s) = (r, w) \<and> s' = s\<lparr>am_world := w\<rparr>)"
  by (auto simp: on_a_def split: prod.splits)

lemma on_a_Inr: "on_a f s = Some (Inr x, s') \<Longrightarrow> \<exists>w w'. f w = (Inr x, w')"
  by (auto simp: on_a_Some)

lemma leads_read: "(\<And>w r w'. f w = (r, w') \<Longrightarrow> am_read env w w') \<Longrightarrow> leads (am_step env) (on_a f)"
  by (rule leads_step) (auto simp: on_a_Some intro: am_step.reads)

lemma leads_reads:
  "leads (am_step env) (on_a (AM_LatestConfirmed env))" "leads (am_step env) (on_a (AM_CreatedAtBlock env h))"
  "leads (am_step env) (on_a (AM_ReadAssertionCreationInfo env h))" "leads (am_step env) (on_a (AM_LatestCreatedAssertionHashes env))"
  "leads (am_step env) (on_a (AM_AssertionStatus env h))" "leads (am_step env) (on_a (AM_IsStaked env))"
  "leads (am_step env) (on_a (AM_SpecChallengeManager env))" "leads (am_step env) (on_a (AM_NumBigSteps env))"
  "leads (am_step env) (on_a (AM_ChallengePeriodBlocks env))" "leads (am_step env) (on_a (AM_LayerZeroHeights env))"
  "leads (am_step env) (on_a (AM_HeaderByNumber env))" "leads (am_step env) (on_a (AM_NewRollupUserLogicFilterer env))"
  "leads (am_step env) (on_a (AM_FilterAssertionCreated env a b))" "leads (am_step env) (on_a (AM_AgreesWithExecutionState env st))"
  "leads (am_step env) (on_a (AM_ExecutionStateAfterBatchCount env n))" "leads (am_step env) (on_a (AM_rand env n))"
  by (rule leads_read, erule am_read.intros)+

lemma leads_sleep: "leads (am_step env) (ofM (modifyM (\<lambda>s. s\<lparr>am_world := AM_Sleep env (d s) (am_world s)\<rparr>)))"
  by (intro leads_modify r_into_rtranclp am_step.reads am_read.by_sleep)

lemma leads_retryA: "leads (am_step env) fn \<Longrightarrow> leads (am_step env) (retryA env fn opts)"
  unfolding retryA_def by (rule leads_retry) (auto intro: am_step.reads am_read.by_sleep)

lemma leads_task: "leads (am_step env) (go_task t)"
  unfolding go_task_def by (intro leads_modify r_into_rtranclp am_step.task_started)

lemmas am_leads = leads_reads leads_simple leads_bindO leads_tryO leads_sleep leads_retryA leads_task

subsection \<open>Posting\<close>

lemma latest_valid_loop_leads: "leads (am_step env) (latest_valid_loop env hs)"
  by (induction hs) (auto intro!: am_leads split: sum.splits)

lemma latest_valid_loop_valid:
  assumes "latest_valid_loop env hs s = Some (Inr h, s')"
  shows "latest_confirmed env h \<or> (\<exists>ci. read_info env h ci \<and> state_answer env ci (Inr ()))"
  using assms
proof (induction hs arbitrary: s)
  case Nil
  then show ?case by (auto simp: latest_confirmed_def dest: on_a_Inr)
next
  case (Cons k hs)
  from Cons.prems obtain ci s1 r s2 where ci: "on_a (AM_ReadAssertionCreationInfo env k) s = Some (Inr ci, s1)"
    and r: "on_a (AM_AgreesWithExecutionState env (GoExecutionStateFromSolidity (AfterState ci))) s1 = Some (r, s2)"
    and rest: "(case r of Inr _ \<Rightarrow> returnO k | Inl _ \<Rightarrow> latest_valid_loop env hs) s2 = Some (Inr h, s')"
    by (auto elim!: bindO_Inr_E dest!: tryO_Inr)
  show ?case
  proof (cases r)
    case (Inl e)
    with rest Cons.IH show ?thesis by simp
  next
    case (Inr u)
    with rest have "h = k" by simp
    with ci r Inr show ?thesis by (auto simp: read_info_def state_answer_def on_a_Some)
  qed
qed

lemma PostAssertionBasedOnParent_leads:
  fixes env :: "('w, 'h, 'a) AssertionEnv"
  assumes "valid_parent env p" "may_stake env" "submit \<in> {AM_StakeOnNewAssertion env, AM_NewStakeOnNewAssertion env}"
  shows "leads (am_step env) (PostAssertionBasedOnParent env p submit)"
proof -
  have post: "leads (am_step env) (on_a (submit p st))" if "own_state env p st" for st
  proof (rule leads_step)
    fix s r and s' :: "('w, 'h) AssertionManager"
    have "stakes env p st (submit p st)" using assms(3) by (auto simp: stakes_def)
    moreover assume "on_a (submit p st) s = Some (r, s')"
    ultimately show "am_step env s s'" using assms(1,2) that by (auto simp: on_a_Some intro: am_step.posts)
  qed
  have own: "own_state env p st" if "IsUint64 (int (InboxMaxCount p))"
      "on_a (AM_ExecutionStateAfterBatchCount env (of_nat (InboxMaxCount p))) s = Some (Inr st, s')" for s st s'
    using that by (auto simp: own_state_def IsUint64_def dest: on_a_Inr)
  show ?thesis
    unfolding PostAssertionBasedOnParent_def Let_def
    by (auto intro!: am_leads post split: sum.splits dest!: tryO_Inr intro: own)
qed

lemma PostAssertionBasedOnParent_own:
  assumes "valid_parent env p" "may_stake env" "submit \<in> {AM_StakeOnNewAssertion env, AM_NewStakeOnNewAssertion env}"
    "PostAssertionBasedOnParent env p submit s = Some (Inr (Some h), s')"
  shows "own_assertion env h"
proof -
  from assms(4) obtain st v v' w w' where "IsUint64 (int (InboxMaxCount p))"
    "AM_ExecutionStateAfterBatchCount env (of_nat (InboxMaxCount p)) v = (Inr st, v')" "submit p st w = (Inr h, w')"
    unfolding PostAssertionBasedOnParent_def Let_def
    by (auto split: if_splits sum.splits elim!: bindO_Inr_E dest!: tryO_Inr on_a_Inr)
  with assms(1-3) show ?thesis
    unfolding own_assertion_def by (auto simp: own_state_def stakes_def IsUint64_def) blast+
qed

lemma leads_remember:
  assumes "own_assertion env h"
  shows "leads (am_step env) (ofM (modifyM (\<lambda>s. s\<lparr>submittedAssertions := Set_Insert h (submittedAssertions s)\<rparr>)))"
  using assms by (intro leads_modify r_into_rtranclp am_step.remembers)

lemma submit_cases: "(if staked then AM_StakeOnNewAssertion env else AM_NewStakeOnNewAssertion env) \<in>
    {AM_StakeOnNewAssertion env, AM_NewStakeOnNewAssertion env}"
  by simp

lemma post_on_parent_leads:
  assumes "valid_parent env p" "may_stake env"
  shows "leads (am_step env) (post_on_parent env p)"
  unfolding post_on_parent_def
  using PostAssertionBasedOnParent_leads [OF assms submit_cases] PostAssertionBasedOnParent_own [OF assms submit_cases]
  by (auto intro!: am_leads leads_remember split: option.splits)

lemma post_on_parent_own:
  assumes "valid_parent env p" "may_stake env" "post_on_parent env p s = Some (Inr (Some h), s')"
  shows "own_assertion env h"
  using assms(3) PostAssertionBasedOnParent_own [OF assms(1,2) submit_cases]
  unfolding post_on_parent_def by (auto elim!: bindO_Inr_E split: option.splits)

lemma PostAssertion_leads:
  assumes "mode_at_least env MakeMode"
  shows "leads (am_step env) (PostAssertion env)"
proof -
  have find: "leads (am_step env) (findLatestValidAssertion env)"
    unfolding findLatestValidAssertion_def by (intro am_leads latest_valid_loop_leads)
  show ?thesis
    unfolding PostAssertion_def
  proof (intro am_leads find post_on_parent_leads)
    fix s h s1 s2 p s3
    assume h: "findLatestValidAssertion env s = Some (Inr h, s1)"
      and p: "on_a (AM_ReadAssertionCreationInfo env h) s2 = Some (Inr p, s3)"
    from h obtain hs s4 where "latest_valid_loop env hs s4 = Some (Inr h, s1)"
      unfolding findLatestValidAssertion_def by (elim bindO_Inr_E)
    moreover have "read_info env h p" using on_a_Inr [OF p] by (simp add: read_info_def)
    ultimately show "valid_parent env p" using latest_valid_loop_valid [of env hs s4 h s1] unfolding valid_parent_def by blast
    show "may_stake env" using assms by (simp add: may_stake_def)
  qed
qed

lemma post_loop_leads: "mode_at_least env MakeMode \<Longrightarrow> leads (am_step env) (post_loop env ws)"
  by (induction env ws rule: post_loop.induct) (auto intro!: am_leads PostAssertion_leads)

lemma postAssertionRoutine_leads: "leads (am_step env) (postAssertionRoutine env ws)"
  unfolding postAssertionRoutine_def
  by (auto intro!: am_leads PostAssertion_leads post_loop_leads simp: getM_def mode_at_least_def not_less) blast+

subsection \<open>Rivals and challenges\<close>

lemma ancestor_loop_result:
  assumes "ancestor_loop env confirmed confirmedInfo cursor s = Some z"
  shows "(am_step env)\<^sup>*\<^sup>* s (snd z) \<and>
    (\<forall>p. fst z = Inr p \<longrightarrow> p = confirmedInfo \<or> (\<exists>h. read_info env h p \<and> state_answer env p (Inr ())))"
  using assms
proof (induction rule: ancestor_loop.raw_induct [rotated, consumes 1, case_names step])
  case (step loop env confirmed confirmedInfo cursor s z)
  show ?case
  proof (cases "cursor = confirmed")
    case False
    then obtain r1 s1 where r1: "on_a (AM_ReadAssertionCreationInfo env cursor) s = Some (r1, s1)"
      using step(2) by (auto split: option.splits)
    have s1: "(am_step env)\<^sup>*\<^sup>* s s1" by (rule leadsD [OF leads_reads(3) r1])
    show ?thesis
    proof (cases r1)
      case (Inl e)
      with False r1 s1 step(2) show ?thesis by auto
    next
      case (Inr ci)
      with False r1 step(2) obtain r2 s2 where r2:
        "on_a (AM_AgreesWithExecutionState env (GoExecutionStateFromSolidity (AfterState ci))) s1 = Some (r2, s2)"
        by (auto split: option.splits)
      have s2: "(am_step env)\<^sup>*\<^sup>* s s2" using s1 leadsD [OF leads_reads(14) r2] by (rule rtranclp_trans)
      have ev: "read_info env cursor ci" "state_answer env ci r2"
        using r1 r2 Inr by (auto simp: read_info_def state_answer_def on_a_Some)
      consider (stop) "z = (Inr ci, s2)" "r2 = Inr ()" | (fail) e where "z = (Inl e, s2)"
        | (on) "loop env confirmed confirmedInfo (ParentAssertionHash ci) s2 = Some z"
        using step(2) False r1 r2 Inr by (cases r2) (auto split: if_splits)
      then show ?thesis
      proof cases
        case on
        from step(1) [OF this] s2 show ?thesis by (auto intro: rtranclp_trans)
      qed (use s2 ev in auto)
    qed
  qed (use step(2) in auto)
qed

lemma findLastAgreedWithAncestor_leads: "leads (am_step env) (findLastAgreedWithAncestor env ci)"
  unfolding findLastAgreedWithAncestor_def
  by (intro am_leads) (auto simp: leads_def dest: ancestor_loop_result)

lemma findLastAgreedWithAncestor_valid:
  assumes "findLastAgreedWithAncestor env ci s = Some (Inr p, s')"
  shows "valid_parent env p"
proof -
  from assms obtain confirmed s1 info s2 where c: "on_a (AM_LatestConfirmed env) s = Some (Inr confirmed, s1)"
    "on_a (AM_ReadAssertionCreationInfo env confirmed) s1 = Some (Inr info, s2)"
    "ancestor_loop env confirmed info (ParentAssertionHash ci) s2 = Some (Inr p, s')"
    unfolding findLastAgreedWithAncestor_def by (elim bindO_Inr_E)
  from ancestor_loop_result [OF c(3)] c(1,2) show ?thesis
    unfolding valid_parent_def by (auto simp: read_info_def latest_confirmed_def on_a_Some)
qed

lemma delay_challenge_leads: "leads (am_step env) (delay_challenge env)"
  unfolding delay_challenge_def randUint64_def by (auto intro!: am_leads)

lemma logChallengeConfigs_leads: "leads (am_step env) (logChallengeConfigs env)"
  unfolding logChallengeConfigs_def by (intro am_leads)

lemma maybePostRivalAssertion_leads: "may_stake env \<Longrightarrow> leads (am_step env) (maybePostRivalAssertion env ci)"
  unfolding maybePostRivalAssertion_def
  by (intro am_leads findLastAgreedWithAncestor_leads post_on_parent_leads findLastAgreedWithAncestor_valid)

lemma maybePostRivalAssertion_own:
  assumes "may_stake env" "maybePostRivalAssertion env ci s = Some (Inr (Some h), s')"
  shows "own_assertion env h"
  using assms unfolding maybePostRivalAssertion_def
  by (auto elim!: bindO_Inr_E intro: post_on_parent_own findLastAgreedWithAncestor_valid)

lemma challenge_leads:
  assumes "own_assertion env h" "mode_at_least env DefensiveMode" "wrong_assertion env"
  shows "leads (am_step env) (on_ao (AM_ChallengeAssertion env h))"
  by (rule leads_step) (auto simp: on_ao_def split: option.splits intro: am_step.challenge_opened [OF assms])

lemma challenge_count_leads:
  "wrong_assertion env \<Longrightarrow> leads (am_step env) (ofM (modifyM (\<lambda>s. s\<lparr>challengesSubmittedCount := challengesSubmittedCount s + 1\<rparr>)))"
  by (intro leads_modify r_into_rtranclp am_step.challenge_counted)

lemma postRivalAssertionAndChallenge_leads:
  assumes "wrong_assertion env"
  shows "leads (am_step env) (postRivalAssertionAndChallenge env ci)"
proof -
  have mode: "mode_at_least env DefensiveMode" if "canPostRivalAssertion env s" for s
    using that by (auto simp: canPostRivalAssertion_def mode_at_least_def)
  have may: "may_stake env" if "mode_at_least env DefensiveMode"
    using that assms by (simp add: may_stake_def)
  show ?thesis
    unfolding postRivalAssertionAndChallenge_def
    by (auto intro!: am_leads maybePostRivalAssertion_leads delay_challenge_leads challenge_leads logChallengeConfigs_leads
        challenge_count_leads maybePostRivalAssertion_own [OF may] assms may mode simp: getM_def split: option.splits)
qed

lemma processed_leads: "leads (am_step env) processed"
  unfolding processed_def by (intro leads_modify r_into_rtranclp am_step.process_counted)

lemma ProcessAssertionCreationEvent_leads:
  fixes env :: "('w, 'h::zero, 'a) AssertionEnv"
  shows "leads (am_step env) (ProcessAssertionCreationEvent env h)"
proof -
  have wrong: "wrong_assertion env" if "on_a (AM_ReadAssertionCreationInfo env h) s = Some (Inr ci, s')"
    "on_a (AM_AgreesWithExecutionState env (GoExecutionStateFromSolidity (AfterState ci))) t = Some (Inl ErrNoExecutionState, t')"
    for ci and s s' t t' :: "('w, 'h) AssertionManager"
    using that by (auto simp: wrong_assertion_def read_info_def state_answer_def on_a_Some)
  show ?thesis
    unfolding ProcessAssertionCreationEvent_def
    by (auto intro!: am_leads postRivalAssertionAndChallenge_leads processed_leads dest!: tryO_Inr split: sum.splits)
      (blast intro: wrong)
qed

subsection \<open>Confirming and scanning\<close>

lemma confirm_leads: "mode_at_least env ResolveMode \<Longrightarrow> leads (am_step env) (on_a (AM_ConfirmAssertionByTime env h))"
  by (rule leads_step) (auto simp: on_a_Some intro: am_step.confirms)

lemma assertionConfirmed_leads:
  assumes "mode_at_least env ResolveMode"
  shows "leads (am_step env) (assertionConfirmed env h)"
proof -
  have wait: "leads (am_step env) (ofM (modifyM (wait_blocks env n)))" for n
    unfolding wait_blocks_def by (intro leads_modify r_into_rtranclp am_step.reads am_read.by_sleep)
  have "leads (am_step env) (confirm_when_due env h)"
    unfolding confirm_when_due_def Let_def by (auto intro!: am_leads wait confirm_leads assms)
  then show ?thesis unfolding assertionConfirmed_def by (auto intro!: am_leads split: sum.splits)
qed

lemma confirmation_loop_leads: "mode_at_least env ResolveMode \<Longrightarrow> leads (am_step env) (confirmation_loop env h ws)"
  by (induction env h ws rule: confirmation_loop.induct) (auto intro!: am_leads assertionConfirmed_leads)

lemma keepTryingAssertionConfirmation_leads: "leads (am_step env) (keepTryingAssertionConfirmation env h ws)"
  unfolding keepTryingAssertionConfirmation_def
  by (auto intro!: am_leads confirmation_loop_leads simp: getM_def mode_at_least_def not_less) blast

lemma run_task_leads: "leads (am_step env) (run_task env t ws)"
  by (cases t) (auto intro: postAssertionRoutine_leads keepTryingAssertionConfirmation_leads leads_retryA ProcessAssertionCreationEvent_leads)

lemma created_loop_leads: "leads (am_step env) (created_loop b es)"
  by (induction b es rule: created_loop.induct) (auto intro!: am_leads split: option.splits)

lemma checkForAssertionAdded_leads: "leads (am_step env) (checkForAssertionAdded env a b)"
  unfolding checkForAssertionAdded_def by (intro am_leads created_loop_leads)

subsection \<open>Reachable states\<close>

text \<open>
  The tasks run in any order, each over any wake-ups, between the scans; the rest of the validator and the chain change the
  world in between.
\<close>

inductive am_reach :: "('w, 'h::zero, 'a) AssertionEnv \<Rightarrow> ('w, 'h) AssertionManager \<Rightarrow> bool" for env where
  init: "NewManager w name poll confirm post average = Inr s \<Longrightarrow> am_reach env s"
| task: "am_reach env s \<Longrightarrow> t \<in> set (am_tasks s) \<Longrightarrow> run_task env t ws s = Some (r, s') \<Longrightarrow> am_reach env s'"
| scan: "am_reach env s \<Longrightarrow> am_first_scan env s = Some (r1, s') \<Longrightarrow> am_reach env s'"
| tick: "am_reach env s \<Longrightarrow> am_tick env fr s = Some (r2, s') \<Longrightarrow> am_reach env s'"
| others: "am_reach env s \<Longrightarrow> am_reach env (s\<lparr>am_world := w\<rparr>)"

lemma am_first_scan_leads: "leads (am_step env) (am_first_scan env)"
  unfolding am_first_scan_def by (intro am_leads checkForAssertionAdded_leads)

lemma am_tick_leads: "leads (am_step env) (am_tick env fr)"
  unfolding am_tick_def Let_def by (auto intro!: am_leads checkForAssertionAdded_leads split: sum.splits)

definition am_ok :: "('w, 'h, 'a) AssertionEnv \<Rightarrow> ('w, 'h) AssertionManager \<Rightarrow> bool" where
  "am_ok env s \<longleftrightarrow> (\<forall>h. Set_Has (submittedAssertions s) h \<longrightarrow> own_assertion env h)"

lemma am_step_ok: "am_ok env s \<Longrightarrow> am_step env s s' \<Longrightarrow> am_ok env s'"
  by (erule am_step.cases) (auto simp: am_ok_def Set_Has_def Set_Insert_def update_conv' split: if_splits)

lemma leads_ok: "leads (am_step env) m \<Longrightarrow> m s = Some (r, s') \<Longrightarrow> am_ok env s \<Longrightarrow> am_ok env s'"
  by (rule steps_keep [OF leadsD]) (assumption | erule (1) am_step_ok)+

lemma am_reach_ok: "am_reach env s \<Longrightarrow> am_ok env s"
proof (induction rule: am_reach.induct)
  case (init w name poll confirm post average s)
  then show ?case by (auto simp: am_ok_def NewManager_def Set_Has_def NewSet_def split: if_splits)
next
  case (others s w)
  then show ?case by (simp add: am_ok_def)
qed (auto intro: leads_ok [OF run_task_leads] leads_ok [OF am_first_scan_leads] leads_ok [OF am_tick_leads])

subsection \<open>Scans\<close>

definition queued :: "('w, 'h) AssertionManager \<Rightarrow> uint64 option \<Rightarrow> 'h events \<Rightarrow> bool" where
  "queued s b es \<longleftrightarrow>
     (if None \<in> set es then b \<noteq> None
      else \<forall>h. Some h \<in> set es \<longrightarrow> {KeepConfirming h, ProcessCreation h} \<subseteq> set (am_tasks s))"

definition announced ::
    "('w, 'h, 'a) AssertionEnv \<Rightarrow> ('w, 'h) AssertionManager \<Rightarrow> uint64 \<Rightarrow> uint64 option \<Rightarrow> bool" where
  "announced env s a b \<longleftrightarrow> (\<exists>w es w'. AM_FilterAssertionCreated env a b w = (Inr es, w') \<and> queued s b es)"

lemma am_step_tasks: "am_step env s s' \<Longrightarrow> set (am_tasks s) \<subseteq> set (am_tasks s')"
  by (erule am_step.cases) auto

lemma am_steps_tasks: "(am_step env)\<^sup>*\<^sup>* s s' \<Longrightarrow> set (am_tasks s) \<subseteq> set (am_tasks s')"
  by (induction rule: rtranclp_induct) (auto dest!: am_step_tasks)

lemma leads_tasks: "leads (am_step env) m \<Longrightarrow> m s = Some (r, s') \<Longrightarrow> set (am_tasks s) \<subseteq> set (am_tasks s')"
  by (rule am_steps_tasks [OF leadsD])

lemma queued_mono: "queued s b es \<Longrightarrow> set (am_tasks s) \<subseteq> set (am_tasks s') \<Longrightarrow> queued s' b es"
  by (auto simp: queued_def)

lemma announced_mono: "announced env s a b \<Longrightarrow> set (am_tasks s) \<subseteq> set (am_tasks s') \<Longrightarrow> announced env s' a b"
  unfolding announced_def by (auto intro: queued_mono)

lemma go_task_Some: "go_task t s = Some (r, s') \<longleftrightarrow> r = Inr () \<and> s' = s\<lparr>am_tasks := am_tasks s @ [t]\<rparr>"
  by (auto simp: go_task_def modifyM_def)

lemma created_loop_tasks:
  assumes "created_loop b es s = Some (Inr u, s')"
  shows "set (am_tasks s) \<subseteq> set (am_tasks s') \<and> queued s' b es"
  using assms
proof (induction b es arbitrary: s rule: created_loop.induct)
  case (3 b h es)
  from 3(2) have "created_loop b es (s\<lparr>am_tasks := am_tasks s @ [KeepConfirming h, ProcessCreation h]\<rparr>) = Some (Inr u, s')"
    by (auto elim!: bindO_Inr_E simp: go_task_Some)
  from 3(1) [OF this] show ?case by (auto simp: queued_def)
qed (auto simp: queued_def split: option.splits)

lemma checkForAssertionAdded_announced:
  assumes "checkForAssertionAdded env a b s = Some (Inr u, s')"
  shows "announced env s' a b"
proof -
  from assms obtain es s1 where "on_a (AM_FilterAssertionCreated env a b) s = Some (Inr es, s1)" "created_loop b es s1 = Some (Inr u, s')"
    unfolding checkForAssertionAdded_def by (elim bindO_Inr_E)
  with created_loop_tasks [of b es s1 u s'] show ?thesis unfolding announced_def on_a_Some by blast
qed

lemma retry_announced: "retryA env (checkForAssertionAdded env a b) opts s = Some (Inr u, s') \<Longrightarrow> announced env s' a b"
  unfolding retryA_def by (auto dest!: retry_Inr intro: checkForAssertionAdded_announced)

lemma am_tick_announced:
  assumes "am_tick env fr s = Some (Inr (Some to), s')"
  shows "to = fr \<or> announced env s' fr (Some to)"
  using assms unfolding am_tick_def Let_def
  by (auto elim!: bindO_Inr_E dest!: tryO_Inr retry_announced split: sum.splits if_splits)

lemma am_loop_announced:
  assumes "am_loop env ws fr s = Some (Watching to, s')"
  shows "(\<lambda>a b. announced env s' a (Some b))\<^sup>*\<^sup>* fr to \<and> set (am_tasks s) \<subseteq> set (am_tasks s')"
  using assms
proof (induction env ws fr s rule: am_loop.induct)
  case (3 env ws fr s)
  from 3(2) obtain mid s1 where tick: "am_tick env fr s = Some (Inr (Some mid), s1)" and rest: "am_loop env ws mid s1 = Some (Watching to, s')"
    by (auto split: option.splits sum.splits)
  from 3(1) [OF tick refl refl refl rest] have later: "(\<lambda>a b. announced env s' a (Some b))\<^sup>*\<^sup>* mid to" "set (am_tasks s1) \<subseteq> set (am_tasks s')"
    by auto
  then have "mid = fr \<or> announced env s' fr (Some mid)" using am_tick_announced [OF tick] announced_mono [of env s1 fr _ s'] by blast
  with later leads_tasks [OF am_tick_leads tick] show ?case by (auto intro: converse_rtranclp_into_rtranclp)
qed auto


subsection \<open>A chain that stands still\<close>

text \<open>
  The chain and the state provider while no block arrives: every assertion has its creation, the provider agrees or not, and
  reads change nothing.
\<close>

definition steady :: "('w, 'h, 'a) AssertionEnv \<Rightarrow> ('h \<Rightarrow> ('h, 'a) AssertionCreatedInfo) \<Rightarrow> ('h \<Rightarrow> bool) \<Rightarrow> 'h \<Rightarrow> bool" where
  "steady env info agrees confirmed \<longleftrightarrow>
     (\<forall>w. AM_LatestConfirmed env w = (Inr confirmed, w)) \<and>
     (\<forall>h w. AM_ReadAssertionCreationInfo env h w = (Inr (info h), w)) \<and>
     (\<forall>h w. AM_AgreesWithExecutionState env (GoExecutionStateFromSolidity (AfterState (info h))) w =
        (if agrees h then Inr () else Inl ErrNoExecutionState, w))"

lemma steady_reads:
  assumes "steady env info agrees confirmed"
  shows "on_a (AM_LatestConfirmed env) s = Some (Inr confirmed, s)" "on_a (AM_ReadAssertionCreationInfo env h) s = Some (Inr (info h), s)"
    "on_a (AM_AgreesWithExecutionState env (GoExecutionStateFromSolidity (AfterState (info h)))) s =
       Some (if agrees h then Inr () else Inl ErrNoExecutionState, s)"
  using assms by (auto simp: steady_def on_a_def)

definition parent_of :: "('h \<Rightarrow> ('h, 'a) AssertionCreatedInfo) \<Rightarrow> 'h \<Rightarrow> 'h" where
  "parent_of info h = ParentAssertionHash (info h)"

text \<open>The closest ancestor, \<open>k\<close> steps up, that the provider agrees with or that is the latest confirmed one.\<close>

definition last_agreed :: "('h \<Rightarrow> ('h, 'a) AssertionCreatedInfo) \<Rightarrow> ('h \<Rightarrow> bool) \<Rightarrow> 'h \<Rightarrow> 'h \<Rightarrow> nat \<Rightarrow> bool" where
  "last_agreed info agrees confirmed cursor k \<longleftrightarrow>
     (let stop = (\<lambda>j. (parent_of info ^^ j) cursor = confirmed \<or> agrees ((parent_of info ^^ j) cursor)) in stop k \<and> (\<forall>j<k. \<not> stop j))"

lemma last_agreed_0 [simp]: "last_agreed info agrees confirmed cursor 0 \<longleftrightarrow> cursor = confirmed \<or> agrees cursor"
  by (simp add: last_agreed_def)

lemma last_agreed_Suc [simp]:
  "last_agreed info agrees confirmed cursor (Suc k) \<longleftrightarrow>
     cursor \<noteq> confirmed \<and> \<not> agrees cursor \<and> last_agreed info agrees confirmed (parent_of info cursor) k"
  unfolding last_agreed_def Let_def by (simp add: funpow_swap1 All_less_Suc2) blast

lemma ancestor_loop_steady:
  assumes "steady env info agrees confirmed" "last_agreed info agrees confirmed cursor k"
  shows "ancestor_loop env confirmed (info confirmed) cursor s = Some (Inr (info ((parent_of info ^^ k) cursor)), s)"
  using assms(2)
proof (induction k arbitrary: cursor)
  case 0
  then show ?case by (auto simp: ancestor_loop.simps [of env confirmed _ cursor] steady_reads [OF assms(1)])
next
  case (Suc k)
  then have "ancestor_loop env confirmed (info confirmed) cursor s = ancestor_loop env confirmed (info confirmed) (parent_of info cursor) s"
    by (simp add: ancestor_loop.simps [of env confirmed _ cursor] steady_reads [OF assms(1)] parent_of_def)
  with Suc show ?case by (simp add: funpow_swap1)
qed

lemma last_agreed_exists:
  assumes "(parent_of info ^^ n) cursor = confirmed"
  shows "\<exists>k\<le>n. last_agreed info agrees confirmed cursor k"
  using assms
proof (induction n arbitrary: cursor)
  case (Suc n)
  show ?case
  proof (cases "cursor = confirmed \<or> agrees cursor")
    case True
    then show ?thesis by (intro exI [of _ 0]) simp
  next
    case False
    from Suc.prems have "(parent_of info ^^ n) (parent_of info cursor) = confirmed" by (simp add: funpow_swap1)
    from Suc.IH [OF this] obtain k where "k \<le> n" "last_agreed info agrees confirmed (parent_of info cursor) k" by blast
    with False show ?thesis by (intro exI [of _ "Suc k"]) simp
  qed
qed simp

lemma latest_valid_loop_steady:
  assumes "steady env info agrees confirmed"
  shows "latest_valid_loop env hs s = Some (Inr (case filter agrees hs of [] \<Rightarrow> confirmed | h # _ \<Rightarrow> h), s)"
  by (induction hs) (auto simp: steady_reads [OF assms] bindO_def tryO_def returnO_def)

text \<open>
  The interfaces also accept what the manager sends: a stake on parent \<open>p\<close> creates \<open>rival p\<close>, \<open>posted p\<close> is its effect on the world
  and \<open>opened h\<close> that of a challenge. The node knows the state after every batch; mode and delay do not change.
\<close>

definition accepting ::
    "('w, 'h, 'a) AssertionEnv \<Rightarrow> (('h, 'a) AssertionCreatedInfo \<Rightarrow> 'h) \<Rightarrow> (('h, 'a) AssertionCreatedInfo \<Rightarrow> 'w \<Rightarrow> 'w) \<Rightarrow>
     ('h \<Rightarrow> 'w \<Rightarrow> 'w) \<Rightarrow> bool" where
  "accepting env rival posted opened \<longleftrightarrow>
     (\<forall>w. \<exists>b. AM_IsStaked env w = (Inr b, w)) \<and>
     (\<forall>n w. \<exists>st. AM_ExecutionStateAfterBatchCount env n w = (Inr st, w)) \<and>
     (\<forall>p st w. AM_StakeOnNewAssertion env p st w = (Inr (rival p), posted p w) \<and>
        AM_NewStakeOnNewAssertion env p st w = (Inr (rival p), posted p w)) \<and>
     (\<forall>h w. AM_ChallengeAssertion env h w = Some (Inr (), opened h w)) \<and>
     (\<forall>n w. \<exists>k. AM_rand env n w = (Inr k, w) \<and> IsUint64 k) \<and>
     (\<forall>w. AM_SpecChallengeManager env w = (Inr (), w)) \<and> (\<forall>w. \<exists>n. AM_NumBigSteps env w = (Inr n, w)) \<and>
     (\<forall>w. \<exists>n. AM_ChallengePeriodBlocks env w = (Inr n, w)) \<and> (\<forall>w. \<exists>hs. AM_LayerZeroHeights env w = (Inr hs, w)) \<and>
     (\<forall>w. Mode_value (AM_Mode env w) \<ge> Mode_value DefensiveMode)"

lemma bindO_Inr: "m s = Some (Inr x, s') \<Longrightarrow> bindO m k s = k x s'"
  by (simp add: bindO_def)

lemma on_a_eq: "f (am_world s) = (r, w) \<Longrightarrow> on_a f s = Some (r, s\<lparr>am_world := w\<rparr>)"
  by (simp add: on_a_def)

lemma post_on_parent_accepted:
  assumes "accepting env rival posted opened" "InboxMaxCount p < 2 ^ 64"
  shows "post_on_parent env p s =
    Some (Inr (Some (rival p)), s\<lparr>am_world := posted p (am_world s), submittedAssertions := Set_Insert (rival p) (submittedAssertions s)\<rparr>)"
proof -
  obtain b where b: "AM_IsStaked env (am_world s) = (Inr b, am_world s)" using assms(1) unfolding accepting_def by blast
  obtain st where st: "AM_ExecutionStateAfterBatchCount env (of_nat (InboxMaxCount p)) (am_world s) = (Inr st, am_world s)"
    using assms(1) unfolding accepting_def by blast
  have f: "(if b then AM_StakeOnNewAssertion env else AM_NewStakeOnNewAssertion env) p st (am_world s) = (Inr (rival p), posted p (am_world s))"
    using assms(1) by (auto simp: accepting_def)
  show ?thesis
    using assms(2) f unfolding post_on_parent_def PostAssertionBasedOnParent_def
    by (simp add: bindO_def on_a_def b st tryO_def returnO_def ofM_def modifyM_def IsUint64_def del: of_nat_numeral)
qed

lemma delay_accepted:
  assumes "accepting env rival posted opened"
  shows "\<exists>d. delay_challenge env s = Some (Inr (), s\<lparr>am_world := AM_Sleep env d (am_world s)\<rparr>)"
proof -
  have "\<exists>k. AM_rand env n w = (Inr k, w) \<and> IsUint64 k" for n w using assms unfolding accepting_def by blast
  then obtain k where "AM_rand env (of_int (if AM_MaxDelaySeconds env (am_world s) > 1 then AM_MaxDelaySeconds env (am_world s) else 1))
      (am_world s) = (Inr k, am_world s)" "IsUint64 k"
    by blast
  then show ?thesis
    unfolding delay_challenge_def randUint64_def
    by (simp add: bindO_def ofM_def getM_def modifyM_def on_a_def returnO_def) blast
qed

lemma log_accepted:
  assumes "accepting env rival posted opened"
  shows "tryO (logChallengeConfigs env) s = Some (Inr (Inr ()), s)"
proof -
  obtain n m hs where "AM_SpecChallengeManager env (am_world s) = (Inr (), am_world s)" "AM_NumBigSteps env (am_world s) = (Inr n, am_world s)"
    "AM_ChallengePeriodBlocks env (am_world s) = (Inr m, am_world s)" "AM_LayerZeroHeights env (am_world s) = (Inr hs, am_world s)"
    using assms unfolding accepting_def by blast
  then show ?thesis by (simp add: logChallengeConfigs_def tryO_def bindO_def on_a_def returnO_def)
qed

lemma rival_accepted:
  assumes "steady env info agrees confirmed" "accepting env rival posted opened" "\<And>h. InboxMaxCount (info h) < 2 ^ 64"
    "last_agreed info agrees confirmed (parent_of info h) k" "p = info ((parent_of info ^^ k) (parent_of info h))"
  shows "\<exists>d. postRivalAssertionAndChallenge env (info h) s =
    Some (Inr (), s\<lparr>am_world := opened (rival p) (AM_Sleep env d (posted p (am_world s))),
      submittedAssertions := Set_Insert (rival p) (submittedAssertions s), challengesSubmittedCount := challengesSubmittedCount s + 1\<rparr>)"
proof -
  have find: "findLastAgreedWithAncestor env (info h) s = Some (Inr p, s)"
    using ancestor_loop_steady [OF assms(1,4)] assms(5)
    by (simp add: findLastAgreedWithAncestor_def bindO_def steady_reads [OF assms(1)] parent_of_def)
  have post: "maybePostRivalAssertion env (info h) s = post_on_parent env p s"
    by (simp add: maybePostRivalAssertion_def bindO_def find)
  have mode: "canPostRivalAssertion env t" "canPostChallenge env t" for t
    using assms(2) by (auto simp: canPostRivalAssertion_def canPostChallenge_def accepting_def)
  have count: "InboxMaxCount p < 2 ^ 64" "IsUint64 (int (InboxMaxCount (info h)))"
    using assms(3) [of h] assms(3) assms(5) by (auto simp: IsUint64_def)
  have chal: "AM_ChallengeAssertion env g w = Some (Inr (), opened g w)" for g w
    using assms(2) by (auto simp: accepting_def)
  let ?t = "s\<lparr>am_world := posted p (am_world s), submittedAssertions := Set_Insert (rival p) (submittedAssertions s)\<rparr>"
  obtain d where d: "delay_challenge env ?t = Some (Inr (), ?t\<lparr>am_world := AM_Sleep env d (am_world ?t)\<rparr>)"
    using delay_accepted [OF assms(2)] by blast
  have "postRivalAssertionAndChallenge env (info h) s = Some (Inr (),
      ?t\<lparr>am_world := opened (rival p) (AM_Sleep env d (am_world ?t)), challengesSubmittedCount := challengesSubmittedCount ?t + 1\<rparr>)"
    using d by (simp add: postRivalAssertionAndChallenge_def bindO_def count post post_on_parent_accepted [OF assms(2) count(1)] mode
        ofM_def getM_def on_ao_def chal log_accepted [OF assms(2)] modifyM_def)
  also have "?t\<lparr>am_world := opened (rival p) (AM_Sleep env d (am_world ?t)), challengesSubmittedCount := challengesSubmittedCount ?t + 1\<rparr> =
      s\<lparr>am_world := opened (rival p) (AM_Sleep env d (posted p (am_world s))),
        submittedAssertions := Set_Insert (rival p) (submittedAssertions s), challengesSubmittedCount := challengesSubmittedCount s + 1\<rparr>"
    by (cases s) simp
  finally show ?thesis by blast
qed

subsection \<open>An example\<close>

text \<open>
  Assertion 1 is confirmed, assertion 3 is a wrong child of it, and assertion 2 is the right one, which the validator posts. The
  world is the list of the transactions.
\<close>

definition probe_info :: "nat \<Rightarrow> (nat, unit) AssertionCreatedInfo" where
  "probe_info h =
     \<lparr>ConfirmPeriodBlocks = 10, RequiredStake = 1, ParentAssertionHash = (if h = 3 then 1 else 0),
      BeforeState = \<lparr>sol_GlobalState = \<lparr>Bytes32Vals = (0, 0), U64Vals = (0, 0)\<rparr>, sol_MachineStatus = 1\<rparr>,
      AfterState = \<lparr>sol_GlobalState = \<lparr>Bytes32Vals = (h, 0), U64Vals = (1, 0)\<rparr>, sol_MachineStatus = 1\<rparr>,
      InboxMaxCount = 5, AfterInboxBatchAcc = 0, AssertionHash = h, WasmModuleRoot = 0, ChallengeManager = (),
      TransactionHash = 0, CreationBlock = 4\<rparr>"

definition probe_chain :: "Mode \<Rightarrow> ((string \<times> nat) list, nat, unit) AssertionEnv" where
  "probe_chain mode =
     \<lparr>AM_LatestConfirmed = returnM 1, AM_CreatedAtBlock = (\<lambda>h. returnM 4), AM_ReadAssertionCreationInfo = (\<lambda>h. returnM (probe_info h)),
      AM_LatestCreatedAssertionHashes = returnM [3], AM_AssertionStatus = (\<lambda>h. returnM AssertionPending), AM_IsStaked = returnM False,
      AM_StakeOnNewAssertion = (\<lambda>p st w. (Inr 2, w @ [(''stake'', AssertionHash p)])),
      AM_NewStakeOnNewAssertion = (\<lambda>p st w. (Inr 2, w @ [(''stake'', AssertionHash p)])),
      AM_ConfirmAssertionByTime = (\<lambda>h w. (Inr (), w @ [(''confirm'', h)])), AM_SpecChallengeManager = returnM (),
      AM_NumBigSteps = returnM 1, AM_ChallengePeriodBlocks = returnM 10,
      AM_LayerZeroHeights = returnM \<lparr>lz_BlockChallengeHeight = 32, lz_BigStepChallengeHeight = 32, lz_SmallStepChallengeHeight = 32\<rparr>,
      AM_HeaderByNumber = returnM 9, AM_NewRollupUserLogicFilterer = returnM (),
      AM_FilterAssertionCreated = (\<lambda>a b. returnM [Some 3]),
      AM_AgreesWithExecutionState = (\<lambda>st w. (if BlockHash (GlobalState st) = 3 then Inl ErrNoExecutionState else Inr (), w)),
      AM_ExecutionStateAfterBatchCount = (\<lambda>n. returnM (GoExecutionStateFromSolidity (AfterState (probe_info 2)))),
      AM_Mode = (\<lambda>w. mode), AM_MaxDelaySeconds = (\<lambda>w. 2), AM_ChallengeAssertion = (\<lambda>h w. Some (Inr (), w @ [(''challenge'', h)])),
      AM_rand = (\<lambda>n. returnM 1), AM_ctx_err = (\<lambda>w. None), AM_Sleep = (\<lambda>d w. w)\<rparr>"

definition probe_manager :: "((string \<times> nat) list, nat) AssertionManager" where
  "probe_manager =
     \<lparr>am_world = [], pollInterval = 1, confirmationAttemptInterval = 1, am_averageTimeForBlockCreation = 1, am_validatorName = ''a'',
      forksDetectedCount = 0, challengesSubmittedCount = 0, assertionsProcessedCount = 0, postInterval = 1, submittedAssertions = [],
      am_tasks = []\<rparr>"

lemma probe_manager_new: "NewManager [] ''a'' 1 1 1 1 = Inr probe_manager"
  by (simp add: NewManager_def probe_manager_def NewSet_def)

lemma probe_steady: "steady (probe_chain mode) probe_info (\<lambda>h. h \<noteq> 3) 1"
  by (simp add: steady_def probe_chain_def probe_info_def returnM_def GoExecutionStateFromSolidity_def GoGlobalStateFromSolidity_def)

lemma probe_accepting:
  "accepting (probe_chain MakeMode) (\<lambda>p. 2) (\<lambda>p w. w @ [(''stake'', AssertionHash p)]) (\<lambda>h w. w @ [(''challenge'', h)])"
  by (auto simp: accepting_def probe_chain_def returnM_def IsUint64_def)

lemma probe_start:
  "case am_Start (probe_chain MakeMode) [Tick] probe_manager of
     Some (Watching to, s) \<Rightarrow> to = 9 \<and> ProcessCreation 3 \<in> set (am_tasks s) | _ \<Rightarrow> False"
  by code_simp

definition succeeds :: "('a res \<times> 's) option \<Rightarrow> ('a \<Rightarrow> 's \<Rightarrow> bool) \<Rightarrow> bool" where
  "succeeds out P \<longleftrightarrow> (case out of Some (Inr x, s) \<Rightarrow> P x s | _ \<Rightarrow> False)"

lemma succeedsD: "succeeds out P \<Longrightarrow> \<exists>x s. out = Some (Inr x, s) \<and> P x s"
  by (auto simp: succeeds_def split: option.split_asm prod.split_asm old.sum.split_asm)

lemma probe_scan:
  "succeeds (am_first_scan (probe_chain MakeMode) probe_manager) (\<lambda>fr s. ProcessCreation 3 \<in> set (am_tasks s) \<and>
     succeeds (run_task (probe_chain MakeMode) (ProcessCreation 3) [] s) (\<lambda>_ s'.
       am_world s' = [(''stake'', 1), (''challenge'', 2)] \<and> Set_Has (submittedAssertions s') 2))"
  by code_simp

lemma probe_answer:
  obtains s s' fr where "am_first_scan (probe_chain MakeMode) probe_manager = Some (Inr fr, s)" "ProcessCreation 3 \<in> set (am_tasks s)"
    "run_task (probe_chain MakeMode) (ProcessCreation 3) [] s = Some (Inr (), s')" "am_world s' = [(''stake'', 1), (''challenge'', 2)]"
    "Set_Has (submittedAssertions s') 2"
  using succeedsD [OF probe_scan] by (auto dest!: succeedsD simp del: run_task.simps)

lemma probe_watch:
  "succeeds (run_task (probe_chain WatchTowerMode) (ProcessCreation 3) [] probe_manager)
     (\<lambda>_ s'. am_world s' = [] \<and> assertionsProcessedCount s' = 1)"
  by code_simp

subsection \<open>Properties\<close>





text \<open>C39. A watchtower sends no transaction: every task only reads, and no assertion or challenge of its own comes to exist.\<close>

theorem watchtower_sends_nothing:
  assumes "\<And>w. AM_Mode env w = WatchTowerMode" "run_task env t ws s = Some (r, s')"
  shows "(am_read env)\<^sup>*\<^sup>* (am_world s) (am_world s') \<and> submittedAssertions s' = submittedAssertions s"
proof -
  have none: "\<not> mode_at_least env ResolveMode" "\<not> mode_at_least env DefensiveMode" "\<not> may_stake env" "\<not> own_assertion env h" for h
    using assms(1) by (auto simp: mode_at_least_def may_stake_def own_assertion_def)
  have "(am_step env)\<^sup>*\<^sup>* s s'" by (rule leadsD [OF run_task_leads assms(2)])
  then show ?thesis
    by (induction rule: rtranclp_induct) (auto simp: none elim!: am_step.cases intro: rtranclp.rtrancl_into_rtrancl)
qed

theorem watchtower_sends_nothing_witness:
  "\<exists>s'. run_task (probe_chain WatchTowerMode) (ProcessCreation 3) [] probe_manager = Some (Inr (), s') \<and> assertionsProcessedCount s' = 1 \<and>
     (am_read (probe_chain WatchTowerMode))\<^sup>*\<^sup>* (am_world probe_manager) (am_world s') \<and> submittedAssertions s' = submittedAssertions probe_manager"
proof -
  obtain s' where s': "run_task (probe_chain WatchTowerMode) (ProcessCreation 3) [] probe_manager = Some (Inr (), s')" "assertionsProcessedCount s' = 1"
    using succeedsD [OF probe_watch] by auto
  have "AM_Mode (probe_chain WatchTowerMode) w = WatchTowerMode" for w by (simp add: probe_chain_def)
  from watchtower_sends_nothing [OF this s'(1)] s' show ?thesis by blast
qed



text \<open>
  C40. The assertion manager misses no assertion: as long as it runs, the ranges it has scanned join the block at which the latest
  confirmed assertion was created to the block its next scan starts from, after a first scan of everything since, and each
  assertion whose creation was reported in them has its task that confirms it and its task that processes it. Only a range whose
  event iterator reported an error is excepted.
\<close>

theorem assertion_scans_leave_no_gap:
  assumes "am_Start env ws s = Some (Watching to, s')"
  shows "\<exists>h fr w w'. latest_confirmed env h \<and> AM_CreatedAtBlock env h w = (Inr fr, w') \<and> announced env s' fr None \<and>
    (\<lambda>a b. announced env s' a (Some b))\<^sup>*\<^sup>* fr to"
proof -
  from assms obtain fr s1 where fr: "am_first_scan env s = Some (Inr fr, s1)" and loop: "am_loop env ws fr s1 = Some (Watching to, s')"
    by (auto simp: am_Start_def split: option.splits sum.splits if_splits)
  from fr obtain h w w' where h: "latest_confirmed env h" "AM_CreatedAtBlock env h w = (Inr fr, w')" and "announced env s1 fr None"
    unfolding am_first_scan_def
    by (elim bindO_Inr_E) (auto dest!: retry_announced simp: latest_confirmed_def on_a_Some; blast)
  with am_loop_announced [OF loop] announced_mono [of env s1 fr None s'] show ?thesis by blast
qed

theorem assertion_scans_leave_no_gap_witness:
  "\<exists>s'. am_Start (probe_chain MakeMode) [Tick] probe_manager = Some (Watching 9, s') \<and> ProcessCreation 3 \<in> set (am_tasks s') \<and>
    (\<exists>h fr w w'. latest_confirmed (probe_chain MakeMode) h \<and> AM_CreatedAtBlock (probe_chain MakeMode) h w = (Inr fr, w') \<and>
       announced (probe_chain MakeMode) s' fr None \<and> (\<lambda>a b. announced (probe_chain MakeMode) s' a (Some b))\<^sup>*\<^sup>* fr 9)"
proof -
  obtain s' where "am_Start (probe_chain MakeMode) [Tick] probe_manager = Some (Watching 9, s')" "ProcessCreation 3 \<in> set (am_tasks s')"
    using probe_start by (auto split: option.split_asm prod.split_asm watching.split_asm)
  then show ?thesis using assertion_scans_leave_no_gap by blast
qed

end
