(* ===== verification/Rollup.thy ===== *)
theory Rollup
  imports Edge_Manager_Contract
begin

text \<open>
  The rollup contract: \<^verbatim>\<open>contracts/src/rollup/Assertion.sol\<close>, \<^verbatim>\<open>RollupLib.sol\<close>, \<^verbatim>\<open>RollupCore.sol\<close>, \<^verbatim>\<open>RollupUserLogic.sol\<close> and
  \<^verbatim>\<open>RollupAdminLogic.sol\<close>, with \<^verbatim>\<open>state/GlobalState.sol\<close>. It keeps the tree of assertions, the stakes on them and the latest confirmed
  one. The bridge, the outbox, the challenge manager, the stake token and the precompiles of a host chain are called through the
  context of a call. The proxy delegates the calls of its admin to the admin logic and all others to the user logic.
\<close>

subsection \<open>Data\<close>

text \<open>The enum \<^verbatim>\<open>AssertionStatus\<close> has the constructors of the validator's type of that name.\<close>

record 'h AssertionNode =
  firstChildBlock :: uint64
  secondChildBlock :: uint64
  createdAtBlock :: uint64
  node_isFirstChild :: bool
  node_status :: AssertionStatus
  configHash :: 'h

definition no_assertion :: "'h::zero AssertionNode" where
  "no_assertion =
     \<lparr>firstChildBlock = 0, secondChildBlock = 0, createdAtBlock = 0, node_isFirstChild = False, node_status = NoAssertion,
      configHash = 0\<rparr>"

record 'h BeforeStateData =
  prevPrevAssertionHash :: 'h
  sequencerBatchAcc :: 'h
  configData :: "'h ConfigData"

record 'h AssertionInputs =
  beforeStateData :: "'h BeforeStateData"
  in_beforeState :: "'h SolExecutionState"
  in_afterState :: "'h SolExecutionState"

record 'h Staker =
  st_amountStaked :: uint256
  st_latestStakedAssertion :: 'h
  st_index :: uint64
  st_isStaked :: bool

definition no_staker :: "'h::zero Staker" where
  "no_staker = \<lparr>st_amountStaked = 0, st_latestStakedAssertion = 0, st_index = 0, st_isStaked = False\<rparr>"

datatype 'h rollup_event =
    RollupInitialized 'h uint256
  | AssertionCreated 'h 'h "'h AssertionInputs" 'h uint256 'h uint256 address uint64
  | AssertionConfirmedEvent 'h 'h 'h
  | UserStakeUpdated address uint256 uint256
  | UserWithdrawableFundsUpdated address uint256 uint256
  | OwnerFunctionCalled uint256

record ('h, 't) Rollup =
  chainId :: uint256
  r_confirmPeriodBlocks :: uint64
  baseStake :: uint256
  r_wasmModuleRoot :: 'h
  r_challengeManager :: address
  challengeGracePeriodBlocks :: uint64
  r_inbox :: address
  r_bridge :: address
  r_outbox :: address
  rollupEventInbox :: address
  validatorWalletCreator :: address
  loserStakeEscrow :: address
  r_stakeToken :: address
  minimumAssertionPeriod :: uint256
  isValidator :: "address \<Rightarrow> bool"
  latestConfirmed :: 'h
  assertions :: "'h \<Rightarrow> 'h AssertionNode"
  stakerList :: "address list"
  stakerMap :: "address \<Rightarrow> 'h Staker"
  r_withdrawableFunds :: "address \<Rightarrow> uint256"
  totalWithdrawableFunds :: uint256
  rollupDeploymentBlock :: uint256
  validatorWhitelistDisabled :: bool
  anyTrustFastConfirmer :: address
  assertionCreatedAtArbSysBlock :: "'h \<Rightarrow> uint256"
  r_paused :: bool
  r_initialized :: bool
  r_admin :: address
  r_tokens :: 't
  r_logs :: "'h rollup_event list"

text \<open>
  The context of a call: the bridge as the call sees it, the outbox, the challenge manager at an address, the token, and the
  immutable values the logic contract was deployed with.
\<close>

record ('h, 't) rollup_ctx = "'h block_ctx" +
  r_this :: address
  block_chainid :: uint256
  deployTimeChainId :: uint256
  hostChainIsArbitrum :: bool
  arbBlockNumber :: "'h revert + uint256"
  sequencerMessageCount :: "'h revert + uint256"
  sequencerInboxAccs :: "uint256 \<Rightarrow> 'h revert + 'h"
  updateSendRoot :: "'h \<Rightarrow> 'h \<Rightarrow> 'h revert + unit"
  manager_getEdge :: "address \<Rightarrow> 'h \<Rightarrow> 'h revert + 'h ChallengeEdge"
  r_transferFrom :: "address \<Rightarrow> address \<Rightarrow> uint256 \<Rightarrow> 't \<Rightarrow> 'h revert + 't"
  r_transfer :: "address \<Rightarrow> address \<Rightarrow> uint256 \<Rightarrow> 't \<Rightarrow> 'h revert + 't"
  bridge_setDelayedInbox :: "address \<Rightarrow> bool \<Rightarrow> 'h revert + unit"
  bridge_setSequencerInbox :: "address \<Rightarrow> 'h revert + unit"
  bridge_setOutbox :: "address \<Rightarrow> bool \<Rightarrow> 'h revert + unit"
  bridge_allowedDelayedInboxes :: "address \<Rightarrow> 'h revert + bool"
  eventInbox_rollupInitialized :: "uint256 \<Rightarrow> string \<Rightarrow> 'h revert + unit"
  sequencerInbox_totalDelayedMessagesRead :: "'h revert + uint256"
  sequencerInbox_addSequencerL2Batch :: "'h revert + unit"
  proxy_changeAdmin :: "address \<Rightarrow> 'h revert + unit"

definition emit_r :: "'h rollup_event \<Rightarrow> ('h, 't) Rollup \<Rightarrow> ('h, 't) Rollup" where
  "emit_r e s = s\<lparr>r_logs := r_logs s @ [e]\<rparr>"

subsection \<open>Hashes\<close>

definition GlobalState_hash :: "('h packed list \<Rightarrow> 'h) \<Rightarrow> 'h SolGlobalState \<Rightarrow> 'h" where
  "GlobalState_hash keccak g =
     keccak [Text ''Global state:'', Bytes32 (fst (Bytes32Vals g)), Bytes32 (snd (Bytes32Vals g)), Uint64 (fst (U64Vals g)),
       Uint64 (snd (U64Vals g))]"

definition getBlockHash :: "'h SolGlobalState \<Rightarrow> 'h" where "getBlockHash g = fst (Bytes32Vals g)"

definition getSendRoot :: "'h SolGlobalState \<Rightarrow> 'h" where "getSendRoot g = snd (Bytes32Vals g)"

definition getInboxPosition :: "'h SolGlobalState \<Rightarrow> uint64" where "getInboxPosition g = fst (U64Vals g)"

definition getPositionInMessage :: "'h SolGlobalState \<Rightarrow> uint64" where "getPositionInMessage g = snd (U64Vals g)"

definition executionStateHash :: "('h packed list \<Rightarrow> 'h) \<Rightarrow> 'h SolExecutionState \<Rightarrow> 'h" where
  "executionStateHash keccak state = keccak [Uint8 (sol_MachineStatus state), Bytes32 (GlobalState_hash keccak (sol_GlobalState state))]"

definition assertionHash_of :: "('h packed list \<Rightarrow> 'h) \<Rightarrow> 'h \<Rightarrow> 'h \<Rightarrow> 'h \<Rightarrow> 'h" where
  "assertionHash_of keccak parentAssertionHash afterStateHash inboxAcc =
     keccak [Bytes32 parentAssertionHash, Bytes32 afterStateHash, Bytes32 inboxAcc]"

definition assertionHash :: "('h packed list \<Rightarrow> 'h) \<Rightarrow> 'h \<Rightarrow> 'h SolExecutionState \<Rightarrow> 'h \<Rightarrow> 'h" where
  "assertionHash keccak parentAssertionHash afterState inboxAcc =
     assertionHash_of keccak parentAssertionHash (executionStateHash keccak afterState) inboxAcc"

definition configHash_of :: "('h packed list \<Rightarrow> 'h) \<Rightarrow> 'h ConfigData \<Rightarrow> 'h" where
  "configHash_of keccak cfg =
     keccak [Bytes32 (wasmModuleRoot cfg), Uint256 (requiredStake cfg), Address (challengeManager cfg), Uint64 (confirmPeriodBlocks cfg),
       Uint64 (nextInboxPosition cfg)]"

definition validateConfigHash :: "('h packed list \<Rightarrow> 'h) \<Rightarrow> 'h ConfigData \<Rightarrow> 'h \<Rightarrow> 'h revert + unit" where
  "validateConfigHash keccak cfg hash = require (hash = configHash_of keccak cfg) ''CONFIG_HASH_MISMATCH''"

subsection \<open>Assertions\<close>

definition createAssertion :: "('h, 'z) block_ctx_scheme \<Rightarrow> bool \<Rightarrow> 'h \<Rightarrow> 'h AssertionNode" where
  "createAssertion c first cfgHash =
     \<lparr>firstChildBlock = 0, secondChildBlock = 0, createdAtBlock = this_block c, node_isFirstChild = first, node_status = AssertionPending,
      configHash = cfgHash\<rparr>"

definition childCreated :: "('h, 'z) block_ctx_scheme \<Rightarrow> 'h AssertionNode \<Rightarrow> 'h AssertionNode" where
  "childCreated c self =
     (if firstChildBlock self = 0 then self\<lparr>firstChildBlock := this_block c\<rparr>
      else if secondChildBlock self = 0 then self\<lparr>secondChildBlock := this_block c\<rparr>
      else self)"

definition requireExists :: "'h AssertionNode \<Rightarrow> 'h revert + unit" where
  "requireExists self = require (node_status self \<noteq> NoAssertion) ''ASSERTION_NOT_EXIST''"

definition getAssertionStorage :: "('h::zero, 't) Rollup \<Rightarrow> 'h \<Rightarrow> 'h revert + 'h AssertionNode" where
  "getAssertionStorage s hash = bindR (require (hash \<noteq> 0) ''ASSERTION_ID_CANNOT_BE_ZERO'') (\<lambda>_. Inr (assertions s hash))"

text \<open>The views of the contract, among them those of the interface that the challenge manager uses.\<close>

definition getAssertionCreationBlockForLogLookup ::
    "('h::zero, 't, 'z) rollup_ctx_scheme \<Rightarrow> ('h, 't) Rollup \<Rightarrow> 'h \<Rightarrow> 'h revert + uint256" where
  "getAssertionCreationBlockForLogLookup c s hash =
     (if hostChainIsArbitrum c then
        let blockNum = assertionCreatedAtArbSysBlock s hash in
        bindR (require (blockNum > 0) ''NO_ASSERTION'') (\<lambda>_. Inr blockNum)
      else
        bindR (getAssertionStorage s hash) (\<lambda>a. bindR (requireExists a) (\<lambda>_. Inr (ucast (createdAtBlock a)))))"

definition getStakerAddress :: "('h, 't) Rollup \<Rightarrow> uint64 \<Rightarrow> 'h revert + address" where
  "getStakerAddress s stakerNum =
     (if unat stakerNum < length (stakerList s) then Inr (stakerList s ! unat stakerNum) else Inl Panic)"

definition isStaked :: "('h, 't) Rollup \<Rightarrow> address \<Rightarrow> bool" where
  "isStaked s staker = st_isStaked (stakerMap s staker)"

definition latestStakedAssertion :: "('h, 't) Rollup \<Rightarrow> address \<Rightarrow> 'h" where
  "latestStakedAssertion s staker = st_latestStakedAssertion (stakerMap s staker)"

definition amountStaked :: "('h, 't) Rollup \<Rightarrow> address \<Rightarrow> uint256" where
  "amountStaked s staker = st_amountStaked (stakerMap s staker)"

definition stakerCount :: "('h, 't) Rollup \<Rightarrow> uint64" where
  "stakerCount s = of_nat (length (stakerList s))"

definition genesisAssertionHash :: "('h::zero packed list \<Rightarrow> 'h) \<Rightarrow> 'h" where
  "genesisAssertionHash keccak =
     assertionHash keccak 0 \<lparr>sol_GlobalState = \<lparr>Bytes32Vals = (0, 0), U64Vals = (0, 0)\<rparr>, sol_MachineStatus = MachineStatusFinished\<rparr> 0"

definition r_getFirstChildCreationBlock :: "('h::zero, 't) Rollup \<Rightarrow> 'h \<Rightarrow> 'h revert + uint64" where
  "r_getFirstChildCreationBlock s hash = bindR (getAssertionStorage s hash) (\<lambda>a. Inr (firstChildBlock a))"

definition r_getSecondChildCreationBlock :: "('h::zero, 't) Rollup \<Rightarrow> 'h \<Rightarrow> 'h revert + uint64" where
  "r_getSecondChildCreationBlock s hash = bindR (getAssertionStorage s hash) (\<lambda>a. Inr (secondChildBlock a))"

definition r_validateAssertionHash ::
    "('h packed list \<Rightarrow> 'h) \<Rightarrow> 'h \<Rightarrow> 'h SolExecutionState \<Rightarrow> 'h \<Rightarrow> 'h \<Rightarrow> 'h revert + unit" where
  "r_validateAssertionHash keccak hash state prevAssertionHash inboxAcc =
     require (hash = assertionHash keccak prevAssertionHash state inboxAcc) ''INVALID_ASSERTION_HASH''"

definition r_validateConfig :: "('h::zero packed list \<Rightarrow> 'h) \<Rightarrow> ('h, 't) Rollup \<Rightarrow> 'h \<Rightarrow> 'h ConfigData \<Rightarrow> 'h revert + unit" where
  "r_validateConfig keccak s hash cfg = bindR (getAssertionStorage s hash) (\<lambda>a. validateConfigHash keccak cfg (configHash a))"

definition r_isFirstChild :: "('h::zero, 't) Rollup \<Rightarrow> 'h \<Rightarrow> 'h revert + bool" where
  "r_isFirstChild s hash = bindR (getAssertionStorage s hash) (\<lambda>a. Inr (node_isFirstChild a))"

definition r_isPending :: "('h::zero, 't) Rollup \<Rightarrow> 'h \<Rightarrow> 'h revert + bool" where
  "r_isPending s hash = bindR (getAssertionStorage s hash) (\<lambda>a. Inr (node_status a = AssertionPending))"

definition initializeCore :: "'h AssertionNode \<Rightarrow> 'h \<Rightarrow> ('h, 't) Rollup \<Rightarrow> ('h, 't) Rollup" where
  "initializeCore initialAssertion hash s =
     s\<lparr>r_paused := False, assertions := (assertions s)(hash := initialAssertion\<lparr>node_status := AssertionConfirmed\<rparr>),
       latestConfirmed := hash\<rparr>"

definition confirmAssertionInternal ::
    "('h::zero, 't, 'z) rollup_ctx_scheme \<Rightarrow> 'h \<Rightarrow> 'h \<Rightarrow> 'h SolExecutionState \<Rightarrow> 'h \<Rightarrow> ('h, 't) Rollup \<Rightarrow>
     'h revert + ('h, 't) Rollup" where
  "confirmAssertionInternal c hash parentAssertionHash confirmState inboxAcc s =
     bindR (getAssertionStorage s hash) (\<lambda>assertion.
     bindR (require (node_status assertion = AssertionPending) ''NOT_PENDING'') (\<lambda>_.
     bindR (require (hash = assertionHash (keccak256 c) parentAssertionHash confirmState inboxAcc) ''CONFIRM_DATA'') (\<lambda>_.
       let blockHash = getBlockHash (sol_GlobalState confirmState); sendRoot = getSendRoot (sol_GlobalState confirmState) in
       bindR (updateSendRoot c sendRoot blockHash) (\<lambda>_.
         Inr (emit_r (AssertionConfirmedEvent hash blockHash sendRoot)
           (s\<lparr>latestConfirmed := hash, assertions := (assertions s)(hash := assertion\<lparr>node_status := AssertionConfirmed\<rparr>)\<rparr>))))))"

subsection \<open>Stakes\<close>

definition createNewStake :: "address \<Rightarrow> uint256 \<Rightarrow> ('h, 't) Rollup \<Rightarrow> ('h, 't) Rollup" where
  "createNewStake stakerAddress depositAmount s =
     (let stakerIndex = of_nat (length (stakerList s)) in
      emit_r (UserStakeUpdated stakerAddress 0 depositAmount)
        (s\<lparr>stakerList := stakerList s @ [stakerAddress],
           stakerMap := (stakerMap s)(stakerAddress := \<lparr>st_amountStaked = depositAmount, st_latestStakedAssertion = latestConfirmed s,
             st_index = stakerIndex, st_isStaked = True\<rparr>)\<rparr>))"

definition set_amount :: "address \<Rightarrow> uint256 \<Rightarrow> ('h, 't) Rollup \<Rightarrow> ('h, 't) Rollup" where
  "set_amount stakerAddress amount s =
     s\<lparr>stakerMap := (stakerMap s)(stakerAddress := (stakerMap s stakerAddress)\<lparr>st_amountStaked := amount\<rparr>)\<rparr>"

definition increaseStakeBy :: "address \<Rightarrow> uint256 \<Rightarrow> ('h, 't) Rollup \<Rightarrow> 'h revert + ('h, 't) Rollup" where
  "increaseStakeBy stakerAddress amountAdded s =
     (let initialStaked = amountStaked s stakerAddress in
      bindR (checked_add initialStaked amountAdded) (\<lambda>finalStaked.
        Inr (emit_r (UserStakeUpdated stakerAddress initialStaked finalStaked) (set_amount stakerAddress finalStaked s))))"

definition increaseWithdrawableFunds :: "address \<Rightarrow> uint256 \<Rightarrow> ('h, 't) Rollup \<Rightarrow> 'h revert + ('h, 't) Rollup" where
  "increaseWithdrawableFunds account amount s =
     (let initialWithdrawable = r_withdrawableFunds s account in
      bindR (checked_add initialWithdrawable amount) (\<lambda>finalWithdrawable.
      bindR (checked_add (totalWithdrawableFunds s) amount) (\<lambda>sum'.
        Inr (emit_r (UserWithdrawableFundsUpdated account initialWithdrawable finalWithdrawable)
          (s\<lparr>r_withdrawableFunds := (r_withdrawableFunds s)(account := finalWithdrawable), totalWithdrawableFunds := sum'\<rparr>)))))"

definition reduceStakeTo :: "address \<Rightarrow> uint256 \<Rightarrow> ('h, 't) Rollup \<Rightarrow> 'h revert + ('h, 't) Rollup" where
  "reduceStakeTo stakerAddress target s =
     (let current = amountStaked s stakerAddress in
      bindR (require (target \<le> current) ''TOO_LITTLE_STAKE'') (\<lambda>_.
      bindR (checked_sub current target) (\<lambda>amountWithdrawn.
      bindR (increaseWithdrawableFunds stakerAddress amountWithdrawn (set_amount stakerAddress target s)) (\<lambda>s.
        Inr (emit_r (UserStakeUpdated stakerAddress current target) s)))))"

definition deleteStaker :: "address \<Rightarrow> ('h::zero, 't) Rollup \<Rightarrow> 'h revert + ('h, 't) Rollup" where
  "deleteStaker stakerAddress s =
     (let staker = stakerMap s stakerAddress; i = unat (st_index staker); n = length (stakerList s) in
      bindR (require (st_isStaked staker) ''NOT_STAKED'') (\<lambda>_.
      bindR (revert_if (n = 0 \<or> i \<ge> n) Panic) (\<lambda>_.
        let stakers = (stakerList s)[i := stakerList s ! (n - 1)];
            moved = stakers ! i;
            stakerMap' = (stakerMap s)(moved := (stakerMap s moved)\<lparr>st_index := st_index staker\<rparr>)
        in Inr (s\<lparr>stakerList := butlast stakers, stakerMap := stakerMap'(stakerAddress := no_staker)\<rparr>))))"

definition withdrawStaker :: "address \<Rightarrow> ('h::zero, 't) Rollup \<Rightarrow> 'h revert + ('h, 't) Rollup" where
  "withdrawStaker stakerAddress s =
     (let initialStaked = amountStaked s stakerAddress in
      bindR (increaseWithdrawableFunds stakerAddress initialStaked s) (\<lambda>s.
      bindR (deleteStaker stakerAddress s) (\<lambda>s.
        Inr (emit_r (UserStakeUpdated stakerAddress initialStaked 0) s))))"

definition withdrawFunds :: "address \<Rightarrow> ('h, 't) Rollup \<Rightarrow> 'h revert + (uint256 \<times> ('h, 't) Rollup)" where
  "withdrawFunds account s =
     (let amount = r_withdrawableFunds s account in
      bindR (checked_sub (totalWithdrawableFunds s) amount) (\<lambda>sum'.
        Inr (amount, emit_r (UserWithdrawableFundsUpdated account amount 0)
          (s\<lparr>r_withdrawableFunds := (r_withdrawableFunds s)(account := 0), totalWithdrawableFunds := sum'\<rparr>))))"

definition requireInactiveStaker :: "address \<Rightarrow> ('h::zero, 't) Rollup \<Rightarrow> 'h revert + unit" where
  "requireInactiveStaker stakerAddress s =
     bindR (require (isStaked s stakerAddress) ''NOT_STAKED'') (\<lambda>_.
       let latest = latestStakedAssertion s stakerAddress in
       bindR (getAssertionStorage s latest) (\<lambda>a.
         require (latest = latestConfirmed s \<or> firstChildBlock a > 0) ''STAKE_ACTIVE''))"

subsection \<open>Creating an assertion\<close>

text \<open>
  The block of \<^verbatim>\<open>createNewAssertion\<close> that checks the inbox positions: the position that the assertion after this one must reach
  and the accumulator at the position of this one.
\<close>

definition check_inbox ::
    "('h, 't, 'z) rollup_ctx_scheme \<Rightarrow> 'h AssertionInputs \<Rightarrow> 'h revert + (uint256 \<times> 'h)" where
  "check_inbox c assertion =
     (let after = sol_GlobalState (in_afterState assertion);
          status = sol_MachineStatus (in_afterState assertion);
          afterInboxPosition = getInboxPosition after;
          prevInboxPosition = getInboxPosition (sol_GlobalState (in_beforeState assertion));
          required = nextInboxPosition (configData (beforeStateData assertion)) in
      bindR (require (afterInboxPosition \<ge> prevInboxPosition) ''INBOX_BACKWARDS'') (\<lambda>_.
      bindR (require (afterInboxPosition \<le> required) ''INBOX_TOO_FAR'') (\<lambda>_.
      bindR (require (required > prevInboxPosition) ''NEXT_INBOX_BACKWARDS'') (\<lambda>_.
      bindR (if status = MachineStatusErrored then
               (if getPositionInMessage after > 0 then require (afterInboxPosition \<noteq> required) ''POSITION_TOO_FAR'' else Inr ())
             else if status = MachineStatusFinished then
               bindR (require (afterInboxPosition = required) ''INVALID_FINISHED_INBOX'') (\<lambda>_.
                 require (getPositionInMessage after = 0) ''NON_ZERO_FINISHED_POS_IN_MSG'')
             else Inl (Require ''INVALID_STATUS'')) (\<lambda>_.
      bindR (sequencerMessageCount c) (\<lambda>currentInboxPosition.
      bindR (require (ucast afterInboxPosition \<le> currentInboxPosition) ''INBOX_PAST_END'') (\<lambda>_.
      bindR (require (ucast required \<le> currentInboxPosition) ''INBOX_NOT_POPULATED'') (\<lambda>_.
      bindR (if ucast afterInboxPosition = currentInboxPosition then checked_add currentInboxPosition 1
             else Inr currentInboxPosition) (\<lambda>next.
      bindR (require (afterInboxPosition \<noteq> 0) ''EMPTY_INBOX_COUNT'') (\<lambda>_.
      bindR (checked_sub afterInboxPosition 1) (\<lambda>last.
      bindR (sequencerInboxAccs c (ucast last)) (\<lambda>acc. Inr (next, acc)))))))))))))"

definition current_config :: "('h, 't) Rollup \<Rightarrow> uint64 \<Rightarrow> 'h ConfigData" where
  "current_config s next =
     \<lparr>wasmModuleRoot = r_wasmModuleRoot s, requiredStake = baseStake s, challengeManager = r_challengeManager s,
      confirmPeriodBlocks = r_confirmPeriodBlocks s, nextInboxPosition = next\<rparr>"

definition before_hash :: "('h packed list \<Rightarrow> 'h) \<Rightarrow> 'h AssertionInputs \<Rightarrow> 'h" where
  "before_hash keccak assertion =
     assertionHash keccak (prevPrevAssertionHash (beforeStateData assertion)) (in_beforeState assertion)
       (sequencerBatchAcc (beforeStateData assertion))"

text \<open>The part of \<^verbatim>\<open>createNewAssertion\<close> after its checks. The parent is updated first, then the new assertion is stored.\<close>

definition store_assertion ::
    "('h::zero, 't, 'z) rollup_ctx_scheme \<Rightarrow> 'h AssertionInputs \<Rightarrow> 'h \<Rightarrow> 'h \<Rightarrow> uint256 \<Rightarrow> 'h \<Rightarrow> ('h, 't) Rollup \<Rightarrow>
     'h revert + ('h, 't) Rollup" where
  "store_assertion c assertion prevAssertionHash newAssertionHash next acc s =
     (let prevAssertion = assertions s prevAssertionHash;
          newAssertion = createAssertion c (firstChildBlock prevAssertion = 0)
            (configHash_of (keccak256 c) (current_config s (ucast next)));
          s = s\<lparr>assertions := ((assertions s)(prevAssertionHash := childCreated c prevAssertion))(newAssertionHash := newAssertion)\<rparr>;
          s = emit_r (AssertionCreated newAssertionHash prevAssertionHash assertion acc next (r_wasmModuleRoot s) (baseStake s)
                (r_challengeManager s) (r_confirmPeriodBlocks s)) s
      in if hostChainIsArbitrum c then
           bindR (arbBlockNumber c) (\<lambda>n. Inr (s\<lparr>assertionCreatedAtArbSysBlock := (assertionCreatedAtArbSysBlock s)(newAssertionHash := n)\<rparr>))
         else Inr s)"

definition createNewAssertion ::
    "('h::zero, 't, 'z) rollup_ctx_scheme \<Rightarrow> 'h AssertionInputs \<Rightarrow> 'h \<Rightarrow> 'h \<Rightarrow> ('h, 't) Rollup \<Rightarrow>
     'h revert + ('h \<times> ('h, 't) Rollup)" where
  "createNewAssertion c assertion prevAssertionHash expectedAssertionHash s =
     (let status = sol_MachineStatus (in_afterState assertion) in
      bindR (getAssertionStorage s prevAssertionHash) (\<lambda>prevAssertion.
      bindR (validateConfigHash (keccak256 c) (configData (beforeStateData assertion)) (configHash prevAssertion)) (\<lambda>_.
      bindR (require (status = MachineStatusFinished \<or> status = MachineStatusErrored) ''BAD_AFTER_STATUS'') (\<lambda>_.
      bindR (require (before_hash (keccak256 c) assertion = prevAssertionHash) ''INVALID_BEFORE_STATE'') (\<lambda>_.
      bindR (require (sol_MachineStatus (in_beforeState assertion) = MachineStatusFinished) ''BAD_PREV_STATUS'') (\<lambda>_.
      bindR (check_inbox c assertion) (\<lambda>(next, acc).
        let newAssertionHash = assertionHash (keccak256 c) prevAssertionHash (in_afterState assertion) acc in
        bindR (require (newAssertionHash = expectedAssertionHash \<or> expectedAssertionHash = 0) ''UNEXPECTED_ASSERTION_HASH'') (\<lambda>_.
        bindR (getAssertionStorage s newAssertionHash) (\<lambda>seen.
        bindR (require (node_status seen = NoAssertion) ''ASSERTION_SEEN'') (\<lambda>_.
        bindR (store_assertion c assertion prevAssertionHash newAssertionHash next acc s) (\<lambda>s.
          Inr (newAssertionHash, s))))))))))))"

subsection \<open>User logic\<close>

definition onlyValidator :: "('h, 't, 'z) rollup_ctx_scheme \<Rightarrow> ('h, 't) Rollup \<Rightarrow> 'h revert + unit" where
  "onlyValidator c s = require (isValidator s (msg_sender c) \<or> validatorWhitelistDisabled s) ''NOT_VALIDATOR''"

definition whenNotPaused :: "('h, 't) Rollup \<Rightarrow> 'h revert + unit" where
  "whenNotPaused s = require (\<not> r_paused s) ''Pausable: paused''"

definition whenPaused :: "('h, 't) Rollup \<Rightarrow> 'h revert + unit" where
  "whenPaused s = require (r_paused s) ''Pausable: not paused''"

definition VALIDATOR_AFK_BLOCKS :: uint256 where
  "VALIDATOR_AFK_BLOCKS = 201600"

definition validatorIsAfk :: "('h::zero, 't, 'z) rollup_ctx_scheme \<Rightarrow> ('h, 't) Rollup \<Rightarrow> 'h revert + bool" where
  "validatorIsAfk c s =
     bindR (getAssertionStorage s (latestConfirmed s)) (\<lambda>a.
       if createdAtBlock a = 0 then Inr False
       else bindR (checked_add (ucast (if firstChildBlock a > 0 then firstChildBlock a else createdAtBlock a)) VALIDATOR_AFK_BLOCKS) (\<lambda>limit.
         Inr (limit < block_number c)))"

definition removeWhitelistAfterFork :: "('h, 't, 'z) rollup_ctx_scheme \<Rightarrow> ('h, 't) Rollup \<Rightarrow> 'h revert + ('h, 't) Rollup" where
  "removeWhitelistAfterFork c s =
     bindR (require (\<not> validatorWhitelistDisabled s) ''WHITELIST_DISABLED'') (\<lambda>_.
     bindR (require (deployTimeChainId c \<noteq> block_chainid c) ''CHAIN_ID_NOT_CHANGED'') (\<lambda>_.
       Inr (s\<lparr>validatorWhitelistDisabled := True\<rparr>)))"

definition removeWhitelistAfterValidatorAfk ::
    "('h::zero, 't, 'z) rollup_ctx_scheme \<Rightarrow> ('h, 't) Rollup \<Rightarrow> 'h revert + ('h, 't) Rollup" where
  "removeWhitelistAfterValidatorAfk c s =
     bindR (require (\<not> validatorWhitelistDisabled s) ''WHITELIST_DISABLED'') (\<lambda>_.
     bindR (validatorIsAfk c s) (\<lambda>afk.
     bindR (require afk ''VALIDATOR_NOT_AFK'') (\<lambda>_.
       Inr (s\<lparr>validatorWhitelistDisabled := True\<rparr>))))"

text \<open>What \<^verbatim>\<open>confirmAssertion\<close> requires of the winning edge when the parent has a second child.\<close>

definition check_winner ::
    "('h, 't, 'z) rollup_ctx_scheme \<Rightarrow> ('h, 't) Rollup \<Rightarrow> address \<Rightarrow> 'h \<Rightarrow> 'h \<Rightarrow> 'h revert + unit" where
  "check_winner c s manager winningEdgeId hash =
     bindR (manager_getEdge c manager winningEdgeId) (\<lambda>winningEdge.
     bindR (require (ce_claimId winningEdge = hash) ''NOT_WINNER'') (\<lambda>_.
     bindR (require (ce_status winningEdge = Confirmed) ''EDGE_NOT_CONFIRMED'') (\<lambda>_.
     bindR (require (ce_confirmedAtBlock winningEdge \<noteq> 0) ''ZERO_CONFIRMED_AT_BLOCK'') (\<lambda>_.
     bindR (checked_add (ce_confirmedAtBlock winningEdge) (challengeGracePeriodBlocks s)) (\<lambda>grace.
       require (block_number c \<ge> ucast grace) ''CHALLENGE_GRACE_PERIOD_NOT_PASSED'')))))"

definition confirmAssertion ::
    "('h::zero, 't, 'z) rollup_ctx_scheme \<Rightarrow> 'h \<Rightarrow> 'h \<Rightarrow> 'h SolExecutionState \<Rightarrow> 'h \<Rightarrow> 'h ConfigData \<Rightarrow> 'h \<Rightarrow> ('h, 't) Rollup \<Rightarrow>
     'h revert + ('h, 't) Rollup" where
  "confirmAssertion c hash prevAssertionHash confirmState winningEdgeId prevConfig inboxAcc s =
     bindR (onlyValidator c s) (\<lambda>_.
     bindR (whenNotPaused s) (\<lambda>_.
     bindR (getAssertionStorage s hash) (\<lambda>assertion.
     bindR (getAssertionStorage s prevAssertionHash) (\<lambda>prevAssertion.
     bindR (validateConfigHash (keccak256 c) prevConfig (configHash prevAssertion)) (\<lambda>_.
     bindR (checked_add (createdAtBlock assertion) (confirmPeriodBlocks prevConfig)) (\<lambda>deadline.
     bindR (require (block_number c \<ge> ucast deadline) ''BEFORE_DEADLINE'') (\<lambda>_.
     bindR (require (prevAssertionHash = latestConfirmed s) ''PREV_NOT_LATEST_CONFIRMED'') (\<lambda>_.
     bindR (if secondChildBlock prevAssertion > 0 then check_winner c s (challengeManager prevConfig) winningEdgeId hash else Inr ()) (\<lambda>_.
       confirmAssertionInternal c hash prevAssertionHash confirmState inboxAcc s)))))))))"

definition newStake :: "('h, 't, 'z) rollup_ctx_scheme \<Rightarrow> uint256 \<Rightarrow> ('h, 't) Rollup \<Rightarrow> 'h revert + ('h, 't) Rollup" where
  "newStake c depositAmount s =
     bindR (onlyValidator c s) (\<lambda>_.
     bindR (whenNotPaused s) (\<lambda>_.
     bindR (require (\<not> isStaked s (msg_sender c)) ''ALREADY_STAKED'') (\<lambda>_.
       Inr (createNewStake (msg_sender c) depositAmount s))))"

definition computeAssertionHash :: "('h packed list \<Rightarrow> 'h) \<Rightarrow> 'h \<Rightarrow> 'h SolExecutionState \<Rightarrow> 'h \<Rightarrow> 'h" where
  "computeAssertionHash keccak prevAssertionHash state inboxAcc = assertionHash keccak prevAssertionHash state inboxAcc"

text \<open>The stake of every child but the first is credited to the escrow.\<close>

definition credit_escrow :: "'h AssertionInputs \<Rightarrow> 'h \<Rightarrow> ('h::zero, 't) Rollup \<Rightarrow> 'h revert + ('h, 't) Rollup" where
  "credit_escrow assertion newAssertionHash s =
     bindR (getAssertionStorage s newAssertionHash) (\<lambda>a.
       if \<not> node_isFirstChild a
       then increaseWithdrawableFunds (loserStakeEscrow s) (requiredStake (configData (beforeStateData assertion))) s
       else Inr s)"

definition stakeOnNewAssertion ::
    "('h::zero, 't, 'z) rollup_ctx_scheme \<Rightarrow> 'h AssertionInputs \<Rightarrow> 'h \<Rightarrow> ('h, 't) Rollup \<Rightarrow> 'h revert + ('h, 't) Rollup" where
  "stakeOnNewAssertion c assertion expectedAssertionHash s =
     (let sender = msg_sender c; prevAssertion = before_hash (keccak256 c) assertion; lastAssertion = latestStakedAssertion s sender in
      bindR (onlyValidator c s) (\<lambda>_.
      bindR (whenNotPaused s) (\<lambda>_.
      bindR (require (expectedAssertionHash = 0 \<or> node_status (assertions s expectedAssertionHash) = NoAssertion) ''EXPECTED_ASSERTION_SEEN'') (\<lambda>_.
      bindR (require (isStaked s sender) ''NOT_STAKED'') (\<lambda>_.
      bindR (require (amountStaked s sender \<ge> requiredStake (configData (beforeStateData assertion))) ''INSUFFICIENT_STAKE'') (\<lambda>_.
      bindR (getAssertionStorage s prevAssertion) (\<lambda>prev.
      bindR (requireExists prev) (\<lambda>_.
      bindR (if lastAssertion = prevAssertion then Inr True
             else bindR (getAssertionStorage s lastAssertion) (\<lambda>a. Inr (firstChildBlock a > 0))) (\<lambda>free.
      bindR (require free ''STAKED_ON_ANOTHER_BRANCH'') (\<lambda>_.
      bindR (checked_sub (block_number c) (ucast (createdAtBlock prev))) (\<lambda>timeSincePrev.
      bindR (require (timeSincePrev \<ge> minimumAssertionPeriod s) ''TIME_DELTA'') (\<lambda>_.
      bindR (createNewAssertion c assertion prevAssertion expectedAssertionHash s) (\<lambda>(newAssertionHash, s).
        credit_escrow assertion newAssertionHash
          (s\<lparr>stakerMap := (stakerMap s)(sender := (stakerMap s sender)\<lparr>st_latestStakedAssertion := newAssertionHash\<rparr>)\<rparr>))))))))))))))"

definition receiveTokens :: "('h, 't, 'z) rollup_ctx_scheme \<Rightarrow> uint256 \<Rightarrow> ('h, 't) Rollup \<Rightarrow> 'h revert + ('h, 't) Rollup" where
  "receiveTokens c tokenAmount s =
     bindR (r_transferFrom c (msg_sender c) (r_this c) tokenAmount (r_tokens s)) (\<lambda>t. Inr (s\<lparr>r_tokens := t\<rparr>))"

definition newStakeOnNewAssertion ::
    "('h::zero, 't, 'z) rollup_ctx_scheme \<Rightarrow> uint256 \<Rightarrow> 'h AssertionInputs \<Rightarrow> 'h \<Rightarrow> ('h, 't) Rollup \<Rightarrow> 'h revert + ('h, 't) Rollup" where
  "newStakeOnNewAssertion c tokenAmount assertion expectedAssertionHash s =
     bindR (newStake c tokenAmount s) (\<lambda>s.
     bindR (stakeOnNewAssertion c assertion expectedAssertionHash s) (receiveTokens c tokenAmount))"

definition returnOldDeposit :: "('h::zero, 't, 'z) rollup_ctx_scheme \<Rightarrow> ('h, 't) Rollup \<Rightarrow> 'h revert + ('h, 't) Rollup" where
  "returnOldDeposit c s =
     bindR (onlyValidator c s) (\<lambda>_.
     bindR (whenNotPaused s) (\<lambda>_.
     bindR (requireInactiveStaker (msg_sender c) s) (\<lambda>_.
       withdrawStaker (msg_sender c) s)))"

definition addToDeposit :: "('h, 't, 'z) rollup_ctx_scheme \<Rightarrow> address \<Rightarrow> uint256 \<Rightarrow> ('h, 't) Rollup \<Rightarrow> 'h revert + ('h, 't) Rollup" where
  "addToDeposit c stakerAddress tokenAmount s =
     bindR (onlyValidator c s) (\<lambda>_.
     bindR (whenNotPaused s) (\<lambda>_.
     bindR (require (isStaked s stakerAddress) ''NOT_STAKED'') (\<lambda>_.
     bindR (increaseStakeBy stakerAddress tokenAmount s) (receiveTokens c tokenAmount))))"

definition reduceDeposit :: "('h::zero, 't, 'z) rollup_ctx_scheme \<Rightarrow> uint256 \<Rightarrow> ('h, 't) Rollup \<Rightarrow> 'h revert + ('h, 't) Rollup" where
  "reduceDeposit c target s =
     bindR (onlyValidator c s) (\<lambda>_.
     bindR (whenNotPaused s) (\<lambda>_.
     bindR (requireInactiveStaker (msg_sender c) s) (\<lambda>_.
       reduceStakeTo (msg_sender c) target s)))"

definition fastConfirmAssertion ::
    "('h::zero, 't, 'z) rollup_ctx_scheme \<Rightarrow> 'h \<Rightarrow> 'h \<Rightarrow> 'h SolExecutionState \<Rightarrow> 'h \<Rightarrow> ('h, 't) Rollup \<Rightarrow> 'h revert + ('h, 't) Rollup" where
  "fastConfirmAssertion c hash parentAssertionHash confirmState inboxAcc s =
     bindR (whenNotPaused s) (\<lambda>_.
     bindR (require (msg_sender c = anyTrustFastConfirmer s) ''NOT_FAST_CONFIRMER'') (\<lambda>_.
       confirmAssertionInternal c hash parentAssertionHash confirmState inboxAcc s))"

definition fastConfirmNewAssertion ::
    "('h::zero, 't, 'z) rollup_ctx_scheme \<Rightarrow> 'h AssertionInputs \<Rightarrow> 'h \<Rightarrow> ('h, 't) Rollup \<Rightarrow> 'h revert + ('h, 't) Rollup" where
  "fastConfirmNewAssertion c assertion expectedAssertionHash s =
     (let prevAssertion = before_hash (keccak256 c) assertion in
      bindR (whenNotPaused s) (\<lambda>_.
      bindR (require (expectedAssertionHash \<noteq> 0) ''EXPECTED_ASSERTION_HASH'') (\<lambda>_.
      bindR (getAssertionStorage s expectedAssertionHash) (\<lambda>expected.
      bindR (getAssertionStorage s prevAssertion) (\<lambda>prev.
      bindR (requireExists prev) (\<lambda>_.
      bindR (if node_status expected = NoAssertion then
               bindR (createNewAssertion c assertion prevAssertion expectedAssertionHash s) (\<lambda>(newAssertionHash, s).
                 credit_escrow assertion newAssertionHash s)
             else Inr s) (\<lambda>s.
      bindR (checked_sub (getInboxPosition (sol_GlobalState (in_afterState assertion))) 1) (\<lambda>last.
      bindR (sequencerInboxAccs c (ucast last)) (\<lambda>acc.
        fastConfirmAssertion c expectedAssertionHash prevAssertion (in_afterState assertion) acc s)))))))))"

definition withdrawStakerFunds ::
    "('h, 't, 'z) rollup_ctx_scheme \<Rightarrow> ('h, 't) Rollup \<Rightarrow> 'h revert + (uint256 \<times> ('h, 't) Rollup)" where
  "withdrawStakerFunds c s =
     bindR (whenNotPaused s) (\<lambda>_.
     bindR (withdrawFunds (msg_sender c) s) (\<lambda>(amount, s).
     bindR (require (amount > 0) ''NO_FUNDS_TO_WITHDRAW'') (\<lambda>_.
     bindR (r_transfer c (r_this c) (msg_sender c) amount (r_tokens s)) (\<lambda>t.
       Inr (amount, s\<lparr>r_tokens := t\<rparr>)))))"

subsection \<open>Admin logic\<close>

text \<open>\<^verbatim>\<open>Config\<close> without the settings of the sequencer inbox, which only the creator of the rollup uses.\<close>

record 'h Config =
  cfg_confirmPeriodBlocks :: uint64
  cfg_stakeToken :: address
  cfg_baseStake :: uint256
  cfg_wasmModuleRoot :: 'h
  cfg_owner :: address
  cfg_loserStakeEscrow :: address
  cfg_chainId :: uint256
  cfg_chainConfig :: string
  cfg_miniStakeValue :: uint256
  cfg_layerZeroBlockEdgeHeight :: uint256
  cfg_layerZeroBigStepEdgeHeight :: uint256
  cfg_layerZeroSmallStepEdgeHeight :: uint256
  cfg_genesisExecutionState :: "'h SolExecutionState"
  cfg_genesisInboxCount :: uint256
  cfg_anyTrustFastConfirmer :: address
  cfg_numBigStepLevel :: uint8
  cfg_challengeGracePeriodBlocks :: uint64

record ContractDependencies =
  dep_bridge :: address
  dep_sequencerInbox :: address
  dep_inbox :: address
  dep_outbox :: address
  dep_rollupEventInbox :: address
  dep_challengeManager :: address
  dep_rollupAdminLogic :: address
  dep_rollupUserLogic :: address
  dep_validatorWalletCreator :: address

text \<open>The storage of the proxy before it is initialized, with its admin.\<close>

definition new_rollup :: "address \<Rightarrow> 't \<Rightarrow> ('h::zero, 't) Rollup" where
  "new_rollup admin t =
     \<lparr>chainId = 0, r_confirmPeriodBlocks = 0, baseStake = 0, r_wasmModuleRoot = 0, r_challengeManager = 0, challengeGracePeriodBlocks = 0,
      r_inbox = 0, r_bridge = 0, r_outbox = 0, rollupEventInbox = 0, validatorWalletCreator = 0, loserStakeEscrow = 0, r_stakeToken = 0,
      minimumAssertionPeriod = 0, isValidator = (\<lambda>_. False), latestConfirmed = 0, assertions = (\<lambda>_. no_assertion), stakerList = [],
      stakerMap = (\<lambda>_. no_staker), r_withdrawableFunds = (\<lambda>_. 0), totalWithdrawableFunds = 0, rollupDeploymentBlock = 0,
      validatorWhitelistDisabled = False, anyTrustFastConfirmer = 0, assertionCreatedAtArbSysBlock = (\<lambda>_. 0), r_paused = False,
      r_initialized = False, r_admin = admin, r_tokens = t, r_logs = []\<rparr>"

text \<open>The calls of other contracts that set up the rollup.\<close>

definition connect_contracts ::
    "('h, 't, 'z) rollup_ctx_scheme \<Rightarrow> 'h Config \<Rightarrow> ContractDependencies \<Rightarrow> 'h revert + unit" where
  "connect_contracts c config deps =
     bindR (bridge_setDelayedInbox c (dep_inbox deps) True) (\<lambda>_.
     bindR (bridge_setSequencerInbox c (dep_sequencerInbox deps)) (\<lambda>_.
     bindR (bridge_setOutbox c (dep_outbox deps) True) (\<lambda>_.
     bindR (bridge_allowedDelayedInboxes c (dep_rollupEventInbox deps)) (\<lambda>connected.
     bindR (if connected then Inr ()
            else bindR (bridge_setDelayedInbox c (dep_rollupEventInbox deps) True) (\<lambda>_.
              eventInbox_rollupInitialized c (cfg_chainId config) (cfg_chainConfig config))) (\<lambda>_.
     bindR (sequencerInbox_totalDelayedMessagesRead c) (\<lambda>n.
       if n = 0 then sequencerInbox_addSequencerL2Batch c else Inr ()))))))"

text \<open>The settings, and the genesis assertion with its event.\<close>

definition configure ::
    "('h, 'z) block_ctx_scheme \<Rightarrow> 'h Config \<Rightarrow> ContractDependencies \<Rightarrow> ('h, 't) Rollup \<Rightarrow> ('h, 't) Rollup" where
  "configure c config deps s =
     s\<lparr>rollupDeploymentBlock := block_number c, r_bridge := dep_bridge deps, r_inbox := dep_inbox deps, r_outbox := dep_outbox deps,
       rollupEventInbox := dep_rollupEventInbox deps, validatorWalletCreator := dep_validatorWalletCreator deps,
       r_challengeManager := dep_challengeManager deps, r_confirmPeriodBlocks := cfg_confirmPeriodBlocks config,
       chainId := cfg_chainId config, baseStake := cfg_baseStake config, r_wasmModuleRoot := cfg_wasmModuleRoot config,
       minimumAssertionPeriod := 75, challengeGracePeriodBlocks := cfg_challengeGracePeriodBlocks config,
       loserStakeEscrow := cfg_loserStakeEscrow config, r_stakeToken := cfg_stakeToken config,
       anyTrustFastConfirmer := cfg_anyTrustFastConfirmer config, r_initialized := True\<rparr>"

definition create_genesis ::
    "('h::zero, 't, 'z) rollup_ctx_scheme \<Rightarrow> 'h SolExecutionState \<Rightarrow> uint256 \<Rightarrow> ('h, 't) Rollup \<Rightarrow> 'h revert + ('h, 't) Rollup" where
  "create_genesis c genesisState currentInboxCount s =
     (let genesisHash = assertionHash_of (keccak256 c) 0 (executionStateHash (keccak256 c) genesisState) 0;
          initialAssertion = createAssertion c True (configHash_of (keccak256 c) (current_config s (ucast currentInboxCount)));
          none = \<lparr>sol_GlobalState = \<lparr>Bytes32Vals = (0, 0), U64Vals = (0, 0)\<rparr>, sol_MachineStatus = 0\<rparr>;
          assertionInputs = \<lparr>beforeStateData = \<lparr>prevPrevAssertionHash = 0, sequencerBatchAcc = 0,
              configData = \<lparr>wasmModuleRoot = 0, requiredStake = 0, challengeManager = 0, confirmPeriodBlocks = 0, nextInboxPosition = 0\<rparr>\<rparr>,
            in_beforeState = none, in_afterState = genesisState\<rparr>;
          s = emit_r (AssertionCreated genesisHash 0 assertionInputs 0 currentInboxCount (r_wasmModuleRoot s) (baseStake s)
                (r_challengeManager s) (r_confirmPeriodBlocks s)) (initializeCore initialAssertion genesisHash s)
      in if hostChainIsArbitrum c then
           bindR (arbBlockNumber c) (\<lambda>n. Inr (s\<lparr>assertionCreatedAtArbSysBlock := (assertionCreatedAtArbSysBlock s)(genesisHash := n)\<rparr>))
         else Inr s)"

definition rollup_initialize ::
    "('h::zero, 't, 'z) rollup_ctx_scheme \<Rightarrow> 'h Config \<Rightarrow> ContractDependencies \<Rightarrow> ('h, 't) Rollup \<Rightarrow> 'h revert + ('h, 't) Rollup" where
  "rollup_initialize c config deps s =
     bindR (require (\<not> r_initialized s) ''Initializable: contract is already initialized'') (\<lambda>_.
     bindR (connect_contracts c config deps) (\<lambda>_.
     bindR (require (cfg_loserStakeEscrow config \<noteq> r_admin s) ''INVALID_ESCROW_ADMIN'') (\<lambda>_.
     bindR (require (cfg_loserStakeEscrow config \<noteq> cfg_owner config) ''INVALID_ESCROW_OWNER'') (\<lambda>_.
     bindR (sequencerMessageCount c) (\<lambda>count.
     bindR (if count = cfg_genesisInboxCount config then checked_add count 1 else Inr count) (\<lambda>currentInboxCount.
     bindR (create_genesis c (cfg_genesisExecutionState config) currentInboxCount (configure c config deps s)) (\<lambda>s.
       Inr (emit_r (RollupInitialized (cfg_wasmModuleRoot config) (cfg_chainId config)) s))))))))"

text \<open>The functions of the owner end with an event that names them by a number.\<close>

definition owner_done :: "uint256 \<Rightarrow> ('h, 't) Rollup \<Rightarrow> 'h revert + ('h, 't) Rollup" where
  "owner_done n s = Inr (emit_r (OwnerFunctionCalled n) s)"

definition setOutbox :: "('h, 't, 'z) rollup_ctx_scheme \<Rightarrow> address \<Rightarrow> ('h, 't) Rollup \<Rightarrow> 'h revert + ('h, 't) Rollup" where
  "setOutbox c outbox s = bindR (bridge_setOutbox c outbox True) (\<lambda>_. owner_done 0 (s\<lparr>r_outbox := outbox\<rparr>))"

definition removeOldOutbox :: "('h, 't, 'z) rollup_ctx_scheme \<Rightarrow> address \<Rightarrow> ('h, 't) Rollup \<Rightarrow> 'h revert + ('h, 't) Rollup" where
  "removeOldOutbox c outbox s =
     bindR (require (outbox \<noteq> r_outbox s) ''CUR_OUTBOX'') (\<lambda>_. bindR (bridge_setOutbox c outbox False) (\<lambda>_. owner_done 1 s))"

definition setDelayedInbox :: "('h, 't, 'z) rollup_ctx_scheme \<Rightarrow> address \<Rightarrow> bool \<Rightarrow> ('h, 't) Rollup \<Rightarrow> 'h revert + ('h, 't) Rollup" where
  "setDelayedInbox c inbox enabled s = bindR (bridge_setDelayedInbox c inbox enabled) (\<lambda>_. owner_done 2 s)"

definition pause :: "('h, 't) Rollup \<Rightarrow> 'h revert + ('h, 't) Rollup" where
  "pause s = bindR (whenNotPaused s) (\<lambda>_. owner_done 3 (s\<lparr>r_paused := True\<rparr>))"

definition resume :: "('h, 't) Rollup \<Rightarrow> 'h revert + ('h, 't) Rollup" where
  "resume s = bindR (whenPaused s) (\<lambda>_. owner_done 4 (s\<lparr>r_paused := False\<rparr>))"

definition setValidator :: "address list \<Rightarrow> bool list \<Rightarrow> ('h, 't) Rollup \<Rightarrow> 'h revert + ('h, 't) Rollup" where
  "setValidator validators vals s =
     bindR (require (length validators > 0) ''EMPTY_ARRAY'') (\<lambda>_.
     bindR (require (length validators = length vals) ''WRONG_LENGTH'') (\<lambda>_.
       owner_done 6 (s\<lparr>isValidator := foldl (\<lambda>m (a, b). m(a := b)) (isValidator s) (zip validators vals)\<rparr>)))"

definition setOwner :: "('h, 't, 'z) rollup_ctx_scheme \<Rightarrow> address \<Rightarrow> ('h, 't) Rollup \<Rightarrow> 'h revert + ('h, 't) Rollup" where
  "setOwner c newOwner s = bindR (proxy_changeAdmin c newOwner) (\<lambda>_. owner_done 7 (s\<lparr>r_admin := newOwner\<rparr>))"

definition setMinimumAssertionPeriod :: "uint256 \<Rightarrow> ('h, 't) Rollup \<Rightarrow> 'h revert + ('h, 't) Rollup" where
  "setMinimumAssertionPeriod newPeriod s = owner_done 8 (s\<lparr>minimumAssertionPeriod := newPeriod\<rparr>)"

definition setConfirmPeriodBlocks :: "uint64 \<Rightarrow> ('h, 't) Rollup \<Rightarrow> 'h revert + ('h, 't) Rollup" where
  "setConfirmPeriodBlocks newConfirmPeriod s =
     bindR (require (newConfirmPeriod > 0) ''INVALID_CONFIRM_PERIOD'') (\<lambda>_. owner_done 9 (s\<lparr>r_confirmPeriodBlocks := newConfirmPeriod\<rparr>))"

definition setBaseStake :: "uint256 \<Rightarrow> ('h, 't) Rollup \<Rightarrow> 'h revert + ('h, 't) Rollup" where
  "setBaseStake newBaseStake s = owner_done 12 (s\<lparr>baseStake := newBaseStake\<rparr>)"

fun refund_stakers :: "address list \<Rightarrow> ('h::zero, 't) Rollup \<Rightarrow> 'h revert + ('h, 't) Rollup" where
  "refund_stakers [] s = Inr s"
| "refund_stakers (a # stakers) s =
     bindR (requireInactiveStaker a s) (\<lambda>_. bindR (reduceStakeTo a 0 s) (refund_stakers stakers))"

definition forceRefundStaker :: "address list \<Rightarrow> ('h::zero, 't) Rollup \<Rightarrow> 'h revert + ('h, 't) Rollup" where
  "forceRefundStaker stakers s =
     bindR (whenPaused s) (\<lambda>_.
     bindR (require (length stakers > 0) ''EMPTY_ARRAY'') (\<lambda>_.
     bindR (refund_stakers stakers s) (owner_done 22)))"

definition forceCreateAssertion ::
    "('h::zero, 't, 'z) rollup_ctx_scheme \<Rightarrow> 'h \<Rightarrow> 'h AssertionInputs \<Rightarrow> 'h \<Rightarrow> ('h, 't) Rollup \<Rightarrow> 'h revert + ('h, 't) Rollup" where
  "forceCreateAssertion c prevAssertionHash assertion expectedAssertionHash s =
     bindR (whenPaused s) (\<lambda>_.
     bindR (createNewAssertion c assertion prevAssertionHash expectedAssertionHash s) (\<lambda>(_, s). owner_done 23 s))"

definition forceConfirmAssertion ::
    "('h::zero, 't, 'z) rollup_ctx_scheme \<Rightarrow> 'h \<Rightarrow> 'h \<Rightarrow> 'h SolExecutionState \<Rightarrow> 'h \<Rightarrow> ('h, 't) Rollup \<Rightarrow> 'h revert + ('h, 't) Rollup" where
  "forceConfirmAssertion c hash parentAssertionHash confirmState inboxAcc s =
     bindR (whenPaused s) (\<lambda>_.
     bindR (confirmAssertionInternal c hash parentAssertionHash confirmState inboxAcc s) (owner_done 24))"

definition setLoserStakeEscrow :: "address \<Rightarrow> ('h, 't) Rollup \<Rightarrow> 'h revert + ('h, 't) Rollup" where
  "setLoserStakeEscrow newEscrow s =
     bindR (require (newEscrow \<noteq> r_admin s) ''INVALID_ESCROW'') (\<lambda>_. owner_done 25 (s\<lparr>loserStakeEscrow := newEscrow\<rparr>))"

definition setWasmModuleRoot :: "'h \<Rightarrow> ('h, 't) Rollup \<Rightarrow> 'h revert + ('h, 't) Rollup" where
  "setWasmModuleRoot root s = owner_done 26 (s\<lparr>r_wasmModuleRoot := root\<rparr>)"

definition setSequencerInbox :: "('h, 't, 'z) rollup_ctx_scheme \<Rightarrow> address \<Rightarrow> ('h, 't) Rollup \<Rightarrow> 'h revert + ('h, 't) Rollup" where
  "setSequencerInbox c sequencerInbox s = bindR (bridge_setSequencerInbox c sequencerInbox) (\<lambda>_. owner_done 27 s)"

definition setInbox :: "address \<Rightarrow> ('h, 't) Rollup \<Rightarrow> 'h revert + ('h, 't) Rollup" where
  "setInbox newInbox s = owner_done 28 (s\<lparr>r_inbox := newInbox\<rparr>)"

definition setValidatorWhitelistDisabled :: "bool \<Rightarrow> ('h, 't) Rollup \<Rightarrow> 'h revert + ('h, 't) Rollup" where
  "setValidatorWhitelistDisabled disabled s = owner_done 30 (s\<lparr>validatorWhitelistDisabled := disabled\<rparr>)"

definition setAnyTrustFastConfirmer :: "address \<Rightarrow> ('h, 't) Rollup \<Rightarrow> 'h revert + ('h, 't) Rollup" where
  "setAnyTrustFastConfirmer confirmer s = owner_done 31 (s\<lparr>anyTrustFastConfirmer := confirmer\<rparr>)"

definition setChallengeManager :: "address \<Rightarrow> ('h, 't) Rollup \<Rightarrow> 'h revert + ('h, 't) Rollup" where
  "setChallengeManager manager s = owner_done 32 (s\<lparr>r_challengeManager := manager\<rparr>)"

end
