(* ===== verification/Rollup_Protocol.thy ===== *)
theory Rollup_Protocol
  imports Rollup Edge_Invariants
begin

text \<open>
  The rollup contract as a state machine: transactions of users and of the owner in any order. The tree of assertions, read off the
  events of their creation, and the assertions that are confirmed.
\<close>

subsection \<open>Transactions\<close>

text \<open>
  A transaction in block \<open>T\<close>; reverted ones change nothing and are left out. \<open>P\<close> is what is known of the context of a call, \<open>R\<close> how
  the stake token changes in other transactions, and \<open>M\<close> restricts how the owner changes the base stake.
\<close>

inductive rollup_step ::
    "('h::zero packed list \<Rightarrow> 'h) \<Rightarrow> (('h, 't) rollup_ctx \<Rightarrow> bool) \<Rightarrow> ('t \<Rightarrow> 't \<Rightarrow> bool) \<Rightarrow> (uint256 \<Rightarrow> uint256 \<Rightarrow> bool) \<Rightarrow> uint64 \<Rightarrow>
     ('h, 't) Rollup \<Rightarrow> ('h, 't) Rollup \<Rightarrow> bool"
  for K P R M T where
  confirm: "keccak256 c = K \<Longrightarrow> this_block c = T \<Longrightarrow> P c \<Longrightarrow> confirmAssertion c h p st w cfg acc s = Inr s' \<Longrightarrow> rollup_step K P R M T s s'"
| new_stake: "keccak256 c = K \<Longrightarrow> this_block c = T \<Longrightarrow> P c \<Longrightarrow> newStakeOnNewAssertion c n inp e s = Inr s' \<Longrightarrow> rollup_step K P R M T s s'"
| stake: "keccak256 c = K \<Longrightarrow> this_block c = T \<Longrightarrow> P c \<Longrightarrow> stakeOnNewAssertion c inp e s = Inr s' \<Longrightarrow> rollup_step K P R M T s s'"
| return_deposit: "P c \<Longrightarrow> returnOldDeposit c s = Inr s' \<Longrightarrow> rollup_step K P R M T s s'"
| add_deposit: "P c \<Longrightarrow> addToDeposit c a n s = Inr s' \<Longrightarrow> rollup_step K P R M T s s'"
| reduce_deposit: "P c \<Longrightarrow> reduceDeposit c n s = Inr s' \<Longrightarrow> rollup_step K P R M T s s'"
| withdraw: "P c \<Longrightarrow> withdrawStakerFunds c s = Inr (n, s') \<Longrightarrow> rollup_step K P R M T s s'"
| after_fork: "P c \<Longrightarrow> removeWhitelistAfterFork c s = Inr s' \<Longrightarrow> rollup_step K P R M T s s'"
| after_afk: "P c \<Longrightarrow> removeWhitelistAfterValidatorAfk c s = Inr s' \<Longrightarrow> rollup_step K P R M T s s'"
| set_outbox: "P c \<Longrightarrow> setOutbox c a s = Inr s' \<Longrightarrow> rollup_step K P R M T s s'"
| remove_outbox: "P c \<Longrightarrow> removeOldOutbox c a s = Inr s' \<Longrightarrow> rollup_step K P R M T s s'"
| set_delayed_inbox: "P c \<Longrightarrow> setDelayedInbox c a b s = Inr s' \<Longrightarrow> rollup_step K P R M T s s'"
| pauses: "pause s = Inr s' \<Longrightarrow> rollup_step K P R M T s s'"
| resumes: "resume s = Inr s' \<Longrightarrow> rollup_step K P R M T s s'"
| set_validator: "setValidator as bs s = Inr s' \<Longrightarrow> rollup_step K P R M T s s'"
| set_owner: "P c \<Longrightarrow> setOwner c a s = Inr s' \<Longrightarrow> rollup_step K P R M T s s'"
| set_period: "setMinimumAssertionPeriod n s = Inr s' \<Longrightarrow> rollup_step K P R M T s s'"
| set_confirm_period: "setConfirmPeriodBlocks b s = Inr s' \<Longrightarrow> rollup_step K P R M T s s'"
| set_stake: "M (baseStake s) n \<Longrightarrow> setBaseStake n s = Inr s' \<Longrightarrow> rollup_step K P R M T s s'"
| force_refund: "forceRefundStaker as s = Inr s' \<Longrightarrow> rollup_step K P R M T s s'"
| set_escrow: "setLoserStakeEscrow a s = Inr s' \<Longrightarrow> rollup_step K P R M T s s'"
| set_root: "setWasmModuleRoot r s = Inr s' \<Longrightarrow> rollup_step K P R M T s s'"
| set_sequencer_inbox: "P c \<Longrightarrow> setSequencerInbox c a s = Inr s' \<Longrightarrow> rollup_step K P R M T s s'"
| set_inbox: "setInbox a s = Inr s' \<Longrightarrow> rollup_step K P R M T s s'"
| set_whitelist: "setValidatorWhitelistDisabled b s = Inr s' \<Longrightarrow> rollup_step K P R M T s s'"
| set_confirmer: "setAnyTrustFastConfirmer a s = Inr s' \<Longrightarrow> rollup_step K P R M T s s'"
| set_manager: "setChallengeManager a s = Inr s' \<Longrightarrow> rollup_step K P R M T s s'"
| token: "R (r_tokens s) t \<Longrightarrow> rollup_step K P R M T s (s\<lparr>r_tokens := t\<rparr>)"

text \<open>The functions that override the protocol, which the owner and the fast confirmer of an AnyTrust chain are trusted with.\<close>

inductive override_step ::
    "('h::zero packed list \<Rightarrow> 'h) \<Rightarrow> uint64 \<Rightarrow> ('h, 't) Rollup \<Rightarrow> ('h, 't) Rollup \<Rightarrow> bool" for K T where
  force_create: "keccak256 (c :: ('h, 't) rollup_ctx) = K \<Longrightarrow> this_block c = T \<Longrightarrow> forceCreateAssertion c p inp e s = Inr s' \<Longrightarrow> override_step K T s s'"
| force_confirm: "keccak256 (c :: ('h, 't) rollup_ctx) = K \<Longrightarrow> this_block c = T \<Longrightarrow> forceConfirmAssertion c h p st acc s = Inr s' \<Longrightarrow> override_step K T s s'"
| fast_confirm: "keccak256 (c :: ('h, 't) rollup_ctx) = K \<Longrightarrow> this_block c = T \<Longrightarrow> fastConfirmAssertion c h p st acc s = Inr s' \<Longrightarrow> override_step K T s s'"
| fast_create: "keccak256 (c :: ('h, 't) rollup_ctx) = K \<Longrightarrow> this_block c = T \<Longrightarrow> fastConfirmNewAssertion c inp e s = Inr s' \<Longrightarrow> override_step K T s s'"

inductive rollup_reach ::
    "('h::zero packed list \<Rightarrow> 'h) \<Rightarrow> (('h, 't) rollup_ctx \<Rightarrow> bool) \<Rightarrow> ('t \<Rightarrow> 't \<Rightarrow> bool) \<Rightarrow> (uint256 \<Rightarrow> uint256 \<Rightarrow> bool) \<Rightarrow> uint64 \<Rightarrow>
     ('h, 't) Rollup \<Rightarrow> bool"
  for K P R M where
  deployed: "keccak256 (c :: ('h, 't) rollup_ctx) = K \<Longrightarrow> rollup_initialize c config deps (new_rollup admin t) = Inr s \<Longrightarrow> rollup_reach K P R M T s"
| transaction: "rollup_reach K P R M T s \<Longrightarrow> T \<le> T' \<Longrightarrow> T' \<noteq> 0 \<Longrightarrow> rollup_step K P R M T' s s' \<Longrightarrow> rollup_reach K P R M T' s'"

subsection \<open>The tree of assertions\<close>

text \<open>The creations that the events record: the assertion, its parent and the configuration its children are bound to.\<close>

fun creation_of :: "'h rollup_event \<Rightarrow> ('h \<times> 'h \<times> 'h ConfigData) option" where
  "creation_of (AssertionCreated h p inp acc next root stake manager period) =
     Some (h, p, \<lparr>wasmModuleRoot = root, requiredStake = stake, challengeManager = manager, confirmPeriodBlocks = period,
       nextInboxPosition = ucast next\<rparr>)"
| "creation_of _ = None"

definition creations :: "('h, 't) Rollup \<Rightarrow> ('h \<times> 'h \<times> 'h ConfigData) list" where
  "creations s = List.map_filter creation_of (r_logs s)"

abbreviation created :: "('h, 't) Rollup \<Rightarrow> 'h \<Rightarrow> 'h \<Rightarrow> 'h ConfigData \<Rightarrow> bool" where
  "created s h p cfg \<equiv> (h, p, cfg) \<in> set (creations s)"

definition known :: "('h, 't) Rollup \<Rightarrow> 'h set" where
  "known s = fst ` set (creations s)"

definition nodes_ok :: "('h::zero packed list \<Rightarrow> 'h) \<Rightarrow> ('h, 't) Rollup \<Rightarrow> bool" where
  "nodes_ok K s \<longleftrightarrow>
     distinct (map fst (creations s)) \<and>
     (\<forall>h. if h \<in> known s then node_status (assertions s h) \<noteq> NoAssertion else assertions s h = no_assertion) \<and>
     (\<forall>h p cfg. created s h p cfg \<longrightarrow>
        h \<noteq> 0 \<and> configHash (assertions s h) = configHash_of K cfg \<and> (\<exists>st acc. h = assertionHash K p st acc) \<and>
        (p \<noteq> 0 \<longrightarrow> p \<in> known s \<and> firstChildBlock (assertions s p) \<noteq> 0)) \<and>
     (\<forall>p. firstChildBlock (assertions s p) \<noteq> 0 \<longrightarrow> (\<exists>h cfg. created s h p cfg)) \<and>
     (\<exists>g cfg. created s g 0 cfg \<and> (\<forall>h cfg. created s h 0 cfg \<longrightarrow> h = g))"

lemma creations_emit: "creations (emit_r e s) = creations s @ (case creation_of e of None \<Rightarrow> [] | Some x \<Rightarrow> [x])"
  by (auto simp: creations_def emit_r_def map_filter_def split: option.splits)

lemma emit_r_fields [simp]:
  "assertions (emit_r e s) = assertions s" "latestConfirmed (emit_r e s) = latestConfirmed s" "baseStake (emit_r e s) = baseStake s"
  "stakerMap (emit_r e s) = stakerMap s" "stakerList (emit_r e s) = stakerList s" "r_withdrawableFunds (emit_r e s) = r_withdrawableFunds s"
  "totalWithdrawableFunds (emit_r e s) = totalWithdrawableFunds s" "r_tokens (emit_r e s) = r_tokens s" "r_paused (emit_r e s) = r_paused s"
  by (simp_all add: emit_r_def)

text \<open>What a transaction does to the tree, apart from the stakes, and to the stakes, apart from the tree.\<close>

definition same_nodes :: "('h, 't) Rollup \<Rightarrow> ('h, 't) Rollup \<Rightarrow> bool" where
  "same_nodes s s' \<longleftrightarrow> assertions s' = assertions s \<and> latestConfirmed s' = latestConfirmed s \<and> creations s' = creations s"

definition same_stakes :: "('h, 't) Rollup \<Rightarrow> ('h, 't) Rollup \<Rightarrow> bool" where
  "same_stakes s s' \<longleftrightarrow>
     stakerMap s' = stakerMap s \<and> stakerList s' = stakerList s \<and> r_withdrawableFunds s' = r_withdrawableFunds s \<and>
     totalWithdrawableFunds s' = totalWithdrawableFunds s \<and> r_tokens s' = r_tokens s"

lemma same_nodes_refl [simp]: "same_nodes s s"
  by (simp add: same_nodes_def)

lemma same_nodes_trans: "same_nodes s s' \<Longrightarrow> same_nodes s' s'' \<Longrightarrow> same_nodes s s''"
  by (simp add: same_nodes_def)

lemma same_nodes_emit [simp]: "creation_of e = None \<Longrightarrow> same_nodes s (emit_r e s') \<longleftrightarrow> same_nodes s s'"
  by (auto simp: same_nodes_def creations_emit)

lemma same_nodes_update [simp]:
  "same_nodes s (s'\<lparr>stakerMap := m\<rparr>) \<longleftrightarrow> same_nodes s s'" "same_nodes s (s'\<lparr>stakerList := l\<rparr>) \<longleftrightarrow> same_nodes s s'"
  "same_nodes s (s'\<lparr>r_withdrawableFunds := w\<rparr>) \<longleftrightarrow> same_nodes s s'" "same_nodes s (s'\<lparr>totalWithdrawableFunds := n\<rparr>) \<longleftrightarrow> same_nodes s s'"
  "same_nodes s (s'\<lparr>r_tokens := t\<rparr>) \<longleftrightarrow> same_nodes s s'" "same_nodes s (s'\<lparr>validatorWhitelistDisabled := b\<rparr>) \<longleftrightarrow> same_nodes s s'"
  "same_nodes (s\<lparr>stakerMap := m\<rparr>) s' \<longleftrightarrow> same_nodes s s'"
  by (simp_all add: same_nodes_def creations_def)

lemma increaseWithdrawableFunds_tree: "increaseWithdrawableFunds a n s = Inr s' \<Longrightarrow> same_nodes s s'"
  by (auto simp: increaseWithdrawableFunds_def Let_def bindR_eq_Inr)

lemma credit_escrow_tree: "credit_escrow inp h s = Inr s' \<Longrightarrow> same_nodes s s'"
  by (auto simp: credit_escrow_def bindR_eq_Inr split: if_splits dest: increaseWithdrawableFunds_tree)

lemma set_amount_tree [simp]: "same_nodes s (set_amount a n s') \<longleftrightarrow> same_nodes s s'" "same_nodes (set_amount a n s) s' \<longleftrightarrow> same_nodes s s'"
  by (simp_all add: set_amount_def)

lemma reduceStakeTo_tree: "reduceStakeTo a n s = Inr s' \<Longrightarrow> same_nodes s s'"
  by (auto simp: reduceStakeTo_def Let_def bindR_eq_Inr dest!: increaseWithdrawableFunds_tree intro: same_nodes_trans)

lemma withdrawStaker_tree: "withdrawStaker a s = Inr s' \<Longrightarrow> same_nodes s s'"
  by (auto simp: withdrawStaker_def deleteStaker_def Let_def bindR_eq_Inr dest!: increaseWithdrawableFunds_tree)

lemma receiveTokens_tree: "receiveTokens c n s = Inr s' \<Longrightarrow> same_nodes s s'"
  by (auto simp: receiveTokens_def bindR_eq_Inr)

lemma refund_stakers_tree: "refund_stakers as s = Inr s' \<Longrightarrow> same_nodes s s'"
  by (induction as arbitrary: s) (auto simp: bindR_eq_Inr dest!: reduceStakeTo_tree intro: same_nodes_trans)

lemma newStake_tree: "newStake c n s = Inr s' \<Longrightarrow> same_nodes s s'"
  by (auto simp: newStake_def createNewStake_def Let_def bindR_eq_Inr)

text \<open>Settings leave both the tree and the stakes as they are.\<close>

definition only_settings :: "('h, 't) Rollup \<Rightarrow> ('h, 't) Rollup \<Rightarrow> bool" where
  "only_settings s s' \<longleftrightarrow> same_nodes s s' \<and> same_stakes s s'"

lemma settings:
  "removeWhitelistAfterFork c s = Inr s' \<Longrightarrow> only_settings s s' \<and> baseStake s' = baseStake s"
  "removeWhitelistAfterValidatorAfk c s = Inr s' \<Longrightarrow> only_settings s s' \<and> baseStake s' = baseStake s"
  "setOutbox c a s = Inr s' \<Longrightarrow> only_settings s s' \<and> baseStake s' = baseStake s"
  "removeOldOutbox c a s = Inr s' \<Longrightarrow> only_settings s s' \<and> baseStake s' = baseStake s"
  "setDelayedInbox c a b s = Inr s' \<Longrightarrow> only_settings s s' \<and> baseStake s' = baseStake s"
  "pause s = Inr s' \<Longrightarrow> only_settings s s' \<and> baseStake s' = baseStake s"
  "resume s = Inr s' \<Longrightarrow> only_settings s s' \<and> baseStake s' = baseStake s"
  "setValidator as bs s = Inr s' \<Longrightarrow> only_settings s s' \<and> baseStake s' = baseStake s"
  "setOwner c a s = Inr s' \<Longrightarrow> only_settings s s' \<and> baseStake s' = baseStake s"
  "setMinimumAssertionPeriod n s = Inr s' \<Longrightarrow> only_settings s s' \<and> baseStake s' = baseStake s"
  "setConfirmPeriodBlocks p s = Inr s' \<Longrightarrow> only_settings s s' \<and> baseStake s' = baseStake s"
  "setBaseStake n s = Inr s' \<Longrightarrow> only_settings s s' \<and> baseStake s' = n"
  "setLoserStakeEscrow a s = Inr s' \<Longrightarrow> only_settings s s' \<and> baseStake s' = baseStake s"
  "setWasmModuleRoot r s = Inr s' \<Longrightarrow> only_settings s s' \<and> baseStake s' = baseStake s"
  "setSequencerInbox c a s = Inr s' \<Longrightarrow> only_settings s s' \<and> baseStake s' = baseStake s"
  "setInbox a s = Inr s' \<Longrightarrow> only_settings s s' \<and> baseStake s' = baseStake s"
  "setValidatorWhitelistDisabled b s = Inr s' \<Longrightarrow> only_settings s s' \<and> baseStake s' = baseStake s"
  "setAnyTrustFastConfirmer a s = Inr s' \<Longrightarrow> only_settings s s' \<and> baseStake s' = baseStake s"
  "setChallengeManager a s = Inr s' \<Longrightarrow> only_settings s s' \<and> baseStake s' = baseStake s"
  by (auto simp: removeWhitelistAfterFork_def removeWhitelistAfterValidatorAfk_def setOutbox_def removeOldOutbox_def setDelayedInbox_def
      pause_def resume_def setValidator_def setOwner_def setMinimumAssertionPeriod_def setConfirmPeriodBlocks_def setBaseStake_def
      setLoserStakeEscrow_def setWasmModuleRoot_def setSequencerInbox_def setInbox_def setValidatorWhitelistDisabled_def
      setAnyTrustFastConfirmer_def setChallengeManager_def owner_done_def bindR_eq_Inr only_settings_def same_nodes_def same_stakes_def
      creations_def emit_r_def map_filter_def)

subsection \<open>Creating and confirming\<close>

text \<open>The assertion \<open>h\<close> is added below \<open>p\<close> in block \<open>T\<close>.\<close>

definition adds ::
    "('h::zero packed list \<Rightarrow> 'h) \<Rightarrow> uint64 \<Rightarrow> 'h ConfigData \<Rightarrow> 'h \<Rightarrow> 'h \<Rightarrow> 'h ConfigData \<Rightarrow> ('h, 't) Rollup \<Rightarrow> ('h, 't) Rollup \<Rightarrow> bool" where
  "adds K T pcfg p h cfg s s' \<longleftrightarrow>
     p \<noteq> 0 \<and> h \<noteq> 0 \<and> configHash (assertions s p) = configHash_of K pcfg \<and> node_status (assertions s h) = NoAssertion \<and>
     (\<exists>st acc. h = assertionHash K p st acc) \<and> requiredStake cfg = baseStake s \<and>
     creations s' = creations s @ [(h, p, cfg)] \<and> latestConfirmed s' = latestConfirmed s \<and>
     (\<exists>c. this_block c = T \<and> assertions s' = ((assertions s)(p := childCreated (c :: 'h block_ctx) (assertions s p)))
        (h := createAssertion c (firstChildBlock (assertions s p) = 0) (configHash_of K cfg)))"

lemma createAssertion_truncate:
  "createAssertion c b k = createAssertion (block_ctx.truncate c) b k" "childCreated c a = childCreated (block_ctx.truncate c) a"
  by (simp_all add: createAssertion_def childCreated_def this_block_def block_ctx.defs)

lemma store_assertion_Inr:
  fixes s :: "('h::zero, 't) Rollup"
  assumes "store_assertion c inp p h nxt acc s = Inr s'"
  shows "creations s' = creations s @ [(h, p, current_config s (ucast nxt))]" "latestConfirmed s' = latestConfirmed s" "same_stakes s s'"
    "baseStake s' = baseStake s"
    "assertions s' = ((assertions s)(p := childCreated c (assertions s p)))
       (h := createAssertion c (firstChildBlock (assertions s p) = 0) (configHash_of (keccak256 c) (current_config s (ucast nxt))))"
  using assms
  by (auto simp: store_assertion_def Let_def bindR_eq_Inr same_stakes_def creations_def emit_r_def map_filter_def current_config_def
      split: if_splits)

lemma createNewAssertion_Inr:
  fixes s :: "('h::zero, 't) Rollup"
  assumes "createNewAssertion c inp p e s = Inr (h, s')"
  obtains cfg where "adds (keccak256 c) (this_block c) (configData (beforeStateData inp)) p h cfg s s'" "same_stakes s s'"
    "baseStake s' = baseStake s" "before_hash (keccak256 c) inp = p"
proof -
  from assms obtain nxt acc where p: "p \<noteq> 0" "configHash (assertions s p) = configHash_of (keccak256 c) (configData (beforeStateData inp))"
    "before_hash (keccak256 c) inp = p"
    and h: "h = assertionHash (keccak256 c) p (in_afterState inp) acc" "h \<noteq> 0" "node_status (assertions s h) = NoAssertion"
    and st: "store_assertion c inp p h nxt acc s = Inr s'"
    by (auto simp: createNewAssertion_def Let_def bindR_eq_Inr getAssertionStorage_def validateConfigHash_def)
  note S = store_assertion_Inr [OF st]
  have "adds (keccak256 c) (this_block c) (configData (beforeStateData inp)) p h (current_config s (ucast nxt)) s s'"
    unfolding adds_def using p h S createAssertion_truncate [of c]
    by (auto simp: current_config_def this_block_def block_ctx.defs intro!: exI [of _ "block_ctx.truncate c"])
  then show ?thesis using S(3,4) p(3) by (rule that)
qed

definition confirms :: "('h::zero packed list \<Rightarrow> 'h) \<Rightarrow> 'h \<Rightarrow> 'h \<Rightarrow> ('h, 't) Rollup \<Rightarrow> ('h, 't) Rollup \<Rightarrow> bool" where
  "confirms K p h s s' \<longleftrightarrow>
     node_status (assertions s h) = AssertionPending \<and> (\<exists>st acc. h = assertionHash K p st acc) \<and> creations s' = creations s \<and>
     latestConfirmed s' = h \<and> assertions s' = (assertions s)(h := (assertions s h)\<lparr>node_status := AssertionConfirmed\<rparr>)"

lemma confirmAssertionInternal_Inr:
  assumes "confirmAssertionInternal c h p st acc s = Inr s'"
  shows "confirms (keccak256 c) p h s s'" "same_stakes s s'" "baseStake s' = baseStake s"
  using assms
  by (auto simp: confirmAssertionInternal_def Let_def bindR_eq_Inr getAssertionStorage_def confirms_def same_stakes_def creations_def
      emit_r_def map_filter_def)

lemma confirmAssertion_Inr:
  assumes "confirmAssertion c h p st w cfg acc s = Inr s'"
  shows "confirms (keccak256 c) p h s s'" "same_stakes s s'" "baseStake s' = baseStake s" "p = latestConfirmed s"
    "configHash (assertions s p) = configHash_of (keccak256 c) cfg"
    "secondChildBlock (assertions s p) > 0 \<Longrightarrow> check_winner c s (challengeManager cfg) w h = Inr ()"
  using assms
  by (auto simp: confirmAssertion_def bindR_eq_Inr getAssertionStorage_def validateConfigHash_def
      dest: confirmAssertionInternal_Inr split: if_splits)

lemma stakeOnNewAssertion_Inr:
  fixes s :: "('h::zero, 't) Rollup"
  assumes "stakeOnNewAssertion c inp e s = Inr s'"
  obtains p h cfg s1 s2 where "adds (keccak256 c) (this_block c) (configData (beforeStateData inp)) p h cfg s s1" "same_stakes s s1"
    "isStaked s (msg_sender c)" "amountStaked s (msg_sender c) \<ge> requiredStake (configData (beforeStateData inp))"
    "latestStakedAssertion s (msg_sender c) = p \<or> firstChildBlock (assertions s (latestStakedAssertion s (msg_sender c))) > 0"
    "s2 = s1\<lparr>stakerMap := (stakerMap s1)(msg_sender c := (stakerMap s1 (msg_sender c))\<lparr>st_latestStakedAssertion := h\<rparr>)\<rparr>"
    "credit_escrow inp h s2 = Inr s'" "baseStake s1 = baseStake s"
proof -
  from assms obtain h s1 where new: "createNewAssertion c inp (before_hash (keccak256 c) inp) e s = Inr (h, s1)"
    and a: "isStaked s (msg_sender c)" "amountStaked s (msg_sender c) \<ge> requiredStake (configData (beforeStateData inp))"
    "latestStakedAssertion s (msg_sender c) = before_hash (keccak256 c) inp \<or>
       firstChildBlock (assertions s (latestStakedAssertion s (msg_sender c))) > 0"
    and cr: "credit_escrow inp h (s1\<lparr>stakerMap := (stakerMap s1)(msg_sender c := (stakerMap s1 (msg_sender c))\<lparr>st_latestStakedAssertion := h\<rparr>)\<rparr>)
      = Inr s'"
    by (auto simp: stakeOnNewAssertion_def Let_def bindR_eq_Inr getAssertionStorage_def split: if_splits)
  from new obtain cfg where "adds (keccak256 c) (this_block c) (configData (beforeStateData inp)) (before_hash (keccak256 c) inp) h cfg s s1"
    "same_stakes s s1" "baseStake s1 = baseStake s"
    by (rule createNewAssertion_Inr)
  with a cr show ?thesis by (intro that [OF _ _ a refl cr])
qed

lemma adds_same_nodes: "adds K T pcfg p h cfg s s1 \<Longrightarrow> same_nodes s1 s' \<Longrightarrow> adds K T pcfg p h cfg s s'"
  "same_nodes s s0 \<Longrightarrow> baseStake s0 = baseStake s \<Longrightarrow> adds K T pcfg p h cfg s0 s' \<Longrightarrow> adds K T pcfg p h cfg s s'"
  by (simp_all add: adds_def same_nodes_def)

lemma stakeOnNewAssertion_tree:
  assumes "stakeOnNewAssertion c inp e s = Inr s'"
  shows "\<exists>p h cfg. adds (keccak256 c) (this_block c) (configData (beforeStateData inp)) p h cfg s s'"
  using assms
proof (rule stakeOnNewAssertion_Inr)
  fix p h cfg s1 s2
  assume *: "adds (keccak256 c) (this_block c) (configData (beforeStateData inp)) p h cfg s s1" "credit_escrow inp h s2 = Inr s'"
    "s2 = s1\<lparr>stakerMap := (stakerMap s1)(msg_sender c := (stakerMap s1 (msg_sender c))\<lparr>st_latestStakedAssertion := h\<rparr>)\<rparr>"
  have "same_nodes s1 s'" using credit_escrow_tree [OF *(2)] *(3) by simp
  with *(1) show ?thesis by (blast intro: adds_same_nodes(1))
qed

lemma newStake_stake: "newStake c n s = Inr s' \<Longrightarrow> baseStake s' = baseStake s"
  by (auto simp: newStake_def createNewStake_def Let_def bindR_eq_Inr)

lemma newStakeOnNewAssertion_tree:
  assumes "newStakeOnNewAssertion c n inp e s = Inr s'"
  shows "\<exists>p h cfg. adds (keccak256 c) (this_block c) (configData (beforeStateData inp)) p h cfg s s'"
proof -
  from assms obtain s0 s1 where new: "newStake c n s = Inr s0" "stakeOnNewAssertion c inp e s0 = Inr s1" "receiveTokens c n s1 = Inr s'"
    by (auto simp: newStakeOnNewAssertion_def bindR_eq_Inr)
  from stakeOnNewAssertion_tree [OF new(2)] obtain p h cfg
    where "adds (keccak256 c) (this_block c) (configData (beforeStateData inp)) p h cfg s0 s1" by blast
  from adds_same_nodes(2) [OF newStake_tree [OF new(1)] newStake_stake [OF new(1)] this]
  have "adds (keccak256 c) (this_block c) (configData (beforeStateData inp)) p h cfg s s1" .
  from adds_same_nodes(1) [OF this receiveTokens_tree [OF new(3)]] show ?thesis by blast
qed

text \<open>What a transaction does to the tree: nothing, a new assertion, or the confirmation of a child of the latest confirmed one.\<close>

lemma rollup_step_tree:
  assumes "rollup_step K P R M T s s'"
  shows "same_nodes s s' \<or> (\<exists>pcfg p h cfg. adds K T pcfg p h cfg s s') \<or> (\<exists>h. confirms K (latestConfirmed s) h s s')"
  using assms
proof cases
  case (confirm c h p st w cfg acc)
  with confirmAssertion_Inr(1,4) show ?thesis by metis
next
  case (new_stake c n inp e)
  with newStakeOnNewAssertion_tree show ?thesis by blast
next
  case (stake c inp e)
  with stakeOnNewAssertion_tree show ?thesis by blast
next
  case (return_deposit c)
  then show ?thesis by (auto simp: returnOldDeposit_def bindR_eq_Inr dest: withdrawStaker_tree)
next
  case (add_deposit c a n)
  then obtain k where "receiveTokens c n (emit_r (UserStakeUpdated a (amountStaked s a) k) (set_amount a k s)) = Inr s'"
    by (auto simp: addToDeposit_def increaseStakeBy_def Let_def bindR_eq_Inr)
  from receiveTokens_tree [OF this] show ?thesis by (auto intro: same_nodes_trans [rotated])
next
  case (reduce_deposit c n)
  then show ?thesis by (auto simp: reduceDeposit_def bindR_eq_Inr dest: reduceStakeTo_tree)
next
  case (withdraw c n)
  then show ?thesis by (auto simp: withdrawStakerFunds_def withdrawFunds_def Let_def bindR_eq_Inr)
next
  case (force_refund as)
  then show ?thesis by (auto simp: forceRefundStaker_def bindR_eq_Inr owner_done_def dest: refund_stakers_tree)
next
  case (token t)
  then show ?thesis by simp
qed (auto simp: only_settings_def dest!: settings)

subsection \<open>The invariant of the tree\<close>

lemma nodes_okD:
  assumes "nodes_ok K s"
  shows "distinct (map fst (creations s))" "h \<in> known s \<Longrightarrow> node_status (assertions s h) \<noteq> NoAssertion"
    "h \<notin> known s \<Longrightarrow> assertions s h = no_assertion" "created s h p cfg \<Longrightarrow> h \<noteq> 0"
    "created s h p cfg \<Longrightarrow> configHash (assertions s h) = configHash_of K cfg"
    "created s h p cfg \<Longrightarrow> \<exists>st acc. h = assertionHash K p st acc" "created s h p cfg \<Longrightarrow> p \<noteq> 0 \<Longrightarrow> p \<in> known s"
    "created s h p cfg \<Longrightarrow> p \<noteq> 0 \<Longrightarrow> firstChildBlock (assertions s p) \<noteq> 0"
    "firstChildBlock (assertions s p) \<noteq> 0 \<Longrightarrow> \<exists>h cfg. created s h p cfg"
  using assms unfolding nodes_ok_def by (blast, meson, meson, blast+)

lemma knownI: "created s h p cfg \<Longrightarrow> h \<in> known s"
  by (force simp: known_def)

lemma known_created: "h \<in> known s \<Longrightarrow> \<exists>p cfg. created s h p cfg"
  by (force simp: known_def)

lemma created_unique: "nodes_ok K s \<Longrightarrow> created s h p cfg \<Longrightarrow> created s h p' cfg' \<Longrightarrow> p' = p \<and> cfg' = cfg"
  using nodes_okD(1) [of K s] eq_key_imp_eq_value [of "creations s" h] by force

lemma no_assertion_fields [simp]: "node_status no_assertion = NoAssertion" "configHash no_assertion = 0" "firstChildBlock no_assertion = 0"
  by (simp_all add: no_assertion_def)

lemma configHash_of_nonzero: "good_keccak K \<Longrightarrow> configHash_of K cfg \<noteq> 0"
  by (simp add: configHash_of_def good_keccakD)

lemma configHash_of_inject: "good_keccak K \<Longrightarrow> configHash_of K cfg = configHash_of K cfg' \<longleftrightarrow> cfg = cfg'"
  by (auto simp: configHash_of_def good_keccakD)

lemma assertionHash_parent: "good_keccak K \<Longrightarrow> assertionHash K p st acc = assertionHash K p' st' acc' \<Longrightarrow> p = p'"
  by (simp add: assertionHash_def assertionHash_of_def good_keccakD)

lemma adds_parent:
  assumes "good_keccak K" "nodes_ok K s" "adds K T pcfg p h cfg s s'"
  shows "p \<in> known s" "h \<notin> known s" "h \<noteq> p" "\<exists>q. created s p q pcfg"
proof -
  have cfg: "configHash (assertions s p) = configHash_of K pcfg" and none: "node_status (assertions s h) = NoAssertion"
    using assms(3) by (simp_all add: adds_def)
  show p: "p \<in> known s" using nodes_okD(3) [OF assms(2)] cfg configHash_of_nonzero [OF assms(1)] by force
  show h: "h \<notin> known s" using nodes_okD(2) [OF assms(2)] none by blast
  with p show "h \<noteq> p" by blast
  from p obtain q pcfg' where q: "created s p q pcfg'" by (blast dest: known_created)
  with nodes_okD(5) [OF assms(2)] cfg configHash_of_inject [OF assms(1)] show "\<exists>q. created s p q pcfg" by metis
qed

lemma childCreated_fields [simp]:
  "node_status (childCreated c a) = node_status a" "configHash (childCreated c a) = configHash a"
  "node_isFirstChild (childCreated c a) = node_isFirstChild a" "createdAtBlock (childCreated c a) = createdAtBlock a"
  "firstChildBlock (childCreated c a) = (if firstChildBlock a = 0 then this_block c else firstChildBlock a)"
  "secondChildBlock (childCreated c a) = (if firstChildBlock a \<noteq> 0 \<and> secondChildBlock a = 0 then this_block c else secondChildBlock a)"
  by (simp_all add: childCreated_def)

lemma createAssertion_fields [simp]:
  "node_status (createAssertion c b k) = AssertionPending" "configHash (createAssertion c b k) = k"
  "node_isFirstChild (createAssertion c b k) = b" "firstChildBlock (createAssertion c b k) = 0" "secondChildBlock (createAssertion c b k) = 0"
  "createdAtBlock (createAssertion c b k) = this_block c"
  by (simp_all add: createAssertion_def)

lemma adds_nodes:
  fixes s s' :: "('h::zero, 't) Rollup"
  assumes "adds K T pcfg p h cfg s s'" "T \<noteq> 0" "h \<noteq> p"
  shows "node_status (assertions s' h) = AssertionPending" "firstChildBlock (assertions s' h) = 0" "configHash (assertions s' h) = configHash_of K cfg"
    "k \<noteq> h \<Longrightarrow> node_status (assertions s' k) = node_status (assertions s k)" "k \<noteq> h \<Longrightarrow> configHash (assertions s' k) = configHash (assertions s k)"
    "k \<noteq> h \<Longrightarrow> k \<noteq> p \<Longrightarrow> assertions s' k = assertions s k" "firstChildBlock (assertions s' p) \<noteq> 0"
    "node_isFirstChild (assertions s' h) \<longleftrightarrow> firstChildBlock (assertions s p) = 0"
    "k \<noteq> h \<Longrightarrow> node_isFirstChild (assertions s' k) = node_isFirstChild (assertions s k)"
    "k \<noteq> h \<Longrightarrow> firstChildBlock (assertions s k) \<noteq> 0 \<Longrightarrow> firstChildBlock (assertions s' k) \<noteq> 0"
proof -
  obtain c :: "'h block_ctx" where "this_block c = T" and "assertions s' = ((assertions s)(p := childCreated c (assertions s p)))
      (h := createAssertion c (firstChildBlock (assertions s p) = 0) (configHash_of K cfg))"
    using assms(1) unfolding adds_def by blast
  with assms(2,3) show "node_status (assertions s' h) = AssertionPending" "firstChildBlock (assertions s' h) = 0" "configHash (assertions s' h) = configHash_of K cfg"
    "k \<noteq> h \<Longrightarrow> node_status (assertions s' k) = node_status (assertions s k)" "k \<noteq> h \<Longrightarrow> configHash (assertions s' k) = configHash (assertions s k)"
    "k \<noteq> h \<Longrightarrow> k \<noteq> p \<Longrightarrow> assertions s' k = assertions s k" "firstChildBlock (assertions s' p) \<noteq> 0"
    "node_isFirstChild (assertions s' h) \<longleftrightarrow> firstChildBlock (assertions s p) = 0"
    "k \<noteq> h \<Longrightarrow> node_isFirstChild (assertions s' k) = node_isFirstChild (assertions s k)"
    "k \<noteq> h \<Longrightarrow> firstChildBlock (assertions s k) \<noteq> 0 \<Longrightarrow> firstChildBlock (assertions s' k) \<noteq> 0"
    by simp_all
qed

lemma nodes_ok_adds:
  assumes K: "good_keccak K" and ok: "nodes_ok K s" and adds: "adds K T pcfg p h cfg s s'" and T: "T \<noteq> 0"
  shows "nodes_ok K s'"
proof -
  note p = adds_parent [OF K ok adds]
  note N = adds_nodes [OF adds T p(3)]
  have c: "creations s' = creations s @ [(h, p, cfg)]" and h: "h \<noteq> 0" "\<exists>st acc. h = assertionHash K p st acc" "p \<noteq> 0"
    using adds by (auto simp: adds_def)
  then have k: "known s' = insert h (known s)" by (simp add: known_def)
  show ?thesis
    unfolding nodes_ok_def
  proof (intro conjI allI impI)
    show "distinct (map fst (creations s'))" using c p(2) nodes_okD(1) [OF ok] by (auto simp: known_def)
    show "if k \<in> known s' then node_status (assertions s' k) \<noteq> NoAssertion else assertions s' k = no_assertion" for k
      using k N(1) N(4,6) [of k] p(1) nodes_okD(2,3) [OF ok, of k] by (cases "k = h"; cases "k = p") auto
    fix a q acfg assume a: "created s' a q acfg"
    then have new: "a = h \<and> q = p \<and> acfg = cfg \<or> created s a q acfg \<and> a \<noteq> h" using c p(2) by (auto dest: knownI)
    then show "a \<noteq> 0" "configHash (assertions s' a) = configHash_of K acfg" "\<exists>st acc. a = assertionHash K q st acc"
      using h N(3) N(5) [of a] nodes_okD(4-6) [OF ok, of a q acfg] by auto
    assume "q \<noteq> 0"
    with new show "q \<in> known s'" "firstChildBlock (assertions s' q) \<noteq> 0"
      using k p N(7) N(10) [of q] nodes_okD(7,8) [OF ok, of a q acfg] by (auto dest: knownI)
  next
    fix q assume "firstChildBlock (assertions s' q) \<noteq> 0"
    then show "\<exists>h cfg. created s' h q cfg" using N(2) N(6) [of q] nodes_okD(9) [OF ok, of q] c by (cases "q = p"; cases "q = h") auto
  next
    show "\<exists>g gcfg. created s' g 0 gcfg \<and> (\<forall>a acfg. created s' a 0 acfg \<longrightarrow> a = g)"
      using ok h(3) c unfolding nodes_ok_def by auto
  qed
qed

lemma nodes_ok_same: "same_nodes s s' \<Longrightarrow> nodes_ok K s \<Longrightarrow> nodes_ok K s'"
  by (simp add: nodes_ok_def same_nodes_def known_def)

lemma nodes_ok_confirms:
  assumes "nodes_ok K s" "confirms K p h s s'"
  shows "nodes_ok K s'"
proof -
  have "node_status (assertions s h) = AssertionPending" using assms(2) by (simp add: confirms_def)
  then have h: "h \<in> known s" using nodes_okD(3) [OF assms(1), of h] by fastforce
  have "firstChildBlock (assertions s' k) = firstChildBlock (assertions s k)" "configHash (assertions s' k) = configHash (assertions s k)" for k
    using assms(2) by (auto simp: confirms_def)
  moreover have "creations s' = creations s" "known s' = known s" using assms(2) by (simp_all add: confirms_def known_def)
  moreover have "if k \<in> known s then node_status (assertions s' k) \<noteq> NoAssertion else assertions s' k = no_assertion" for k
    using nodes_okD(2,3) [OF assms(1), of k] assms(2) h by (auto simp: confirms_def)
  ultimately show ?thesis using assms(1) unfolding nodes_ok_def by simp
qed

lemma create_genesis_Inr:
  fixes s :: "('h::zero, 't) Rollup"
  assumes "create_genesis c st n s = Inr s'"
  defines "g \<equiv> assertionHash_of (keccak256 c) 0 (executionStateHash (keccak256 c) st) 0"
    and "cfg \<equiv> current_config s (ucast n)"
  shows "creations s' = creations s @ [(g, 0, cfg)]" "latestConfirmed s' = g" "same_stakes s s'" "baseStake s' = baseStake s"
    "assertions s' = (assertions s)(g := (createAssertion c True (configHash_of (keccak256 c) cfg))\<lparr>node_status := AssertionConfirmed\<rparr>)"
  using assms(1)
  by (auto simp: g_def cfg_def create_genesis_def Let_def bindR_eq_Inr same_stakes_def creations_def emit_r_def initializeCore_def
      map_filter_def current_config_def split: if_splits)

lemma configure_fields:
  "creations (configure c config deps s) = creations s" "same_stakes s (configure c config deps s)"
  "assertions (configure c config deps s) = assertions s"
  by (simp_all add: configure_def creations_def same_stakes_def)

lemma rollup_initialize_Inr:
  fixes s :: "('h::zero, 't) Rollup"
  assumes "rollup_initialize c config deps (new_rollup admin t) = Inr s"
  obtains st cfg where "creations s = [(assertionHash (keccak256 c) 0 st 0, 0, cfg)]" "latestConfirmed s = assertionHash (keccak256 c) 0 st 0"
    "assertions s = (\<lambda>_. no_assertion)(assertionHash (keccak256 c) 0 st 0 :=
       (createAssertion c True (configHash_of (keccak256 c) cfg))\<lparr>node_status := AssertionConfirmed\<rparr>)"
    "requiredStake cfg = baseStake s" "same_stakes (new_rollup admin t :: ('h, 't) Rollup) s"
proof -
  let ?s = "configure c config deps (new_rollup admin t :: ('h, 't) Rollup)"
  from assms obtain n s1 where g: "create_genesis c (cfg_genesisExecutionState config) n ?s = Inr s1"
    and s: "s = emit_r (RollupInitialized (cfg_wasmModuleRoot config) (cfg_chainId config)) s1"
    by (auto simp: rollup_initialize_def bindR_eq_Inr)
  have new: "creations (new_rollup admin t :: ('h, 't) Rollup) = []" "assertions (new_rollup admin t :: ('h, 't) Rollup) = (\<lambda>_. no_assertion)"
    by (simp_all add: new_rollup_def creations_def map_filter_def)
  note G = create_genesis_Inr [OF g, folded assertionHash_def, unfolded configure_fields new append_Nil]
  show ?thesis
    by (rule that [of "cfg_genesisExecutionState config" "current_config ?s (ucast n)"])
      (use G configure_fields(2) [of "new_rollup admin t :: ('h, 't) Rollup" c config deps] in
        \<open>simp_all add: s creations_emit current_config_def same_stakes_def\<close>)
qed

lemma nodes_ok_initial:
  assumes "good_keccak (keccak256 c)" "rollup_initialize c config deps (new_rollup admin t) = Inr s"
  shows "nodes_ok (keccak256 c) s"
  using assms(2)
proof (rule rollup_initialize_Inr)
  fix st cfg
  assume *: "creations s = [(assertionHash (keccak256 c) 0 st 0, 0, cfg)]"
    "assertions s = (\<lambda>_. no_assertion)(assertionHash (keccak256 c) 0 st 0 :=
       (createAssertion c True (configHash_of (keccak256 c) cfg))\<lparr>node_status := AssertionConfirmed\<rparr>)"
  have "assertionHash (keccak256 c) 0 st 0 \<noteq> 0"
    using good_keccakD(2) [OF assms(1)] by (simp add: assertionHash_def assertionHash_of_def)
  then show ?thesis by (auto simp: nodes_ok_def known_def *)
qed

lemma rollup_reach_tree: "rollup_reach K P R M T s \<Longrightarrow> good_keccak K \<Longrightarrow> nodes_ok K s"
proof (induction rule: rollup_reach.induct)
  case (deployed c config deps admin t s T)
  then show ?case using nodes_ok_initial [of c] by simp
next
  case (transaction T s T' s')
  then show ?case using rollup_step_tree [OF transaction(4)] nodes_ok_same nodes_ok_adds nodes_ok_confirms by metis
qed

subsection \<open>Confirmed assertions\<close>

definition confirmed :: "('h, 't) Rollup \<Rightarrow> 'h \<Rightarrow> bool" where
  "confirmed s h \<longleftrightarrow> node_status (assertions s h) = AssertionConfirmed"

definition child_assertion :: "('h, 't) Rollup \<Rightarrow> 'h \<Rightarrow> 'h \<Rightarrow> bool" where
  "child_assertion s p h \<longleftrightarrow> (\<exists>cfg. created s h p cfg)"

definition chain_ok :: "('h::zero, 't) Rollup \<Rightarrow> bool" where
  "chain_ok s \<longleftrightarrow>
     confirmed s (latestConfirmed s) \<and> (\<forall>h. confirmed s h \<longrightarrow> (child_assertion s)\<^sup>*\<^sup>* h (latestConfirmed s)) \<and>
     (\<forall>p h. confirmed s h \<longrightarrow> child_assertion s p h \<longrightarrow> p \<noteq> 0 \<longrightarrow> confirmed s p) \<and>
     (\<forall>p h h'. confirmed s h \<longrightarrow> confirmed s h' \<longrightarrow> child_assertion s p h \<longrightarrow> child_assertion s p h' \<longrightarrow> h = h') \<and>
     (\<forall>h. child_assertion s (latestConfirmed s) h \<longrightarrow> \<not> confirmed s h)"

lemma parent_unique: "nodes_ok K s \<Longrightarrow> child_assertion s p h \<Longrightarrow> child_assertion s p' h \<Longrightarrow> p = p'"
  by (auto simp: child_assertion_def dest: created_unique)

lemma confirms_parent:
  assumes "good_keccak K" "nodes_ok K s" "confirms K p h s s'"
  shows "child_assertion s p h"
proof -
  have "node_status (assertions s h) = AssertionPending" using assms(3) by (simp add: confirms_def)
  then have "h \<in> known s" using nodes_okD(3) [OF assms(2), of h] by fastforce
  then obtain q cfg where q: "created s h q cfg" by (blast dest: known_created)
  moreover have "q = p" using nodes_okD(6) [OF assms(2) q] assms(1,3) assertionHash_parent unfolding confirms_def by blast
  ultimately show ?thesis by (auto simp: child_assertion_def)
qed

lemma chain_ok_adds:
  assumes K: "good_keccak K" and tree: "nodes_ok K s" and ok: "chain_ok s" and adds: "adds K T pcfg p h cfg s s'" and T: "T \<noteq> 0"
  shows "chain_ok s'"
proof -
  note p = adds_parent [OF K tree adds]
  note N = adds_nodes [OF adds T p(3)]
  have conf: "confirmed s' k \<longleftrightarrow> confirmed s k" for k
    using N(1) N(4) [of k] nodes_okD(3) [OF tree p(2)] by (cases "k = h") (auto simp: confirmed_def)
  have child: "child_assertion s' q k \<longleftrightarrow> child_assertion s q k \<or> q = p \<and> k = h" for q k
    using adds by (auto simp: adds_def child_assertion_def)
  have h: "\<not> confirmed s h" using nodes_okD(3) [OF tree p(2)] by (simp add: confirmed_def)
  have lc: "latestConfirmed s' = latestConfirmed s" using adds by (simp add: adds_def)
  have "child_assertion s \<le> child_assertion s'" using child by blast
  then have path: "(child_assertion s)\<^sup>*\<^sup>* a b \<Longrightarrow> (child_assertion s')\<^sup>*\<^sup>* a b" for a b by (blast dest: rtranclp_mono)
  show ?thesis
    unfolding chain_ok_def
  proof (intro conjI allI impI)
    show "(child_assertion s')\<^sup>*\<^sup>* k (latestConfirmed s')" if "confirmed s' k" for k
      using that ok path unfolding chain_ok_def conf lc by blast
  qed (use ok h in \<open>unfold chain_ok_def conf lc child, blast+\<close>)
qed

lemma chain_ok_confirms:
  assumes K: "good_keccak K" and tree: "nodes_ok K s" and ok: "chain_ok s" and confirms: "confirms K (latestConfirmed s) h s s'"
  shows "chain_ok s'"
proof -
  have par: "child_assertion s (latestConfirmed s) h" by (rule confirms_parent [OF K tree confirms])
  have pending: "\<not> confirmed s h" using confirms by (simp add: confirms_def confirmed_def)
  have conf: "confirmed s' k \<longleftrightarrow> confirmed s k \<or> k = h" for k using confirms by (simp add: confirms_def confirmed_def)
  have same: "child_assertion s' = child_assertion s" "latestConfirmed s' = h" using confirms by (simp_all add: confirms_def child_assertion_def fun_eq_iff)
  have none: "\<not> confirmed s k" if "child_assertion s h k" for k
  proof
    assume "confirmed s k"
    moreover have "h \<noteq> 0" using par nodes_okD(4) [OF tree] by (auto simp: child_assertion_def)
    ultimately show False using that ok pending unfolding chain_ok_def by blast
  qed
  show ?thesis
    unfolding chain_ok_def
  proof (intro conjI allI impI)
    show "(child_assertion s')\<^sup>*\<^sup>* k (latestConfirmed s')" if "confirmed s' k" for k
      using that ok par unfolding chain_ok_def conf same by (auto intro: rtranclp.rtrancl_into_rtrancl)
    show "confirmed s' q" if "confirmed s' k" "child_assertion s' q k" "q \<noteq> 0" for q k
      using that ok parent_unique [OF tree par] unfolding chain_ok_def conf same by blast
    show "k = k'" if "confirmed s' k" "confirmed s' k'" "child_assertion s' q k" "child_assertion s' q k'" for q k k'
      using that ok parent_unique [OF tree par] unfolding chain_ok_def conf same by metis
    show "\<not> confirmed s' k" if "child_assertion s' (latestConfirmed s') k" for k
      using that ok none pending parent_unique [OF tree par] unfolding chain_ok_def conf same by blast
  qed (simp add: conf same)
qed

lemma chain_ok_same:
  assumes "same_nodes s s'" "chain_ok s"
  shows "chain_ok s'"
proof -
  have same: "confirmed s' = confirmed s" "child_assertion s' = child_assertion s" "latestConfirmed s' = latestConfirmed s"
    using assms(1) by (simp_all add: same_nodes_def confirmed_def child_assertion_def fun_eq_iff)
  show ?thesis using assms(2) unfolding chain_ok_def same .
qed

lemma chain_ok_initial:
  assumes "good_keccak (keccak256 c)" "rollup_initialize c config deps (new_rollup admin t) = Inr s"
  shows "chain_ok s"
  using assms(2)
proof (rule rollup_initialize_Inr)
  fix st cfg
  assume *: "creations s = [(assertionHash (keccak256 c) 0 st 0, 0, cfg)]" "latestConfirmed s = assertionHash (keccak256 c) 0 st 0"
    "assertions s = (\<lambda>_. no_assertion)(assertionHash (keccak256 c) 0 st 0 :=
       (createAssertion c True (configHash_of (keccak256 c) cfg))\<lparr>node_status := AssertionConfirmed\<rparr>)"
  have "assertionHash (keccak256 c) 0 st 0 \<noteq> 0"
    using good_keccakD(2) [OF assms(1)] by (simp add: assertionHash_def assertionHash_of_def)
  moreover have "confirmed s h \<longleftrightarrow> h = latestConfirmed s" for h by (simp add: confirmed_def *(2,3))
  moreover have "child_assertion s p h \<longleftrightarrow> p = 0 \<and> h = latestConfirmed s" for p h by (auto simp: child_assertion_def *(1,2))
  ultimately show ?thesis unfolding chain_ok_def *(2) by auto
qed

lemma rollup_reach_chain: "rollup_reach K P R M T s \<Longrightarrow> good_keccak K \<Longrightarrow> chain_ok s"
proof (induction rule: rollup_reach.induct)
  case (deployed c config deps admin t s T)
  then show ?case using chain_ok_initial [of c] by simp
next
  case (transaction T s T' s')
  note tree = rollup_reach_tree [OF transaction(1,6)]
  from rollup_step_tree [OF transaction(4)]
  consider "same_nodes s s'" | pcfg p h cfg where "adds K T' pcfg p h cfg s s'" | h where "confirms K (latestConfirmed s) h s s'" by blast
  then show ?case
  proof cases
    case 1
    then show ?thesis using transaction(5,6) by (blast intro: chain_ok_same)
  next
    case 2
    with chain_ok_adds [OF transaction(6) tree] transaction(3,5,6) show ?thesis by simp
  next
    case 3
    with chain_ok_confirms [OF transaction(6) tree] transaction(5,6) show ?thesis by simp
  qed
qed

end
