(* ===== verification/Spec2Isabelle.thy ===== *)
theory Spec2Isabelle
  imports Bisection Prefix_Correctness History_Commitment Path_Timers Tracker_Safety Edge_Stakes Honest_Moves Manager_Safety Assertion_Safety Rollup_Protocol
begin

text \<open>
  Verification of the BOLD challenge protocol validator (Go). Plan.
\<close>

end
